(* ===== verification/Prelude.thy ===== *)
theory Prelude
  imports Main "HOL-Library.Word" "HOL-Library.AList"
begin

text \<open>
  The shared base of the development: the outcome of a Go call, Go byte strings and their
  little-endian integers, alignment arithmetic, and the generic list facts the component
  theories rely on.

  A Go function that returns \<open>(T, error)\<close> is a HOL function into
  \<open>('e, 'a) outcome\<close>: it returns a value (\<open>Ok\<close>), returns a non-nil error
  (\<open>Err\<close>), or panics (\<open>Panic\<close>: an index or slice expression out of range). A panic
  is not an error value: the wrappers written \<open>fmt.Errorf("...: %w", err)\<close> act on
  \<open>Err\<close> only.
\<close>

section \<open>Collections of rewrite rules\<close>

named_theorems outcome_simps \<open>unfolding of the outcome combinators\<close>
named_theorems wire_simps \<open>the byte-level encoders and decoders on their success path\<close>

section \<open>Outcomes of Go calls\<close>

datatype ('e, 'a) outcome = Ok 'a | Err 'e | Panic

fun obind :: "('e, 'a) outcome \<Rightarrow> ('a \<Rightarrow> ('e, 'b) outcome) \<Rightarrow> ('e, 'b) outcome" where
  "obind (Ok x) f = f x"
| "obind (Err e) f = Err e"
| "obind Panic f = Panic"

text \<open>\<open>owrap w m\<close> is \<open>if err != nil { return fmt.Errorf("...: %w", err) }\<close>.\<close>

fun owrap :: "('e \<Rightarrow> 'e) \<Rightarrow> ('e, 'a) outcome \<Rightarrow> ('e, 'a) outcome" where
  "owrap w (Ok x) = Ok x"
| "owrap w (Err e) = Err (w e)"
| "owrap w Panic = Panic"

fun is_ok :: "('e, 'a) outcome \<Rightarrow> bool" where
  "is_ok (Ok _) = True"
| "is_ok (Err _) = False"
| "is_ok Panic = False"

text \<open>A loop that may run forever returns \<open>None\<close> while its fuel does not suffice.\<close>

fun fbind :: "('e, 'a) outcome option \<Rightarrow> ('a \<Rightarrow> ('e, 'b) outcome option)
    \<Rightarrow> ('e, 'b) outcome option" where
  "fbind None f = None"
| "fbind (Some (Ok x)) f = f x"
| "fbind (Some (Err e)) f = Some (Err e)"
| "fbind (Some Panic) f = Some Panic"

definition fwrap :: "('e \<Rightarrow> 'e) \<Rightarrow> ('e, 'a) outcome option \<Rightarrow> ('e, 'a) outcome option" where
  "fwrap w m = map_option (owrap w) m"

lemma obind_cong [fundef_cong]:
  "m = m' \<Longrightarrow> (\<And>x. m' = Ok x \<Longrightarrow> f x = g x) \<Longrightarrow> obind m f = obind m' g"
  by (cases m') auto

lemma obind_eq_Ok [outcome_simps]:
  "obind m f = Ok y \<longleftrightarrow> (\<exists>x. m = Ok x \<and> f x = Ok y)"
  by (cases m) auto

lemma owrap_eq_Ok [outcome_simps]: "owrap w m = Ok y \<longleftrightarrow> m = Ok y"
  by (cases m) auto

lemma owrap_eq_Panic [outcome_simps]: "owrap w m = Panic \<longleftrightarrow> m = Panic"
  by (cases m) auto

lemma obind_eq_Panic [outcome_simps]:
  "obind m f = Panic \<longleftrightarrow> m = Panic \<or> (\<exists>x. m = Ok x \<and> f x = Panic)"
  by (cases m) auto

lemma is_ok_iff [outcome_simps]: "is_ok m \<longleftrightarrow> (\<exists>x. m = Ok x)"
  by (cases m) auto

lemma fbind_eq_Ok [outcome_simps]:
  "fbind m f = Some (Ok y) \<longleftrightarrow> (\<exists>x. m = Some (Ok x) \<and> f x = Some (Ok y))"
  by (cases "(m, f)" rule: fbind.cases) auto

lemma fwrap_eq_Ok [outcome_simps]: "fwrap w m = Some (Ok y) \<longleftrightarrow> m = Some (Ok y)"
  by (auto simp: fwrap_def owrap_eq_Ok)

lemma fwrap_simps [simp]:
  "fwrap w None = None" "fwrap w (Some m) = Some (owrap w m)"
  by (simp_all add: fwrap_def)

lemma fwrap_eq_None [simp]: "fwrap w m = None \<longleftrightarrow> m = None"
  by (simp add: fwrap_def)

section \<open>Bytes, words and Go strings\<close>

type_synonym byte = "8 word"
type_synonym bytes = "byte list"

text \<open>A Go string is an immutable byte sequence; here it is a \<open>string\<close>, one \<open>char\<close> a byte.\<close>

definition byte_of_char :: "char \<Rightarrow> byte" where
  "byte_of_char c = word_of_nat (of_char c)"

definition char_of_byte :: "byte \<Rightarrow> char" where
  "char_of_byte b = char_of (unat b)"

definition bytes_of :: "string \<Rightarrow> bytes" where
  "bytes_of s = map byte_of_char s"

definition string_of :: "bytes \<Rightarrow> string" where
  "string_of bs = map char_of_byte bs"

lemma char_of_byte_of_char [simp]: "char_of_byte (byte_of_char c) = c"
  by (simp add: char_of_byte_def byte_of_char_def unat_of_nat take_bit_eq_mod)

lemma string_of_bytes_of [simp]: "string_of (bytes_of s) = s"
  by (simp add: string_of_def bytes_of_def comp_def)

lemma length_bytes_of [simp]: "length (bytes_of s) = length s"
  by (simp add: bytes_of_def)

text \<open>\<open>binary.LittleEndian\<close>: the bytes of a word, least significant first.\<close>

fun le_bytes :: "nat \<Rightarrow> 'a::len word \<Rightarrow> bytes" where
  "le_bytes 0 w = []"
| "le_bytes (Suc n) w = ucast w # le_bytes n (drop_bit 8 w)"

fun un_le :: "bytes \<Rightarrow> 'a::len word" where
  "un_le [] = 0"
| "un_le (b # bs) = or (ucast b) (push_bit 8 (un_le bs))"

abbreviation le16 :: "16 word \<Rightarrow> bytes" where "le16 \<equiv> le_bytes 2"
abbreviation le32 :: "32 word \<Rightarrow> bytes" where "le32 \<equiv> le_bytes 4"
abbreviation le64 :: "64 word \<Rightarrow> bytes" where "le64 \<equiv> le_bytes 8"

lemma length_le_bytes [simp]: "length (le_bytes n w) = n"
  by (induction n arbitrary: w) auto

lemma un_le_le_bytes: "un_le (le_bytes n w) = take_bit (8 * n) (w :: 'a::len word)"
proof (induction n arbitrary: w)
  case (Suc n)
  have "or (ucast (ucast w :: byte)) (push_bit 8 (take_bit (8 * n) (drop_bit 8 w)))
      = take_bit (8 * Suc n) w"
  proof (rule bit_word_eqI)
    fix k assume "k < LENGTH('a)"
    then show "bit (or (ucast (ucast w :: byte)) (push_bit 8 (take_bit (8 * n) (drop_bit 8 w)))) k
        = bit (take_bit (8 * Suc n) w) k"
      by (cases "k < 8") (auto simp: bit_simps)
  qed
  then show ?case by (simp add: Suc.IH)
qed simp

lemma un_le_le16 [simp]: "un_le (le16 w) = w"
  by (simp add: un_le_le_bytes take_bit_word_eq_self)

lemma un_le_le32 [simp]: "un_le (le32 w) = w"
  by (simp add: un_le_le_bytes take_bit_word_eq_self)

lemma un_le_le64 [simp]: "un_le (le64 w) = w"
  by (simp add: un_le_le_bytes take_bit_word_eq_self)

section \<open>Alignment arithmetic\<close>

text \<open>The number of padding bytes from offset \<open>p\<close> to the next multiple of \<open>n\<close>.\<close>

definition pad :: "nat \<Rightarrow> nat \<Rightarrow> nat" where
  "pad n p = (n - p mod n) mod n"

lemma pad_aligned [simp]: "p mod n = 0 \<Longrightarrow> pad n p = 0"
  by (simp add: pad_def)

lemma pad_Suc: "0 < n \<Longrightarrow> p mod n \<noteq> 0 \<Longrightarrow> pad n p = Suc (pad n (Suc p))"
proof -
  assume n: "0 < n" and p: "p mod n \<noteq> 0"
  have lt: "p mod n < n" using n by simp
  have "pad n p = n - p mod n" using p lt by (simp add: pad_def)
  moreover have "pad n (Suc p) = n - p mod n - 1"
    using p lt by (cases "Suc (p mod n) = n") (auto simp: pad_def mod_Suc)
  ultimately show ?thesis using lt by simp
qed

lemma pad_less: "0 < n \<Longrightarrow> pad n p < n"
  by (simp add: pad_def)

lemma pad_makes_aligned: "0 < n \<Longrightarrow> (p + pad n p) mod n = 0"
proof (induction "pad n p" arbitrary: p)
  case 0
  then show ?case using pad_Suc[of n p] by fastforce
next
  case (Suc k)
  then have "p mod n \<noteq> 0" by (metis nat.distinct(1) pad_aligned)
  then have "pad n p = Suc (pad n (Suc p))" using Suc.prems by (rule pad_Suc[rotated])
  then show ?case using Suc.hyps(1)[of "Suc p"] Suc.hyps(2) Suc.prems by simp
qed

lemma pad_cong: "p mod 8 = q mod 8 \<Longrightarrow> n \<in> {1, 2, 4, 8} \<Longrightarrow> pad n p = pad n q"
proof -
  assume pq: "p mod 8 = q mod 8" and n: "n \<in> {1, 2, 4, 8}"
  then have "n dvd 8" by auto
  then have "p mod n = q mod n" using pq by (metis mod_mod_cancel)
  then show ?thesis by (simp add: pad_def)
qed

lemma pad_add8 [simp]: "n \<in> {1, 2, 4, 8} \<Longrightarrow> pad n (8 * k + p) = pad n p"
  by (rule pad_cong) auto

end
