(* ===== verification/DBus_Wire.thy ===== *)
theory DBus_Wire
  imports Prelude
begin

text \<open>
  The D-Bus wire format of \<^verbatim>\<open>internal/dbus/marshal.go\<close>: the dynamic values its \<open>any\<close>
  arguments range over, the signature scanner \<open>splitSig\<close>, the encoder and the decoder.
  Each definition follows one function of the source, in the source's order; the lemmas on
  them are in \<^verbatim>\<open>DBus_Types.thy\<close> and \<^verbatim>\<open>DBus_Roundtrip.thy\<close>.
\<close>

section \<open>Dynamic values\<close>

text \<open>
  The dynamic types the marshaler's type switches name. An integer is its bit pattern at its
  width (the conversions \<open>uint16(v)\<close> and \<open>int16(v)\<close> keep the bits), a \<open>float64\<close> is its
  \<open>math.Float64bits\<close>. A \<open>map[string]any\<close> is an association list: its order is the order
  in which \<open>range\<close> happens to visit the map, and Go gives it distinct keys.
\<close>

datatype gval =
    VByte byte
  | VBool bool
  | VInt16 "16 word"
  | VUint16 "16 word"
  | VInt32 "32 word"
  | VUint32 "32 word"
  | VInt64 "64 word"
  | VUint64 "64 word"
  | VFloat64 "64 word"
  | VString string
  | VVariant string gval
  | VSlice "gval list"
  | VStrings "string list"
  | VBytes "byte list"
  | VMap "(string \<times> gval) list"
  | VNil

datatype dbus_err =
    EmptySignature
  | Unbalanced string
  | WrongType string gval
  | UnsupportedCode string
  | StructArity string nat nat
  | StructMember nat dbus_err
  | VariantBody dbus_err
  | ArrayElement nat dbus_err
  | ArrayValue string dbus_err
  | UnsupportedArray gval
  | DictKey dbus_err
  | DictValue string dbus_err
  | NotDictEntry string
  | EofAligning
  | EofNeed nat nat nat
  | ReadStructMember dbus_err
  | ReadArrayElement dbus_err
  | ReadDictKey dbus_err
  | ReadDictValue string dbus_err
  | NonStringKey gval
  | OutArity string
  | OutValue nat string dbus_err
  | AssignType string gval
  | AssignElement gval
  | UnsupportedDest string

section \<open>Encoding\<close>

text \<open>The encoder's only state is the buffer written so far.\<close>

type_synonym encoder = bytes

function align :: "nat \<Rightarrow> encoder \<Rightarrow> encoder" where
  "align n e = (if 0 < n \<and> length e mod n \<noteq> 0 then align n (e @ [0]) else e)"
  by pat_completeness auto
termination
by (relation "measure (\<lambda>(n, e). pad n (length e))") (auto simp: pad_Suc)

declare align.simps [simp del]

definition putUint16 :: "encoder \<Rightarrow> 16 word \<Rightarrow> encoder" where
  "putUint16 e v = align 2 e @ le16 v"

definition putUint32 :: "encoder \<Rightarrow> 32 word \<Rightarrow> encoder" where
  "putUint32 e v = align 4 e @ le32 v"

definition putUint64 :: "encoder \<Rightarrow> 64 word \<Rightarrow> encoder" where
  "putUint64 e v = align 8 e @ le64 v"

definition putStringLike :: "encoder \<Rightarrow> string \<Rightarrow> encoder" where
  "putStringLike e s = putUint32 e (word_of_nat (length s)) @ bytes_of s @ [0]"

definition putSignature :: "encoder \<Rightarrow> string \<Rightarrow> encoder" where
  "putSignature e s = e @ [word_of_nat (length s)] @ bytes_of s @ [0]"

definition alignmentOf :: "string \<Rightarrow> (dbus_err, nat) outcome" where
  "alignmentOf sig = (case sig of
     [] \<Rightarrow> Panic
   | c # _ \<Rightarrow>
       if c \<in> set ''yg'' then Ok 1
       else if c \<in> set ''nq'' then Ok 2
       else if c \<in> set ''biusoa'' then Ok 4
       else if c \<in> set ''xtd({v'' then Ok 8
       else Ok 1)"

text \<open>
  The loop \<open>for ; i < len(sig) && depth > 0; i++\<close> of \<open>splitSig\<close>, over the rest of the
  signature from index \<open>i\<close>: the index it stops at and the depth it stops with.
\<close>

fun scanClose :: "char \<Rightarrow> char \<Rightarrow> nat \<Rightarrow> nat \<Rightarrow> string \<Rightarrow> nat \<times> nat" where
  "scanClose op cl depth i [] = (i, depth)"
| "scanClose op cl depth i (x # xs) =
     (if depth = 0 then (i, depth)
      else if x = op then scanClose op cl (Suc depth) (Suc i) xs
      else if x = cl then scanClose op cl (depth - 1) (Suc i) xs
      else scanClose op cl depth (Suc i) xs)"

fun splitSig :: "string \<Rightarrow> (dbus_err, string \<times> string) outcome" where
  "splitSig [] = Err EmptySignature"
| "splitSig (c # cs) =
     (if c = CHR ''a'' then obind (splitSig cs) (\<lambda>(inner, r). Ok (c # inner, r))
      else if c = CHR ''('' then
        (case scanClose (CHR ''('') (CHR '')'') 1 1 cs of
           (i, depth) \<Rightarrow> if depth \<noteq> 0 then Err (Unbalanced (c # cs))
                         else Ok (take i (c # cs), drop i (c # cs)))
      else if c = CHR ''{'' then
        (case scanClose (CHR ''{'') (CHR ''}'') 1 1 cs of
           (i, depth) \<Rightarrow> if depth \<noteq> 0 then Err (Unbalanced (c # cs))
                         else Ok (take i (c # cs), drop i (c # cs)))
      else Ok ([c], cs))"

text \<open>The slice expression \<open>sig[1 : len(sig)-1]\<close>, which panics when it is \<open>sig[1:0]\<close>.\<close>

definition inner_sig :: "string \<Rightarrow> (dbus_err, string) outcome" where
  "inner_sig sig = (if length sig < 2 then Panic else Ok (take (length sig - 2) (drop 1 sig)))"

definition splitDictEntry :: "string \<Rightarrow> (dbus_err, string \<times> string \<times> string) outcome" where
  "splitDictEntry sig =
     (if length sig < 2 \<or> sig ! 0 \<noteq> CHR ''{'' then Err (NotDictEntry sig)
      else obind (inner_sig sig) (\<lambda>inner.
           obind (splitSig inner) (\<lambda>(keySig, rest).
           obind (splitSig rest) (\<lambda>(valSig, rest').
           Ok (keySig, valSig, rest')))))"

definition toAnySlice :: "gval \<Rightarrow> (dbus_err, gval list) outcome" where
  "toAnySlice val = (case val of
     VSlice v \<Rightarrow> Ok v
   | VStrings v \<Rightarrow> Ok (map VString v)
   | VBytes v \<Rightarrow> Ok (map VByte v)
   | _ \<Rightarrow> Err (UnsupportedArray val))"

text \<open>\<open>binary.LittleEndian.PutUint32(e.buf[lenPos:lenPos+4], v)\<close>: overwrite four bytes.\<close>

definition patch32 :: "encoder \<Rightarrow> nat \<Rightarrow> 32 word \<Rightarrow> encoder" where
  "patch32 e p v = take p e @ le32 v @ drop (p + 4) e"

primrec gsize :: "gval \<Rightarrow> nat" where
  "gsize (VByte _) = 1"
| "gsize (VBool _) = 1"
| "gsize (VInt16 _) = 1"
| "gsize (VUint16 _) = 1"
| "gsize (VInt32 _) = 1"
| "gsize (VUint32 _) = 1"
| "gsize (VInt64 _) = 1"
| "gsize (VUint64 _) = 1"
| "gsize (VFloat64 _) = 1"
| "gsize (VString _) = 1"
| "gsize (VVariant _ v) = Suc (gsize v)"
| "gsize (VSlice vs) = Suc (sum_list (map Suc (map gsize vs)))"
| "gsize (VStrings vs) = Suc (2 * length vs)"
| "gsize (VBytes vs) = Suc (2 * length vs)"
| "gsize (VMap kvs) = Suc (sum_list (map (\<lambda>kn. 3 + snd kn) (map (map_prod id gsize) kvs)))"
| "gsize VNil = 1"

lemma toAnySlice_gsize: "toAnySlice val = Ok items \<Longrightarrow> sum_list (map (Suc \<circ> gsize) items) < gsize val"
  by (auto simp: toAnySlice_def comp_def sum_list_const_mult sum_list_triv split: gval.splits)

text \<open>
  \<open>encodeValue\<close> and the loops inside it and \<open>encodeArray\<close>. A loop over \<open>items\<close> by index is
  a recursion on the items left, with the index kept for the error it reports; the struct
  loop also consumes the member signatures.
\<close>

function (sequential) encodeValue :: "encoder \<Rightarrow> string \<Rightarrow> gval \<Rightarrow> (dbus_err, encoder) outcome"
  and encodeStruct :: "string \<Rightarrow> nat \<Rightarrow> nat \<Rightarrow> nat \<Rightarrow> encoder \<Rightarrow> string \<Rightarrow> gval list
        \<Rightarrow> (dbus_err, encoder) outcome"
  and encodeArray :: "encoder \<Rightarrow> string \<Rightarrow> gval \<Rightarrow> (dbus_err, encoder) outcome"
  and encodeItems :: "nat \<Rightarrow> string \<Rightarrow> encoder \<Rightarrow> gval list \<Rightarrow> (dbus_err, encoder) outcome"
  and encodeDict :: "string \<Rightarrow> string \<Rightarrow> encoder \<Rightarrow> (string \<times> gval) list
        \<Rightarrow> (dbus_err, encoder) outcome" where
  "encodeValue e sig val = (case sig of
     [] \<Rightarrow> Panic
   | c # _ \<Rightarrow>
     if c = CHR ''y'' then
       (case val of VByte v \<Rightarrow> Ok (e @ [v]) | _ \<Rightarrow> Err (WrongType sig val))
     else if c = CHR ''b'' then
       (case val of VBool v \<Rightarrow> Ok (putUint32 e (if v then 1 else 0)) | _ \<Rightarrow> Err (WrongType sig val))
     else if c = CHR ''n'' then
       (case val of VInt16 v \<Rightarrow> Ok (putUint16 e v) | _ \<Rightarrow> Err (WrongType sig val))
     else if c = CHR ''q'' then
       (case val of VUint16 v \<Rightarrow> Ok (putUint16 e v) | _ \<Rightarrow> Err (WrongType sig val))
     else if c = CHR ''i'' then
       (case val of VInt32 v \<Rightarrow> Ok (putUint32 e v) | _ \<Rightarrow> Err (WrongType sig val))
     else if c = CHR ''u'' then
       (case val of VUint32 v \<Rightarrow> Ok (putUint32 e v) | _ \<Rightarrow> Err (WrongType sig val))
     else if c = CHR ''x'' then
       (case val of VInt64 v \<Rightarrow> Ok (putUint64 e v) | _ \<Rightarrow> Err (WrongType sig val))
     else if c = CHR ''t'' then
       (case val of VUint64 v \<Rightarrow> Ok (putUint64 e v) | _ \<Rightarrow> Err (WrongType sig val))
     else if c = CHR ''d'' then
       (case val of VFloat64 v \<Rightarrow> Ok (putUint64 e v) | _ \<Rightarrow> Err (WrongType sig val))
     else if c = CHR ''s'' \<or> c = CHR ''o'' then
       (case val of VString v \<Rightarrow> Ok (putStringLike e v) | _ \<Rightarrow> Err (WrongType sig val))
     else if c = CHR ''g'' then
       (case val of VString v \<Rightarrow> Ok (putSignature e v) | _ \<Rightarrow> Err (WrongType sig val))
     else if c = CHR ''v'' then
       (case val of
          VVariant vsig v \<Rightarrow> owrap VariantBody (encodeValue (putSignature e vsig) vsig v)
        | _ \<Rightarrow> Err (WrongType sig val))
     else if c = CHR ''a'' then encodeArray e sig val
     else if c = CHR ''('' then
       (case val of
          VSlice items \<Rightarrow> obind (inner_sig sig) (\<lambda>members.
            encodeStruct sig (length members) (length items) 0 (align 8 e) members items)
        | _ \<Rightarrow> Err (WrongType sig val))
     else Err (UnsupportedCode sig))"
| "encodeStruct sig nm ni i e rest items =
     (if rest = [] then Ok e
      else obind (splitSig rest) (\<lambda>(first, rest').
        case items of
          [] \<Rightarrow> Err (StructArity sig nm ni)
        | item # items' \<Rightarrow>
            obind (owrap (StructMember i) (encodeValue e first item)) (\<lambda>e'.
              encodeStruct sig nm ni (Suc i) e' rest' items')))"
| "encodeArray e sig val =
     (let elemSig = drop 1 sig; e1 = putUint32 e 0; lenPos = length e1 - 4 in
      obind (alignmentOf elemSig) (\<lambda>a.
        let e2 = align a e1; dataStart = length e2 in
        obind
          (if elemSig ! 0 = CHR ''{'' then
             (case val of
                VMap m \<Rightarrow> obind (splitDictEntry elemSig) (\<lambda>(keySig, valSig, _).
                  encodeDict keySig valSig e2 m)
              | _ \<Rightarrow> Err (WrongType sig val))
           else obind (owrap (ArrayValue sig) (toAnySlice val)) (\<lambda>items.
                  encodeItems 0 elemSig e2 items))
          (\<lambda>e3. Ok (patch32 e3 lenPos (word_of_nat (length e3 - dataStart))))))"
| "encodeItems i elemSig e [] = Ok e"
| "encodeItems i elemSig e (item # items) =
     obind (owrap (ArrayElement i) (encodeValue e elemSig item)) (\<lambda>e'.
       encodeItems (Suc i) elemSig e' items)"
| "encodeDict keySig valSig e [] = Ok e"
| "encodeDict keySig valSig e ((k, v) # kvs) =
     obind (owrap DictKey (encodeValue (align 8 e) keySig (VString k))) (\<lambda>e1.
     obind (owrap (DictValue k) (encodeValue e1 valSig v)) (\<lambda>e2.
       encodeDict keySig valSig e2 kvs))"
  by pat_completeness auto
termination
  by (relation "measure (\<lambda>x. case x of
        Inl (Inl (e, sig, val)) \<Rightarrow> 3 * gsize val + 2
      | Inl (Inr (sig, nm, ni, i, e, rest, items)) \<Rightarrow> 3 * sum_list (map (Suc \<circ> gsize) items)
      | Inr (Inl (e, sig, val)) \<Rightarrow> 3 * gsize val + 1
      | Inr (Inr (Inl (i, elemSig, e, items))) \<Rightarrow> 3 * sum_list (map (Suc \<circ> gsize) items)
      | Inr (Inr (Inr (keySig, valSig, e, kvs))) \<Rightarrow>
          3 * sum_list (map (\<lambda>kv. 3 + gsize (snd kv)) kvs))")
    (auto simp: comp_def owrap_eq_Ok dest!: toAnySlice_gsize)

declare encodeValue.simps [simp del] encodeStruct.simps [simp del] encodeArray.simps [simp del]

section \<open>Decoding\<close>

record decoder =
  buf :: bytes
  pos :: nat

function alignD :: "nat \<Rightarrow> decoder \<Rightarrow> (dbus_err, decoder) outcome" where
  "alignD n d =
     (if 0 < n \<and> pos d mod n \<noteq> 0 then
        if length (buf d) \<le> pos d then Err EofAligning
        else alignD n (d\<lparr>pos := Suc (pos d)\<rparr>)
      else Ok d)"
  by pat_completeness auto
termination
  by (relation "measure (\<lambda>(n, d). pad n (pos d))") (auto simp: pad_Suc)

declare alignD.simps [simp del]

definition need :: "nat \<Rightarrow> decoder \<Rightarrow> (dbus_err, unit) outcome" where
  "need n d = (if length (buf d) < pos d + n then Err (EofNeed n (pos d) (length (buf d))) else Ok ())"

definition getByte :: "decoder \<Rightarrow> (dbus_err, byte \<times> decoder) outcome" where
  "getByte d = obind (need 1 d) (\<lambda>_. Ok (buf d ! pos d, d\<lparr>pos := pos d + 1\<rparr>))"

definition getUint16 :: "decoder \<Rightarrow> (dbus_err, 16 word \<times> decoder) outcome" where
  "getUint16 d0 = obind (alignD 2 d0) (\<lambda>d. obind (need 2 d) (\<lambda>_.
     Ok (un_le (take 2 (drop (pos d) (buf d))), d\<lparr>pos := pos d + 2\<rparr>)))"

definition getUint32 :: "decoder \<Rightarrow> (dbus_err, 32 word \<times> decoder) outcome" where
  "getUint32 d0 = obind (alignD 4 d0) (\<lambda>d. obind (need 4 d) (\<lambda>_.
     Ok (un_le (take 4 (drop (pos d) (buf d))), d\<lparr>pos := pos d + 4\<rparr>)))"

definition getUint64 :: "decoder \<Rightarrow> (dbus_err, 64 word \<times> decoder) outcome" where
  "getUint64 d0 = obind (alignD 8 d0) (\<lambda>d. obind (need 8 d) (\<lambda>_.
     Ok (un_le (take 8 (drop (pos d) (buf d))), d\<lparr>pos := pos d + 8\<rparr>)))"

definition getStringLike :: "decoder \<Rightarrow> (dbus_err, string \<times> decoder) outcome" where
  "getStringLike d0 = obind (getUint32 d0) (\<lambda>(n, d). obind (need (unat n + 1) d) (\<lambda>_.
     Ok (string_of (take (unat n) (drop (pos d) (buf d))), d\<lparr>pos := pos d + (unat n + 1)\<rparr>)))"

definition getSignature :: "decoder \<Rightarrow> (dbus_err, string \<times> decoder) outcome" where
  "getSignature d0 = obind (getByte d0) (\<lambda>(n, d). obind (need (unat n + 1) d) (\<lambda>_.
     Ok (string_of (take (unat n) (drop (pos d) (buf d))), d\<lparr>pos := pos d + (unat n + 1)\<rparr>)))"

text \<open>A primitive result boxed into \<open>any\<close>.\<close>

definition box :: "('a \<Rightarrow> gval) \<Rightarrow> (dbus_err, 'a \<times> decoder) outcome
    \<Rightarrow> (dbus_err, gval \<times> decoder) outcome option" where
  "box f m = Some (obind m (\<lambda>(v, d). Ok (f v, d)))"

text \<open>
  The decoder recurses on signatures it reads off the wire and loops until a position is
  reached, so it carries fuel: \<open>None\<close> is a run that has not finished.
\<close>

function (sequential) decodeValue :: "nat \<Rightarrow> decoder \<Rightarrow> string \<Rightarrow> (dbus_err, gval \<times> decoder) outcome option"
  and decodeStruct :: "nat \<Rightarrow> decoder \<Rightarrow> string \<Rightarrow> gval list
        \<Rightarrow> (dbus_err, gval \<times> decoder) outcome option"
  and decodeArray :: "nat \<Rightarrow> decoder \<Rightarrow> string \<Rightarrow> (dbus_err, gval \<times> decoder) outcome option"
  and decodeArrayElements :: "nat \<Rightarrow> decoder \<Rightarrow> string \<Rightarrow> nat
        \<Rightarrow> (dbus_err, gval \<times> decoder) outcome option"
  and decodeDict :: "nat \<Rightarrow> decoder \<Rightarrow> string \<Rightarrow> string \<Rightarrow> nat \<Rightarrow> (string \<times> gval) list
        \<Rightarrow> (dbus_err, gval \<times> decoder) outcome option"
  and decodeItems :: "nat \<Rightarrow> decoder \<Rightarrow> string \<Rightarrow> nat \<Rightarrow> gval list
        \<Rightarrow> (dbus_err, gval \<times> decoder) outcome option" where
  "decodeValue 0 d sig = None"
| "decodeValue (Suc fuel) d sig = (case sig of
     [] \<Rightarrow> Some Panic
   | c # _ \<Rightarrow>
     if c = CHR ''y'' then box VByte (getByte d)
     else if c = CHR ''b'' then box (\<lambda>v. VBool (v \<noteq> 0)) (getUint32 d)
     else if c = CHR ''n'' then box VInt16 (getUint16 d)
     else if c = CHR ''q'' then box VUint16 (getUint16 d)
     else if c = CHR ''i'' then box VInt32 (getUint32 d)
     else if c = CHR ''u'' then box VUint32 (getUint32 d)
     else if c = CHR ''x'' then box VInt64 (getUint64 d)
     else if c = CHR ''t'' then box VUint64 (getUint64 d)
     else if c = CHR ''d'' then box VFloat64 (getUint64 d)
     else if c = CHR ''s'' \<or> c = CHR ''o'' then box VString (getStringLike d)
     else if c = CHR ''g'' then box VString (getSignature d)
     else if c = CHR ''v'' then
       fbind (Some (getSignature d)) (\<lambda>(vsig, d1).
       fbind (decodeValue fuel d1 vsig) (\<lambda>(val, d2). Some (Ok (VVariant vsig val, d2))))
     else if c = CHR ''a'' then decodeArray fuel d sig
     else if c = CHR ''('' then
       fbind (Some (alignD 8 d)) (\<lambda>d1.
       fbind (Some (inner_sig sig)) (\<lambda>members. decodeStruct fuel d1 members []))
     else Some (Err (UnsupportedCode sig)))"
| "decodeStruct 0 d rest out = None"
| "decodeStruct (Suc fuel) d rest out =
     (if rest = [] then Some (Ok (VSlice out, d))
      else fbind (Some (splitSig rest)) (\<lambda>(first, r).
           fbind (fwrap ReadStructMember (decodeValue fuel d first)) (\<lambda>(v, d1).
             decodeStruct fuel d1 r (out @ [v]))))"
| "decodeArray 0 d sig = None"
| "decodeArray (Suc fuel) d sig =
     (let elemSig = drop 1 sig in
      fbind (Some (getUint32 d)) (\<lambda>(len, d1).
      fbind (Some (alignmentOf elemSig)) (\<lambda>a.
      fbind (Some (alignD a d1)) (\<lambda>d2.
        let end = pos d2 + unat len in
        fbind (Some (need (unat len) d2)) (\<lambda>_.
          decodeArrayElements fuel d2 elemSig end)))))"
| "decodeArrayElements 0 d elemSig end = None"
| "decodeArrayElements (Suc fuel) d elemSig end = (case elemSig of
     [] \<Rightarrow> Some Panic
   | c # _ \<Rightarrow>
     if c = CHR ''{'' then
       fbind (Some (splitDictEntry elemSig)) (\<lambda>(keySig, valSig, _).
         decodeDict fuel d keySig valSig end [])
     else decodeItems fuel d elemSig end [])"
| "decodeDict 0 d keySig valSig end out = None"
| "decodeDict (Suc fuel) d keySig valSig end out =
     (if pos d < end then
        fbind (Some (alignD 8 d)) (\<lambda>d1.
        fbind (fwrap ReadDictKey (decodeValue fuel d1 keySig)) (\<lambda>(kv, d2).
          case kv of
            VString k \<Rightarrow>
              fbind (fwrap (ReadDictValue k) (decodeValue fuel d2 valSig)) (\<lambda>(v, d3).
                decodeDict fuel d3 keySig valSig end (AList.update k v out))
          | _ \<Rightarrow> Some (Err (NonStringKey kv))))
      else Some (Ok (VMap out, d)))"
| "decodeItems 0 d elemSig end out = None"
| "decodeItems (Suc fuel) d elemSig end out =
     (if pos d < end then
        fbind (fwrap ReadArrayElement (decodeValue fuel d elemSig)) (\<lambda>(v, d1).
          decodeItems fuel d1 elemSig end (out @ [v]))
      else Some (Ok (VSlice out, d)))"
  by pat_completeness auto
termination
  by (relation "measure (\<lambda>x. case x of
        Inl (Inl (n, _)) \<Rightarrow> n
      | Inl (Inr (Inl (n, _))) \<Rightarrow> n
      | Inl (Inr (Inr (n, _))) \<Rightarrow> n
      | Inr (Inl (n, _)) \<Rightarrow> n
      | Inr (Inr (Inl (n, _))) \<Rightarrow> n
      | Inr (Inr (Inr (n, _))) \<Rightarrow> n)") auto

declare decodeValue.simps [simp del] decodeStruct.simps [simp del] decodeArray.simps [simp del]
  decodeArrayElements.simps [simp del] decodeDict.simps [simp del] decodeItems.simps [simp del]

section \<open>Storing decoded values\<close>

text \<open>
  The destinations of \<open>assign\<close> are typed pointers. A pointer is its element type and the
  value stored behind it; \<open>POther\<close> stands for every pointer type the switch does not name.
\<close>

datatype ptr =
    PString string
  | PBool bool
  | PUint32 "32 word"
  | PUint64 "64 word"
  | PStrings "string list"
  | PSlice "gval list"
  | PMap "(string \<times> gval) list"
  | PAny gval
  | POther string

fun strings_of_items :: "gval list \<Rightarrow> (dbus_err, string list) outcome" where
  "strings_of_items [] = Ok []"
| "strings_of_items (item # items) = (case item of
     VString s \<Rightarrow> obind (strings_of_items items) (\<lambda>out. Ok (s # out))
   | _ \<Rightarrow> Err (AssignElement item))"

definition assign :: "ptr \<Rightarrow> gval \<Rightarrow> (dbus_err, ptr) outcome" where
  "assign dest val = (case dest of
     PString _ \<Rightarrow> (case val of VString s \<Rightarrow> Ok (PString s) | _ \<Rightarrow> Err (AssignType ''string'' val))
   | PBool _ \<Rightarrow> (case val of VBool b \<Rightarrow> Ok (PBool b) | _ \<Rightarrow> Err (AssignType ''bool'' val))
   | PUint32 _ \<Rightarrow> (case val of VUint32 u \<Rightarrow> Ok (PUint32 u) | _ \<Rightarrow> Err (AssignType ''uint32'' val))
   | PUint64 _ \<Rightarrow> (case val of VUint64 u \<Rightarrow> Ok (PUint64 u) | _ \<Rightarrow> Err (AssignType ''uint64'' val))
   | PStrings _ \<Rightarrow> (case val of
       VSlice items \<Rightarrow> obind (strings_of_items items) (\<lambda>out. Ok (PStrings out))
     | _ \<Rightarrow> Err (AssignType ''array'' val))
   | PSlice _ \<Rightarrow> (case val of VSlice items \<Rightarrow> Ok (PSlice items) | _ \<Rightarrow> Ok (PSlice []))
   | PMap _ \<Rightarrow> (case val of VMap m \<Rightarrow> Ok (PMap m) | _ \<Rightarrow> Err (AssignType ''dict'' val))
   | PAny _ \<Rightarrow> Ok (PAny val)
   | POther t \<Rightarrow> Err (UnsupportedDest t))"

text \<open>
  The loop of \<open>decodeInto\<close> from index \<open>i\<close>: the bodies and destinations left. It returns the
  destinations as they stand when the loop ends.
\<close>

function decodeIntoFrom :: "string \<Rightarrow> nat \<Rightarrow> string \<Rightarrow> gval list \<Rightarrow> ptr list
    \<Rightarrow> (dbus_err, ptr list) outcome" where
  "decodeIntoFrom outSig i rest body dest =
     (if rest = [] then Ok dest
      else obind (splitSig rest) (\<lambda>(first, r).
        case body of
          [] \<Rightarrow> Err (OutArity outSig)
        | v # body' \<Rightarrow> (case dest of
            [] \<Rightarrow> Err (OutArity outSig)
          | p # dest' \<Rightarrow>
              obind (owrap (OutValue i first) (assign p v)) (\<lambda>p'.
              obind (decodeIntoFrom outSig (Suc i) r body' dest') (\<lambda>ps. Ok (p' # ps))))))"
  by pat_completeness auto
termination
  by (relation "measure (\<lambda>(outSig, i, rest, body, dest). length body)") auto

declare decodeIntoFrom.simps [simp del]

definition decodeInto :: "gval list \<Rightarrow> string \<Rightarrow> ptr list \<Rightarrow> (dbus_err, ptr list) outcome" where
  "decodeInto body outSig dest = decodeIntoFrom outSig 0 outSig body dest"

end
