(* ===== verification/DBus_Types.thy ===== *)
theory DBus_Types
  imports DBus_Wire
begin

text \<open>
  The type grammar behind the signatures of \<^verbatim>\<open>internal/dbus/marshal.go\<close>: complete types with
  their printed signature, the dynamic values of a type, and the facts that the signature
  scanner \<open>splitSig\<close> recovers exactly the printed types. This is the abstract
  specification the marshaler is checked against.
\<close>

section \<open>Complete types and their signatures\<close>

datatype dtype =
    TByte | TBool | TInt16 | TUint16 | TInt32 | TUint32 | TInt64 | TUint64 | TDouble
  | TString | TPath | TSignature | TVariant
  | TArray dtype
  | TDict dtype dtype
  | TStruct "dtype list"

fun sig_of :: "dtype \<Rightarrow> string" where
  "sig_of TByte = ''y''"
| "sig_of TBool = ''b''"
| "sig_of TInt16 = ''n''"
| "sig_of TUint16 = ''q''"
| "sig_of TInt32 = ''i''"
| "sig_of TUint32 = ''u''"
| "sig_of TInt64 = ''x''"
| "sig_of TUint64 = ''t''"
| "sig_of TDouble = ''d''"
| "sig_of TString = ''s''"
| "sig_of TPath = ''o''"
| "sig_of TSignature = ''g''"
| "sig_of TVariant = ''v''"
| "sig_of (TArray t) = ''a'' @ sig_of t"
| "sig_of (TDict k t) = ''a{'' @ sig_of k @ sig_of t @ ''}''"
| "sig_of (TStruct ts) = ''('' @ concat (map sig_of ts) @ '')''"

definition sigs_of :: "dtype list \<Rightarrow> string" where
  "sigs_of ts = concat (map sig_of ts)"

lemma sigs_of_simps [simp]:
  "sigs_of [] = []" "sigs_of (t # ts) = sig_of t @ sigs_of ts"
  by (simp_all add: sigs_of_def)

text \<open>A struct has a member, a dict key is one of the string-like types.\<close>

fun wf_type :: "dtype \<Rightarrow> bool" where
  "wf_type (TArray t) = wf_type t"
| "wf_type (TDict k t) = (k \<in> {TString, TPath, TSignature} \<and> wf_type t)"
| "wf_type (TStruct ts) = (ts \<noteq> [] \<and> (\<forall>t\<in>set ts. wf_type t))"
| "wf_type _ = True"

lemma sig_of_not_Nil [simp]: "sig_of t \<noteq> []"
  by (cases t) auto

lemma sigs_of_eq_Nil [simp]: "sigs_of ts = [] \<longleftrightarrow> ts = []"
  by (cases ts) auto

text \<open>The first character of a signature decides its type; no type starts a dict entry.\<close>

lemma hd_sig_of_not_brace: "sig_of t ! 0 \<noteq> CHR ''{''" "hd (sig_of t) \<noteq> CHR ''{''"
  by (cases t; simp)+

section \<open>The scanner recovers the printed types\<close>

definition brackets :: "char \<Rightarrow> char \<Rightarrow> bool" where
  "brackets op cl \<longleftrightarrow> (op = CHR ''('' \<and> cl = CHR '')'') \<or> (op = CHR ''{'' \<and> cl = CHR ''}'')"

lemma scanClose_other:
  "x \<noteq> op \<Longrightarrow> x \<noteq> cl \<Longrightarrow>
   scanClose op cl (Suc d) i (x # xs) = scanClose op cl (Suc d) (Suc i) xs"
  by simp

lemma scanClose_sig_of:
  assumes "brackets op cl"
  shows "scanClose op cl (Suc d) i (sig_of t @ r) = scanClose op cl (Suc d) (i + length (sig_of t)) r"
  using assms
proof (induction t arbitrary: d i r)
  case (TDict k t)
  then show ?case by (auto simp: brackets_def add.assoc)
next
  case (TStruct ts)
  have members: "scanClose op cl (Suc d') j (concat (map sig_of us) @ q)
      = scanClose op cl (Suc d') (j + length (concat (map sig_of us))) q"
    if "set us \<subseteq> set ts" for us d' j q
    using that by (induction us arbitrary: j) (auto simp: TStruct add.assoc)
  show ?case
    using TStruct.prems members[of ts] by (auto simp: brackets_def)
qed (auto simp: brackets_def)

lemma scanClose_sigs_of:
  "brackets op cl \<Longrightarrow>
   scanClose op cl (Suc d) i (sigs_of ts @ r) = scanClose op cl (Suc d) (i + length (sigs_of ts)) r"
  by (induction ts arbitrary: i) (simp_all add: scanClose_sig_of add.assoc)

lemma brackets_simps [simp]:
  "brackets (CHR ''('') (CHR '')'')" "brackets (CHR ''{'') (CHR ''}'')"
  by (simp_all add: brackets_def)

lemma scanClose_zero [simp]: "scanClose op cl 0 i xs = (i, 0)"
  by (cases xs) auto

lemma splitSig_sig_of: "splitSig (sig_of t @ r) = Ok (sig_of t, r)"
proof (induction t)
  case (TDict k t)
  have "sig_of k @ sig_of t = sigs_of [k, t]" by simp
  then show ?case
    using scanClose_sigs_of[of "CHR ''{''" "CHR ''}''" 0 1 "[k, t]" "CHR ''}'' # r"] by simp
next
  case (TStruct ts)
  show ?case
    using scanClose_sigs_of[of "CHR ''(''" "CHR '')''" 0 1 ts "CHR '')'' # r"]
    by (simp flip: sigs_of_def)
qed auto

lemma splitSig_sigs_of: "splitSig (sigs_of (t # ts)) = Ok (sig_of t, sigs_of ts)"
  by (simp add: splitSig_sig_of)

lemma inner_sig_struct [simp]: "inner_sig (sig_of (TStruct ts)) = Ok (sigs_of ts)"
  by (simp add: inner_sig_def sigs_of_def)

lemma splitDictEntry_dict:
  "splitDictEntry (CHR ''{'' # sig_of k @ sig_of t @ ''}'') = Ok (sig_of k, sig_of t, [])"
proof -
  have "inner_sig (CHR ''{'' # sig_of k @ sig_of t @ ''}'') = Ok (sig_of k @ sig_of t)"
    by (simp add: inner_sig_def)
  moreover have "splitSig (sig_of t) = Ok (sig_of t, [])"
    using splitSig_sig_of[of t "[]"] by simp
  ultimately show ?thesis
    by (simp add: splitDictEntry_def splitSig_sig_of)
qed

text \<open>\<open>splitSig\<close> never loses or invents a character, whatever the signature.\<close>

lemma scanClose_bound: "scanClose op cl depth i xs = (j, d) \<Longrightarrow> i \<le> j \<and> j \<le> i + length xs"
  by (induction op cl depth i xs rule: scanClose.induct) (auto split: if_splits)

lemma splitSig_append: "splitSig sig = Ok (first, rest) \<Longrightarrow> first @ rest = sig \<and> first \<noteq> []"
proof (induction sig arbitrary: first rest rule: splitSig.induct)
  case (2 c cs)
  then show ?case
    by (auto simp: outcome_simps split: if_splits prod.splits dest: scanClose_bound)
qed simp

lemma splitSig_not_Panic: "splitSig sig \<noteq> Panic"
  by (induction sig rule: splitSig.induct) (auto simp: outcome_simps split: prod.splits)

section \<open>Values of a type\<close>

text \<open>
  \<open>wt t v\<close>: the dynamic value \<open>v\<close> is one a caller may pass for type \<open>t\<close>. A signature has a
  one-byte length on the wire, so it is shorter than 256 bytes.
\<close>

inductive wt :: "dtype \<Rightarrow> gval \<Rightarrow> bool" where
  wt_byte: "wt TByte (VByte b)"
| wt_bool: "wt TBool (VBool c)"
| wt_int16: "wt TInt16 (VInt16 w16)"
| wt_uint16: "wt TUint16 (VUint16 w16)"
| wt_int32: "wt TInt32 (VInt32 w32)"
| wt_uint32: "wt TUint32 (VUint32 w32)"
| wt_int64: "wt TInt64 (VInt64 w64)"
| wt_uint64: "wt TUint64 (VUint64 w64)"
| wt_double: "wt TDouble (VFloat64 w64)"
| wt_string: "wt TString (VString s)"
| wt_path: "wt TPath (VString s)"
| wt_signature: "length s < 256 \<Longrightarrow> wt TSignature (VString s)"
| wt_variant: "wf_type t \<Longrightarrow> length (sig_of t) < 256 \<Longrightarrow> wt t v \<Longrightarrow> wt TVariant (VVariant (sig_of t) v)"
| wt_array: "toAnySlice val = Ok vs \<Longrightarrow> (\<And>v. v \<in> set vs \<Longrightarrow> wt t v) \<Longrightarrow> wt (TArray t) val"
| wt_dict: "distinct (map fst kvs) \<Longrightarrow> (\<And>k v. (k, v) \<in> set kvs \<Longrightarrow> wt tk (VString k)) \<Longrightarrow>
    (\<And>k v. (k, v) \<in> set kvs \<Longrightarrow> wt tv v) \<Longrightarrow> wt (TDict tk tv) (VMap kvs)"
| wt_struct: "list_all2 wt ts vs \<Longrightarrow> ts \<noteq> [] \<Longrightarrow> wt (TStruct ts) (VSlice vs)"
monos list_all2_mono

text \<open>What the decoder hands back for a value: typed slices come back as \<open>[]any\<close>.\<close>

fun norm :: "gval \<Rightarrow> gval" where
  "norm (VVariant s v) = VVariant s (norm v)"
| "norm (VSlice vs) = VSlice (map norm vs)"
| "norm (VStrings ss) = VSlice (map VString ss)"
| "norm (VBytes bs) = VSlice (map VByte bs)"
| "norm (VMap kvs) = VMap (map (map_prod id norm) kvs)"
| "norm v = v"

end
