(* ===== verification/DBus_Roundtrip.thy ===== *)
theory DBus_Roundtrip
  imports DBus_Types
begin

text \<open>
  The decoder of \<^verbatim>\<open>internal/dbus/marshal.go\<close> inverts its encoder. The primitive encoders and
  decoders share one contract, the locale \<open>wire_codec\<close>, interpreted for each pair of the
  source; the recursive operations are related value by value through \<open>codec\<close>.
\<close>

section \<open>Cursors\<close>

text \<open>What a decoder has left to read, and a decoder moved forward.\<close>

definition remaining :: "decoder \<Rightarrow> bytes" where
  "remaining d = drop (pos d) (buf d)"

definition adv :: "nat \<Rightarrow> decoder \<Rightarrow> decoder" where
  "adv n d = d\<lparr>pos := pos d + n\<rparr>"

definition wf_dec :: "decoder \<Rightarrow> bool" where
  "wf_dec d \<longleftrightarrow> pos d \<le> length (buf d)"

lemma adv_simps [simp]:
  "buf (adv n d) = buf d" "pos (adv n d) = pos d + n" "adv 0 d = d"
  "adv m (adv n d) = adv (n + m) d"
  by (simp_all add: adv_def add.assoc)

lemma remaining_adv [simp]: "remaining (adv n d) = drop n (remaining d)"
  by (simp add: remaining_def add.commute)

lemma wf_dec_adv: "wf_dec d \<Longrightarrow> remaining d = bs @ post \<Longrightarrow> n \<le> length bs \<Longrightarrow> wf_dec (adv n d)"
  unfolding wf_dec_def remaining_def
  by (metis adv_simps(1,2) append_eq_conv_conj diff_diff_left le_add_diff_inverse length_drop
      length_take min.absorb2 nat_add_left_cancel_le order_trans length_append le_add1)

lemma length_remaining: "wf_dec d \<Longrightarrow> length (buf d) = pos d + length (remaining d)"
  by (simp add: wf_dec_def remaining_def)

lemma need_ok: "wf_dec d \<Longrightarrow> n \<le> length (remaining d) \<Longrightarrow> need n d = Ok ()"
  by (simp add: need_def length_remaining)

text \<open>
  A cursor in front of bytes that were written at offset \<open>p\<close>: alignment only depends on the
  offset modulo 8, which is all the two sides have to share.
\<close>

definition cursor_at :: "decoder \<Rightarrow> nat \<Rightarrow> bytes \<Rightarrow> bytes \<Rightarrow> bool" where
  "cursor_at d p bs post \<longleftrightarrow> wf_dec d \<and> pos d mod 8 = p mod 8 \<and> remaining d = bs @ post"

lemma cursor_at_first: "cursor_at d p (b1 @ b2) post \<Longrightarrow> cursor_at d p b1 (b2 @ post)"
  by (simp add: cursor_at_def)

lemma cursor_at_next:
  "cursor_at d p (b1 @ b2) post \<Longrightarrow> cursor_at (adv (length b1) d) (p + length b1) b2 post"
  unfolding cursor_at_def by (auto intro: wf_dec_adv mod_add_cong)

section \<open>Alignment on both sides\<close>

lemma align_eq: "0 < n \<Longrightarrow> align n e = e @ replicate (pad n (length e)) 0"
proof (induction "pad n (length e)" arbitrary: e)
  case 0
  then have "length e mod n = 0" using pad_Suc by (metis nat.distinct(1))
  then show ?case by (simp add: align.simps)
next
  case (Suc k)
  then have ne: "length e mod n \<noteq> 0" by (metis nat.distinct(1) pad_aligned)
  then have p: "pad n (length e) = Suc (pad n (Suc (length e)))"
    using Suc.prems by (rule pad_Suc[rotated])
  have "align n (e @ [0]) = (e @ [0]) @ replicate (pad n (length (e @ [0]))) 0"
    by (rule Suc.hyps) (use Suc p in auto)
  then show ?case using ne Suc.prems p by (simp add: align.simps[of n e])
qed

lemma alignD_ok:
  "0 < n \<Longrightarrow> wf_dec d \<Longrightarrow> pad n (pos d) \<le> length (remaining d) \<Longrightarrow>
   alignD n d = Ok (adv (pad n (pos d)) d)"
proof (induction "pad n (pos d)" arbitrary: d)
  case 0
  then have "pos d mod n = 0" using pad_Suc by (metis nat.distinct(1))
  then show ?case by (simp add: alignD.simps)
next
  case (Suc k)
  then have ne: "pos d mod n \<noteq> 0" by (metis nat.distinct(1) pad_aligned)
  then have p: "pad n (pos d) = Suc (pad n (Suc (pos d)))"
    using Suc.prems by (auto intro: pad_Suc)
  have lt: "pos d < length (buf d)"
    using Suc.prems p by (cases "remaining d") (auto simp: length_remaining)
  have "alignD n (adv 1 d) = Ok (adv (pad n (pos (adv 1 d))) (adv 1 d))"
    using Suc lt p by (intro Suc.hyps) (auto simp: wf_dec_def)
  then show ?case
    using ne Suc.prems(1) lt p by (simp add: alignD.simps[of n d] adv_def)
qed

text \<open>The padding an encoder writes at an offset is the padding a decoder skips there.\<close>

lemma alignD_padding:
  assumes n: "n \<in> {1, 2, 4, 8}" and d: "cursor_at d p (replicate (pad n p) 0) post"
  shows "alignD n d = Ok (adv (pad n p) d)"
proof -
  have "pad n (pos d) = pad n p"
    using n d by (intro pad_cong) (auto simp: cursor_at_def)
  then show ?thesis using n d alignD_ok[of n d] by (auto simp: cursor_at_def)
qed

section \<open>The contract of the primitive encoders\<close>

text \<open>
  Reading where a writer wrote, at an offset that agrees modulo 8 with the writer's, gives
  back the value and leaves the cursor right behind it. \<open>written p v\<close> is what the writer
  appends at offset \<open>p\<close>; \<open>fits\<close> says which values the length field can describe.
\<close>

locale wire_codec =
  fixes put :: "encoder \<Rightarrow> 'a \<Rightarrow> encoder"
    and get :: "decoder \<Rightarrow> (dbus_err, 'a \<times> decoder) outcome"
    and written :: "nat \<Rightarrow> 'a \<Rightarrow> bytes"
    and fits :: "'a \<Rightarrow> bool"
  assumes put_written: "put e v = e @ written (length e) v"
    and written_not_Nil: "written p v \<noteq> []"
    and get_written: "fits v \<Longrightarrow> length (written p v) < 2 ^ 32 \<Longrightarrow> cursor_at d p (written p v) post
      \<Longrightarrow> get d = Ok (v, adv (length (written p v)) d)"
begin

lemma put_get:
  assumes "fits v" and "length (put e v) < 2 ^ 32"
  shows "get \<lparr>buf = put e v @ post, pos = length e\<rparr> =
    Ok (v, \<lparr>buf = put e v @ post, pos = length (put e v)\<rparr>)"
proof -
  let ?d = "\<lparr>buf = put e v @ post, pos = length e\<rparr>"
  have "get ?d = Ok (v, adv (length (written (length e) v)) ?d)"
    using assms by (intro get_written) (auto simp: put_written cursor_at_def wf_dec_def remaining_def)
  then show ?thesis by (simp add: adv_def put_written)
qed

lemma put_longer: "length e < length (put e v)"
  using written_not_Nil[of "length e" v] by (simp add: put_written)

end

text \<open>Fixed-width little-endian integers.\<close>

definition written_int :: "nat \<Rightarrow> nat \<Rightarrow> 'a::len word \<Rightarrow> bytes" where
  "written_int n p v = replicate (pad n p) 0 @ le_bytes n v"

lemma get_int:
  assumes n: "n \<in> {1, 2, 4, 8}" and d: "cursor_at d p (written_int n p v) post"
  defines "d1 \<equiv> adv (pad n p) d"
  shows "alignD n d = Ok d1" "need n d1 = Ok ()"
    "take n (drop (pos d1) (buf d1)) = le_bytes n v"
proof -
  show "alignD n d = Ok d1"
    using n cursor_at_first[OF d[unfolded written_int_def]] unfolding d1_def
    by (rule alignD_padding)
  have "cursor_at d1 (p + pad n p) (le_bytes n v) post"
    using cursor_at_next[OF d[unfolded written_int_def]] by (simp add: d1_def)
  then have rest1: "remaining d1 = le_bytes n v @ post" and wf: "wf_dec d1"
    by (auto simp: cursor_at_def)
  show "need n d1 = Ok ()" using wf by (rule need_ok) (simp add: rest1)
  show "take n (drop (pos d1) (buf d1)) = le_bytes n v" using rest1 by (simp add: remaining_def)
qed

interpretation u16: wire_codec putUint16 getUint16 "written_int 2" "\<lambda>_. True"
proof unfold_locales
  fix v :: "16 word" and p d post
  assume "cursor_at d p (written_int 2 p v) post"
  then show "getUint16 d = Ok (v, adv (length (written_int 2 p v)) d)"
    using get_int[of 2 d p v post]
    by (simp add: getUint16_def written_int_def adv_def)
qed (simp_all add: putUint16_def align_eq written_int_def flip: length_0_conv)

interpretation u32: wire_codec putUint32 getUint32 "written_int 4" "\<lambda>_. True"
proof unfold_locales
  fix v :: "32 word" and p d post
  assume "cursor_at d p (written_int 4 p v) post"
  then show "getUint32 d = Ok (v, adv (length (written_int 4 p v)) d)"
    using get_int[of 4 d p v post]
    by (simp add: getUint32_def written_int_def adv_def)
qed (simp_all add: putUint32_def align_eq written_int_def flip: length_0_conv)

interpretation u64: wire_codec putUint64 getUint64 "written_int 8" "\<lambda>_. True"
proof unfold_locales
  fix v :: "64 word" and p d post
  assume "cursor_at d p (written_int 8 p v) post"
  then show "getUint64 d = Ok (v, adv (length (written_int 8 p v)) d)"
    using get_int[of 8 d p v post]
    by (simp add: getUint64_def written_int_def adv_def)
qed (simp_all add: putUint64_def align_eq written_int_def flip: length_0_conv)

interpretation u8: wire_codec "\<lambda>e b. e @ [b]" getByte "\<lambda>_ b. [b]" "\<lambda>_. True"
proof unfold_locales
  fix b :: byte and p d post
  assume "cursor_at d p [b] post"
  then have d: "wf_dec d" "remaining d = [b] @ post" by (auto simp: cursor_at_def)
  then have "need 1 d = Ok ()" by (intro need_ok) auto
  moreover have "drop (pos d) (buf d) = b # post" using d(2) by (simp add: remaining_def)
  then have "buf d ! pos d = b" by (rule nth_via_drop)
  ultimately show "getByte d = Ok (b, adv (length [b]) d)"
    by (simp add: getByte_def adv_def)
qed simp_all

text \<open>Length-prefixed, NUL-terminated strings: a 32-bit length, or a single byte.\<close>

definition written_string :: "nat \<Rightarrow> string \<Rightarrow> bytes" where
  "written_string p s = written_int 4 p (word_of_nat (length s) :: 32 word) @ bytes_of s @ [0]"

definition written_sig :: "nat \<Rightarrow> string \<Rightarrow> bytes" where
  "written_sig p s = word_of_nat (length s) # bytes_of s @ [0]"

lemma unat_of_length:
  "n < 2 ^ LENGTH('a) \<Longrightarrow> unat (word_of_nat n :: 'a::len word) = n"
  by (simp add: unat_of_nat take_bit_eq_mod)

lemma read_text:
  assumes "cursor_at d p (bytes_of s @ [0]) post"
  shows "need (length s + 1) d = Ok ()"
    "string_of (take (length s) (drop (pos d) (buf d))) = s"
proof -
  have d: "wf_dec d" "remaining d = bytes_of s @ [0] @ post" using assms by (auto simp: cursor_at_def)
  then show "need (length s + 1) d = Ok ()"
    by (intro need_ok) auto
  have "take (length s) (remaining d) = bytes_of s" using d(2) by simp
  then show "string_of (take (length s) (drop (pos d) (buf d))) = s"
    by (simp add: remaining_def)
qed

interpretation str: wire_codec putStringLike getStringLike written_string "\<lambda>_. True"
proof unfold_locales
  fix s p d post
  assume len: "length (written_string p s) < 2 ^ 32" and d: "cursor_at d p (written_string p s) post"
  let ?n = "word_of_nat (length s) :: 32 word"
  define d1 where "d1 = adv (length (written_int 4 p ?n)) d"
  have n: "unat ?n = length s"
    using len by (intro unat_of_length) (simp add: written_string_def)
  have get: "getUint32 d = Ok (?n, d1)"
    unfolding d1_def using cursor_at_first[OF d[unfolded written_string_def]] len
    by (intro u32.get_written) (simp_all add: written_string_def)
  have "cursor_at d1 (p + length (written_int 4 p ?n)) (bytes_of s @ [0]) post"
    unfolding d1_def by (rule cursor_at_next[OF d[unfolded written_string_def]])
  from read_text[OF this] show "getStringLike d = Ok (s, adv (length (written_string p s)) d)"
    by (simp add: getStringLike_def get n) (simp add: d1_def written_string_def adv_def)
qed (simp_all add: putStringLike_def written_string_def u32.put_written)

interpretation sgn: wire_codec putSignature getSignature written_sig "\<lambda>s. length s < 256"
proof unfold_locales
  fix s p d post
  assume len: "length s < 256" and d: "cursor_at d p (written_sig p s) post"
  let ?n = "word_of_nat (length s) :: byte"
  have ws: "written_sig p s = [?n] @ (bytes_of s @ [0])" by (simp add: written_sig_def)
  have n: "unat ?n = length s" using len by (intro unat_of_length) simp
  have get: "getByte d = Ok (?n, adv 1 d)"
    using u8.get_written[OF _ _ cursor_at_first[OF d[unfolded ws]]] by simp
  have "cursor_at (adv 1 d) (p + 1) (bytes_of s @ [0]) post"
    using cursor_at_next[OF d[unfolded ws]] by simp
  from read_text[OF this] show "getSignature d = Ok (s, adv (length (written_sig p s)) d)"
    by (simp add: getSignature_def get n) (simp add: written_sig_def adv_def)
qed (simp_all add: putSignature_def written_sig_def)

section \<open>Values\<close>

text \<open>
  \<open>reads_back\<close> states the decoding half for one value at one offset. \<open>codec sig v\<close> says
  that at every offset the encoder appends some bytes for \<open>v\<close>, and that the decoder, at any
  offset that agrees modulo 8 and with fuel \<open>4 * gsize v\<close> or more, reads exactly those
  bytes back as \<open>norm v\<close>.
\<close>

definition reads_back :: "nat \<Rightarrow> bytes \<Rightarrow> nat \<Rightarrow>
    (nat \<Rightarrow> decoder \<Rightarrow> (dbus_err, gval \<times> decoder) outcome option) \<Rightarrow> gval \<Rightarrow> bool" where
  "reads_back p bs nf dec v \<longleftrightarrow>
     (length bs < 2 ^ 32 \<longrightarrow> (\<forall>fuel d post. nf \<le> fuel \<longrightarrow> cursor_at d p bs post \<longrightarrow>
        dec fuel d = Some (Ok (v, adv (length bs) d))))"

definition codec :: "string \<Rightarrow> gval \<Rightarrow> bool" where
  "codec sig v \<longleftrightarrow>
     (\<forall>e. \<exists>bs. encodeValue e sig v = Ok (e @ bs) \<and> bs \<noteq> [] \<and>
        reads_back (length e) bs (4 * gsize v) (\<lambda>fuel d. decodeValue fuel d sig) (norm v))"

lemma reads_backI:
  assumes "\<And>fuel d post. length bs < 2 ^ 32 \<Longrightarrow> nf \<le> fuel \<Longrightarrow> cursor_at d p bs post \<Longrightarrow>
      dec fuel d = Some (Ok (v, adv (length bs) d))"
  shows "reads_back p bs nf dec v"
  using assms by (simp add: reads_back_def)

lemma reads_backD:
  "reads_back p bs nf dec v \<Longrightarrow> cursor_at d p bs post \<Longrightarrow> length bs < 2 ^ 32 \<Longrightarrow> nf \<le> fuel \<Longrightarrow>
   dec fuel d = Some (Ok (v, adv (length bs) d))"
  unfolding reads_back_def by blast

lemma gsize_pos: "0 < gsize v"
  by (cases v) auto

lemma decode_fuel: "4 * gsize v \<le> fuel \<Longrightarrow> \<exists>n. fuel = Suc n"
  using gsize_pos[of v] by (cases fuel) auto

text \<open>A primitive pair gives a codec for every type code that uses it.\<close>

context wire_codec
begin

lemma codec_prim:
  assumes "fits a"
    and enc: "\<And>e. encodeValue e sig v = Ok (put e a)"
    and dec: "\<And>fuel d. decodeValue (Suc fuel) d sig = box f (get d)"
    and norm: "norm v = f a"
  shows "codec sig v"
  unfolding codec_def
proof (intro allI exI conjI)
  fix e :: encoder
  let ?bs = "written (length e) a"
  show "encodeValue e sig v = Ok (e @ ?bs)" by (simp add: enc put_written)
  show "?bs \<noteq> []" by (rule written_not_Nil)
  show "reads_back (length e) ?bs (4 * gsize v) (\<lambda>fuel d. decodeValue fuel d sig) (norm v)"
  proof (rule reads_backI)
    fix fuel d post
    assume len: "length ?bs < 2 ^ 32" and f: "4 * gsize v \<le> fuel"
      and d: "cursor_at d (length e) ?bs post"
    obtain n where n: "fuel = Suc n" using decode_fuel[OF f] by blast
    have "get d = Ok (a, adv (length ?bs) d)" using assms(1) len d by (rule get_written)
    then show "decodeValue fuel d sig = Some (Ok (norm v, adv (length ?bs) d))"
      by (simp add: n dec box_def norm)
  qed
qed

end

lemmas value_simps = encodeValue.simps decodeValue.simps

lemma codec_basic:
  "codec ''y'' (VByte b)" "codec ''b'' (VBool c)" "codec ''n'' (VInt16 w16)"
  "codec ''q'' (VUint16 w16)" "codec ''i'' (VInt32 w32)" "codec ''u'' (VUint32 w32)"
  "codec ''x'' (VInt64 w64)" "codec ''t'' (VUint64 w64)" "codec ''d'' (VFloat64 w64)"
  "codec ''s'' (VString s)" "codec ''o'' (VString s)"
  "length s < 256 \<Longrightarrow> codec ''g'' (VString s)"
             apply (rule u8.codec_prim[where a = b and f = VByte]; simp add: value_simps)
            apply (rule u32.codec_prim[where a = "if c then 1 else 0" and f = "\<lambda>v. VBool (v \<noteq> 0)"];
              simp add: value_simps)
           apply (rule u16.codec_prim[where a = w16 and f = VInt16]; simp add: value_simps)
          apply (rule u16.codec_prim[where a = w16 and f = VUint16]; simp add: value_simps)
         apply (rule u32.codec_prim[where a = w32 and f = VInt32]; simp add: value_simps)
        apply (rule u32.codec_prim[where a = w32 and f = VUint32]; simp add: value_simps)
       apply (rule u64.codec_prim[where a = w64 and f = VInt64]; simp add: value_simps)
      apply (rule u64.codec_prim[where a = w64 and f = VUint64]; simp add: value_simps)
     apply (rule u64.codec_prim[where a = w64 and f = VFloat64]; simp add: value_simps)
    apply (rule str.codec_prim[where a = s and f = VString]; simp add: value_simps)
   apply (rule str.codec_prim[where a = s and f = VString]; simp add: value_simps)
  apply (rule sgn.codec_prim[where a = s and f = VString]; simp add: value_simps)
  done

lemma codecE:
  assumes "codec sig v"
  obtains bs where "encodeValue e sig v = Ok (e @ bs)" "bs \<noteq> []"
    "reads_back (length e) bs (4 * gsize v) (\<lambda>fuel d. decodeValue fuel d sig) (norm v)"
  using assms by (auto simp: codec_def)

lemma codec_variant:
  assumes "codec s v" and s: "length s < 256"
  shows "codec ''v'' (VVariant s v)"
  unfolding codec_def
proof
  fix e :: encoder
  let ?ws = "written_sig (length e) s"
  obtain bs where enc: "encodeValue (e @ ?ws) s v = Ok ((e @ ?ws) @ bs)" and ne: "bs \<noteq> []"
    and rb: "reads_back (length (e @ ?ws)) bs (4 * gsize v) (\<lambda>fuel d. decodeValue fuel d s) (norm v)"
    using assms(1) by (rule codecE)
  have "reads_back (length e) (?ws @ bs) (4 * gsize (VVariant s v))
      (\<lambda>fuel d. decodeValue fuel d ''v'') (norm (VVariant s v))"
  proof (rule reads_backI)
    fix fuel d post
    assume len: "length (?ws @ bs) < 2 ^ 32" and f: "4 * gsize (VVariant s v) \<le> fuel"
      and d: "cursor_at d (length e) (?ws @ bs) post"
    obtain n where n: "fuel = Suc n" using decode_fuel[OF f] by blast
    let ?d1 = "adv (length ?ws) d"
    have "getSignature d = Ok (s, ?d1)"
      using s len cursor_at_first[OF d] by (intro sgn.get_written) auto
    moreover have "decodeValue n ?d1 s = Some (Ok (norm v, adv (length bs) ?d1))"
      using len f n cursor_at_next[OF d] by (intro reads_backD[OF rb]) auto
    ultimately show "decodeValue fuel d ''v'' = Some (Ok (norm (VVariant s v), adv (length (?ws @ bs)) d))"
      by (simp add: n decodeValue.simps)
  qed
  then show "\<exists>bs. encodeValue e ''v'' (VVariant s v) = Ok (e @ bs) \<and> bs \<noteq> [] \<and>
      reads_back (length e) bs (4 * gsize (VVariant s v)) (\<lambda>fuel d. decodeValue fuel d ''v'')
        (norm (VVariant s v))"
    using enc ne by (intro exI[of _ "?ws @ bs"])
      (simp add: encodeValue.simps[of e "''v''"] sgn.put_written)
qed

subsection \<open>The loops\<close>

definition items_fuel :: "gval list \<Rightarrow> nat" where
  "items_fuel vs = Suc (sum_list (map (\<lambda>v. 4 + 4 * gsize v) vs))"

lemma items_codec:
  assumes "\<And>v. v \<in> set vs \<Longrightarrow> codec sig v"
  shows "\<exists>bs. encodeItems i sig e vs = Ok (e @ bs) \<and> (vs \<noteq> [] \<longrightarrow> bs \<noteq> []) \<and>
    (\<forall>out. reads_back (length e) bs (items_fuel vs)
      (\<lambda>fuel d. decodeItems fuel d sig (pos d + length bs) out) (VSlice (out @ map norm vs)))"
  using assms
proof (induction vs arbitrary: i e)
  case Nil
  have "reads_back (length e) [] (items_fuel []) (\<lambda>fuel d. decodeItems fuel d sig (pos d) out)
      (VSlice out)" for out
  proof (rule reads_backI)
    fix fuel and d :: decoder
    assume "items_fuel [] \<le> fuel"
    then obtain n where "fuel = Suc n" by (cases fuel) (auto simp: items_fuel_def)
    then show "decodeItems fuel d sig (pos d) out = Some (Ok (VSlice out, adv (length []) d))"
      by (simp add: decodeItems.simps)
  qed
  then show ?case by simp
next
  case (Cons v vs)
  obtain b1 where enc1: "encodeValue e sig v = Ok (e @ b1)" and ne: "b1 \<noteq> []"
    and rb1: "reads_back (length e) b1 (4 * gsize v) (\<lambda>fuel d. decodeValue fuel d sig) (norm v)"
    using Cons.prems[of v] by (auto elim: codecE)
  obtain b2 where enc2: "encodeItems (Suc i) sig (e @ b1) vs = Ok ((e @ b1) @ b2)"
    and rb2: "\<And>out. reads_back (length (e @ b1)) b2 (items_fuel vs)
      (\<lambda>fuel d. decodeItems fuel d sig (pos d + length b2) out) (VSlice (out @ map norm vs))"
    using Cons.IH[of "Suc i" "e @ b1"] Cons.prems by auto
  have "reads_back (length e) (b1 @ b2) (items_fuel (v # vs))
      (\<lambda>fuel d. decodeItems fuel d sig (pos d + length (b1 @ b2)) out)
      (VSlice (out @ map norm (v # vs)))" for out
  proof (rule reads_backI)
    fix fuel d post
    assume len: "length (b1 @ b2) < 2 ^ 32" and f: "items_fuel (v # vs) \<le> fuel"
      and d: "cursor_at d (length e) (b1 @ b2) post"
    obtain n where n: "fuel = Suc n" using f by (cases fuel) (auto simp: items_fuel_def)
    let ?d1 = "adv (length b1) d"
    have "decodeValue n d sig = Some (Ok (norm v, ?d1))"
      using len f n cursor_at_first[OF d] by (intro reads_backD[OF rb1]) (auto simp: items_fuel_def)
    moreover have "decodeItems n ?d1 sig (pos ?d1 + length b2) (out @ [norm v]) =
        Some (Ok (VSlice ((out @ [norm v]) @ map norm vs), adv (length b2) ?d1))"
      using len f n cursor_at_next[OF d] by (intro reads_backD[OF rb2]) (auto simp: items_fuel_def)
    ultimately show "decodeItems fuel d sig (pos d + length (b1 @ b2)) out =
        Some (Ok (VSlice (out @ map norm (v # vs)), adv (length (b1 @ b2)) d))"
      using ne by (simp add: n decodeItems.simps add.assoc)
  qed
  then show ?case using enc1 enc2 ne by (intro exI[of _ "b1 @ b2"]) simp
qed

lemma items_codecE:
  assumes "\<And>v. v \<in> set vs \<Longrightarrow> codec sig v"
  obtains bs where "encodeItems i sig e vs = Ok (e @ bs)"
    "reads_back (length e) bs (items_fuel vs)
      (\<lambda>fuel d. decodeItems fuel d sig (pos d + length bs) []) (VSlice (map norm vs))"
proof -
  obtain bs where enc: "encodeItems i sig e vs = Ok (e @ bs)"
    and rb: "\<forall>out. reads_back (length e) bs (items_fuel vs)
      (\<lambda>fuel d. decodeItems fuel d sig (pos d + length bs) out) (VSlice (out @ map norm vs))"
    using items_codec[of vs sig i e] assms by blast
  show ?thesis by (rule that[OF enc]) (use rb[THEN spec, of "[]"] in simp)
qed

lemma struct_codec:
  assumes "list_all2 (\<lambda>t v. codec (sig_of t) v) ts vs"
  shows "\<exists>bs. encodeStruct sg nm ni i e (sigs_of ts) vs = Ok (e @ bs) \<and> (ts \<noteq> [] \<longrightarrow> bs \<noteq> []) \<and>
    (\<forall>out. reads_back (length e) bs (items_fuel vs)
      (\<lambda>fuel d. decodeStruct fuel d (sigs_of ts) out) (VSlice (out @ map norm vs)))"
  using assms
proof (induction ts vs arbitrary: i e rule: list_all2_induct)
  case Nil
  have "reads_back (length e) [] (items_fuel []) (\<lambda>fuel d. decodeStruct fuel d [] out)
      (VSlice out)" for out
  proof (rule reads_backI)
    fix fuel and d :: decoder
    assume "items_fuel [] \<le> fuel"
    then obtain n where "fuel = Suc n" by (cases fuel) (auto simp: items_fuel_def)
    then show "decodeStruct fuel d [] out = Some (Ok (VSlice out, adv (length []) d))"
      by (simp add: decodeStruct.simps)
  qed
  then show ?case by (simp add: encodeStruct.simps)
next
  case (Cons t ts v vs)
  obtain b1 where enc1: "encodeValue e (sig_of t) v = Ok (e @ b1)" and ne: "b1 \<noteq> []"
    and rb1: "reads_back (length e) b1 (4 * gsize v) (\<lambda>fuel d. decodeValue fuel d (sig_of t)) (norm v)"
    using Cons.hyps(1) by (rule codecE)
  obtain b2 where enc2: "encodeStruct sg nm ni (Suc i) (e @ b1) (sigs_of ts) vs = Ok ((e @ b1) @ b2)"
    and rb2: "\<And>out. reads_back (length (e @ b1)) b2 (items_fuel vs)
      (\<lambda>fuel d. decodeStruct fuel d (sigs_of ts) out) (VSlice (out @ map norm vs))"
    using Cons.IH[of "Suc i" "e @ b1"] by auto
  have "reads_back (length e) (b1 @ b2) (items_fuel (v # vs))
      (\<lambda>fuel d. decodeStruct fuel d (sigs_of (t # ts)) out) (VSlice (out @ map norm (v # vs)))" for out
  proof (rule reads_backI)
    fix fuel d post
    assume len: "length (b1 @ b2) < 2 ^ 32" and f: "items_fuel (v # vs) \<le> fuel"
      and d: "cursor_at d (length e) (b1 @ b2) post"
    obtain n where n: "fuel = Suc n" using f by (cases fuel) (auto simp: items_fuel_def)
    let ?d1 = "adv (length b1) d"
    have "decodeValue n d (sig_of t) = Some (Ok (norm v, ?d1))"
      using len f n cursor_at_first[OF d] by (intro reads_backD[OF rb1]) (auto simp: items_fuel_def)
    moreover have "decodeStruct n ?d1 (sigs_of ts) (out @ [norm v]) =
        Some (Ok (VSlice ((out @ [norm v]) @ map norm vs), adv (length b2) ?d1))"
      using len f n cursor_at_next[OF d] by (intro reads_backD[OF rb2]) (auto simp: items_fuel_def)
    ultimately show "decodeStruct fuel d (sigs_of (t # ts)) out =
        Some (Ok (VSlice (out @ map norm (v # vs)), adv (length (b1 @ b2)) d))"
      by (simp add: n decodeStruct.simps splitSig_sig_of)
  qed
  then show ?case
    using enc1 enc2 ne
    by (intro exI[of _ "b1 @ b2"]) (simp add: encodeStruct.simps[of sg nm ni i e] splitSig_sig_of)
qed

lemma struct_codecE:
  assumes "list_all2 (\<lambda>t v. codec (sig_of t) v) ts vs" and "ts \<noteq> []"
  obtains bs where "encodeStruct sg nm ni i e (sigs_of ts) vs = Ok (e @ bs)" "bs \<noteq> []"
    "reads_back (length e) bs (items_fuel vs) (\<lambda>fuel d. decodeStruct fuel d (sigs_of ts) [])
      (VSlice (map norm vs))"
proof -
  obtain bs where enc: "encodeStruct sg nm ni i e (sigs_of ts) vs = Ok (e @ bs)" "bs \<noteq> []"
    and rb: "\<forall>out. reads_back (length e) bs (items_fuel vs)
      (\<lambda>fuel d. decodeStruct fuel d (sigs_of ts) out) (VSlice (out @ map norm vs))"
    using struct_codec[OF assms(1), of sg nm ni i e] assms(2) by blast
  show ?thesis by (rule that[OF enc]) (use rb[THEN spec, of "[]"] in simp)
qed

definition dict_fuel :: "(string \<times> gval) list \<Rightarrow> nat" where
  "dict_fuel kvs = Suc (sum_list (map (\<lambda>kv. 12 + 4 * gsize (snd kv)) kvs))"

lemma update_new: "k \<notin> fst ` set kvs \<Longrightarrow> AList.update k v kvs = kvs @ [(k, v)]"
  by (induction kvs) auto

lemma dict_codec:
  assumes "\<And>k v. (k, v) \<in> set kvs \<Longrightarrow> codec ks (VString k) \<and> codec vs v"
    and "distinct (map fst kvs)"
  shows "\<exists>bs. encodeDict ks vs e kvs = Ok (e @ bs) \<and> (kvs \<noteq> [] \<longrightarrow> bs \<noteq> []) \<and>
    (\<forall>out. fst ` set out \<inter> fst ` set kvs = {} \<longrightarrow> reads_back (length e) bs (dict_fuel kvs)
      (\<lambda>fuel d. decodeDict fuel d ks vs (pos d + length bs) out)
      (VMap (out @ map (map_prod id norm) kvs)))"
  using assms
proof (induction kvs arbitrary: e)
  case Nil
  have "reads_back (length e) [] (dict_fuel []) (\<lambda>fuel d. decodeDict fuel d ks vs (pos d) out)
      (VMap out)" for out
  proof (rule reads_backI)
    fix fuel and d :: decoder
    assume "dict_fuel [] \<le> fuel"
    then obtain n where "fuel = Suc n" by (cases fuel) (auto simp: dict_fuel_def)
    then show "decodeDict fuel d ks vs (pos d) out = Some (Ok (VMap out, adv (length []) d))"
      by (simp add: decodeDict.simps)
  qed
  then show ?case by simp
next
  case (Cons kv kvs)
  obtain k v where kv: "kv = (k, v)" by (cases kv)
  define b0 where "b0 = replicate (pad 8 (length e)) (0 :: byte)"
  have c: "codec ks (VString k)" "codec vs v" using Cons.prems(1) kv by auto
  obtain b1 where enc1: "encodeValue (e @ b0) ks (VString k) = Ok ((e @ b0) @ b1)" and ne: "b1 \<noteq> []"
    and rb1: "reads_back (length (e @ b0)) b1 4 (\<lambda>fuel d. decodeValue fuel d ks) (VString k)"
    using codecE[OF c(1), of "e @ b0"] by auto
  obtain b2 where enc2: "encodeValue (e @ b0 @ b1) vs v = Ok ((e @ b0 @ b1) @ b2)"
    and rb2: "reads_back (length (e @ b0 @ b1)) b2 (4 * gsize v) (\<lambda>fuel d. decodeValue fuel d vs) (norm v)"
    using c(2) by (rule codecE)
  obtain b3 where enc3: "encodeDict ks vs (e @ b0 @ b1 @ b2) kvs = Ok ((e @ b0 @ b1 @ b2) @ b3)"
    and rb3: "\<And>out. fst ` set out \<inter> fst ` set kvs = {} \<Longrightarrow>
      reads_back (length (e @ b0 @ b1 @ b2)) b3 (dict_fuel kvs)
      (\<lambda>fuel d. decodeDict fuel d ks vs (pos d + length b3) out)
      (VMap (out @ map (map_prod id norm) kvs))"
  proof -
    have "codec ks (VString k') \<and> codec vs v'" if "(k', v') \<in> set kvs" for k' v'
      using that by (intro Cons.prems(1)) simp
    moreover have "distinct (map fst kvs)" using Cons.prems(2) by simp
    ultimately show ?thesis using Cons.IH[of "e @ b0 @ b1 @ b2"] that by blast
  qed
  let ?bs = "b0 @ b1 @ b2 @ b3"
  have rb: "reads_back (length e) ?bs (dict_fuel (kv # kvs))
      (\<lambda>fuel d. decodeDict fuel d ks vs (pos d + length ?bs) out)
      (VMap (out @ map (map_prod id norm) (kv # kvs)))"
    if fresh: "fst ` set out \<inter> fst ` set (kv # kvs) = {}" for out
  proof (rule reads_backI)
    fix fuel d post
    assume len: "length ?bs < 2 ^ 32" and f: "dict_fuel (kv # kvs) \<le> fuel"
      and d: "cursor_at d (length e) ?bs post"
    obtain n where n: "fuel = Suc n" using f by (cases fuel) (auto simp: dict_fuel_def)
    note cs = cursor_at_next[OF d] cursor_at_next[OF cursor_at_next[OF d]]
      cursor_at_next[OF cursor_at_next[OF cursor_at_next[OF d]]]
    let ?d1 = "adv (length b0) d" and ?d2 = "adv (length (b0 @ b1)) d"
      and ?d3 = "adv (length (b0 @ b1 @ b2)) d"
    let ?out = "out @ [(k, norm v)]"
    have "alignD 8 d = Ok ?d1"
      using cursor_at_first[OF d] alignD_padding[of 8 d "length e"] by (simp add: b0_def)
    moreover have "decodeValue n ?d1 ks = Some (Ok (VString k, ?d2))"
      using reads_backD[OF rb1, of ?d1 _ n] cursor_at_first[OF cs(1)] len f n kv
      by (simp add: dict_fuel_def)
    moreover have "decodeValue n ?d2 vs = Some (Ok (norm v, ?d3))"
      using reads_backD[OF rb2, of ?d2 _ n] cursor_at_first[OF cs(2)] len f n kv
      by (simp add: dict_fuel_def add.assoc)
    moreover have "decodeDict n ?d3 ks vs (pos ?d3 + length b3) ?out =
        Some (Ok (VMap (?out @ map (map_prod id norm) kvs), adv (length b3) ?d3))"
      using rb3[of ?out] Cons.prems(2) fresh cs(3) len f n kv
      by (intro reads_backD[where dec = "\<lambda>fuel d. decodeDict fuel d ks vs (pos d + length b3) ?out"
            and post = post and p = "length (e @ b0 @ b1 @ b2)" and nf = "dict_fuel kvs"])
        (auto simp: dict_fuel_def add.assoc)
    moreover have "AList.update k (norm v) out = ?out"
      using fresh kv by (intro update_new) auto
    ultimately show "decodeDict fuel d ks vs (pos d + length ?bs) out =
        Some (Ok (VMap (out @ map (map_prod id norm) (kv # kvs)), adv (length ?bs) d))"
      using ne by (simp add: n kv decodeDict.simps add.assoc)
  qed
  show ?case
  proof (intro exI conjI allI impI)
    show "encodeDict ks vs e (kv # kvs) = Ok (e @ ?bs)"
      using enc1 enc2 enc3 by (simp add: kv align_eq flip: b0_def)
    show "?bs \<noteq> []" using ne by simp
  qed (rule rb)
qed

lemma dict_codecE:
  assumes "\<And>k v. (k, v) \<in> set kvs \<Longrightarrow> codec ks (VString k) \<and> codec vs v"
    and "distinct (map fst kvs)"
  obtains bs where "encodeDict ks vs e kvs = Ok (e @ bs)"
    "reads_back (length e) bs (dict_fuel kvs)
      (\<lambda>fuel d. decodeDict fuel d ks vs (pos d + length bs) []) (norm (VMap kvs))"
proof -
  obtain bs where enc: "encodeDict ks vs e kvs = Ok (e @ bs)"
    and rb: "\<forall>out. fst ` set out \<inter> fst ` set kvs = {} \<longrightarrow> reads_back (length e) bs (dict_fuel kvs)
      (\<lambda>fuel d. decodeDict fuel d ks vs (pos d + length bs) out)
      (VMap (out @ map (map_prod id norm) kvs))"
    using dict_codec[of kvs ks vs e] assms by blast
  show ?thesis by (rule that[OF enc]) (use rb[THEN spec, of "[]"] in simp)
qed

subsection \<open>Arrays\<close>

text \<open>The bytes of an array: its length, the padding to its element type, its elements.\<close>

definition written_array :: "nat \<Rightarrow> nat \<Rightarrow> bytes \<Rightarrow> bytes" where
  "written_array a p bs =
     (let h = written_int 4 p (word_of_nat (length bs) :: 32 word)
      in h @ replicate (pad a (p + length h)) 0 @ bs)"

lemma alignmentOf_ok: "sig \<noteq> [] \<Longrightarrow> \<exists>a\<in>{1, 2, 4, 8}. alignmentOf sig = Ok a"
  by (cases sig) (auto simp: alignmentOf_def)

lemma array_layout:
  fixes bs :: bytes and e :: encoder
  assumes "a \<in> {1, 2, 4, 8}"
  defines "e1 \<equiv> putUint32 e 0"
  defines "e2 \<equiv> align a e1"
  shows "patch32 (e2 @ bs) (length e1 - 4) (word_of_nat (length (e2 @ bs) - length e2))
    = e @ written_array a (length e) bs"
proof -
  have a: "0 < a" using assms(1) by auto
  have e1: "e1 = e @ replicate (pad 4 (length e)) 0 @ le32 0"
    by (simp add: e1_def u32.put_written written_int_def)
  have e2: "e2 = e1 @ replicate (pad a (length e1)) 0"
    using a by (simp add: e2_def align_eq)
  show ?thesis
    by (simp add: patch32_def written_array_def e2 e1 written_int_def Let_def)
qed

lemma array_offset:
  "a \<in> {1, 2, 4, 8} \<Longrightarrow>
   length e + length (written_array a (length e) bs) - length bs = length (align a (putUint32 e 0))"
  by (auto simp: align_eq written_array_def u32.put_written written_int_def Let_def)

lemma array_decode:
  assumes a: "alignmentOf es = Ok a" "a \<in> {1, 2, 4, 8}"
    and len: "length (written_array a p bs) < 2 ^ 32"
    and d: "cursor_at d p (written_array a p bs) post"
  obtains d2 where "decodeArray (Suc n) d (c # es) = decodeArrayElements n d2 es (pos d2 + length bs)"
    "cursor_at d2 (p + length (written_array a p bs) - length bs) bs post"
    "adv (length bs) d2 = adv (length (written_array a p bs)) d"
proof -
  let ?w = "word_of_nat (length bs) :: 32 word"
  define h where "h = written_int 4 p ?w"
  define g where "g = replicate (pad a (p + length h)) (0 :: byte)"
  have wa: "written_array a p bs = h @ g @ bs" by (simp add: written_array_def h_def g_def Let_def)
  note c1 = cursor_at_next[OF d[unfolded wa]]
  note c2 = cursor_at_next[OF c1]
  have "getUint32 d = Ok (?w, adv (length h) d)"
    using cursor_at_first[OF d[unfolded wa]] len unfolding h_def
    by (intro u32.get_written) (simp_all add: wa h_def)
  moreover have "alignD a (adv (length h) d) = Ok (adv (length h + length g) d)"
    using cursor_at_first[OF c1] alignD_padding[OF a(2), of "adv (length h) d" "p + length h"]
    by (simp add: g_def)
  moreover have "unat ?w = length bs" using len by (intro unat_of_length) (simp add: wa)
  moreover have "need (length bs) (adv (length h + length g) d) = Ok ()"
    using c2 by (intro need_ok) (auto simp: cursor_at_def)
  ultimately have "decodeArray (Suc n) d (c # es) =
      decodeArrayElements n (adv (length h + length g) d) es
        (pos (adv (length h + length g) d) + length bs)"
    by (simp add: decodeArray.simps a(1) Let_def)
  then show thesis
    by (rule that) (use c2 in \<open>simp_all add: wa add.assoc\<close>)
qed

lemma norm_toAnySlice: "toAnySlice val = Ok vs \<Longrightarrow> norm val = VSlice (map norm vs)"
  by (auto simp: toAnySlice_def split: gval.splits)

lemma fuel_toAnySlice: "toAnySlice val = Ok vs \<Longrightarrow> items_fuel vs + 3 \<le> 4 * gsize val"
proof -
  assume "toAnySlice val = Ok vs"
  then have "4 * sum_list (map (Suc \<circ> gsize) vs) + 4 \<le> 4 * gsize val"
    using toAnySlice_gsize[of val vs] by simp
  moreover have "sum_list (map (\<lambda>v. 4 + 4 * gsize v) vs) = 4 * sum_list (map (Suc \<circ> gsize) vs)"
    by (induction vs) auto
  ultimately show ?thesis by (simp add: items_fuel_def)
qed

text \<open>One lemma for both kinds of array: what is left to show is how the elements read back.\<close>

lemma array_codec:
  assumes a: "alignmentOf es = Ok a" "a \<in> {1, 2, 4, 8}"
    and enc: "\<And>e. \<exists>bs. encodeArray e (CHR ''a'' # es) val = Ok (e @ written_array a (length e) bs) \<and>
      reads_back (length e + length (written_array a (length e) bs) - length bs) bs (4 * gsize val - 2)
        (\<lambda>fuel d. decodeArrayElements fuel d es (pos d + length bs)) (norm val)"
  shows "codec (CHR ''a'' # es) val"
  unfolding codec_def
proof
  fix e :: encoder
  obtain bs where e: "encodeArray e (CHR ''a'' # es) val = Ok (e @ written_array a (length e) bs)"
    and rb: "reads_back (length e + length (written_array a (length e) bs) - length bs) bs
      (4 * gsize val - 2) (\<lambda>fuel d. decodeArrayElements fuel d es (pos d + length bs)) (norm val)"
    using enc by blast
  let ?wa = "written_array a (length e) bs"
  have "reads_back (length e) ?wa (4 * gsize val) (\<lambda>fuel d. decodeValue fuel d (CHR ''a'' # es))
      (norm val)"
  proof (rule reads_backI)
    fix fuel d post
    assume len: "length ?wa < 2 ^ 32" and f: "4 * gsize val \<le> fuel" and d: "cursor_at d (length e) ?wa post"
    have "fuel = Suc (Suc (fuel - 2))" using f gsize_pos[of val] by simp
    then obtain n where n: "fuel = Suc (Suc n)" by blast
    obtain d2 where d2: "decodeArray (Suc n) d (CHR ''a'' # es) = decodeArrayElements n d2 es (pos d2 + length bs)"
      "cursor_at d2 (length e + length ?wa - length bs) bs post"
      "adv (length bs) d2 = adv (length ?wa) d"
      using array_decode[OF a len d] by blast
    have "length bs < 2 ^ 32" using len by (simp add: written_array_def Let_def)
    then have "decodeArrayElements n d2 es (pos d2 + length bs) = Some (Ok (norm val, adv (length bs) d2))"
      using f n d2(2) by (intro reads_backD[OF rb]) auto
    then show "decodeValue fuel d (CHR ''a'' # es) = Some (Ok (norm val, adv (length ?wa) d))"
      by (simp add: n decodeValue.simps d2)
  qed
  moreover have "?wa \<noteq> []" by (simp add: written_array_def Let_def u32.written_not_Nil)
  ultimately show "\<exists>bs. encodeValue e (CHR ''a'' # es) val = Ok (e @ bs) \<and> bs \<noteq> [] \<and>
      reads_back (length e) bs (4 * gsize val) (\<lambda>fuel d. decodeValue fuel d (CHR ''a'' # es)) (norm val)"
    using e by (intro exI[of _ ?wa]) (simp add: encodeValue.simps)
qed

lemma array_items_bytes:
  assumes vs: "toAnySlice val = Ok vs" and el: "\<And>v. v \<in> set vs \<Longrightarrow> codec (sig_of t) v"
    and a: "alignmentOf (sig_of t) = Ok a" "a \<in> {1, 2, 4, 8}"
  shows "\<exists>bs. encodeArray e (CHR ''a'' # sig_of t) val = Ok (e @ written_array a (length e) bs) \<and>
    reads_back (length e + length (written_array a (length e) bs) - length bs) bs (4 * gsize val - 2)
      (\<lambda>fuel d. decodeArrayElements fuel d (sig_of t) (pos d + length bs)) (norm val)"
proof -
  let ?e2 = "align a (putUint32 e 0)"
  obtain bs where enc: "encodeItems 0 (sig_of t) ?e2 vs = Ok (?e2 @ bs)"
    and rb: "reads_back (length ?e2) bs (items_fuel vs)
      (\<lambda>fuel d. decodeItems fuel d (sig_of t) (pos d + length bs) []) (VSlice (map norm vs))"
    using items_codecE[of vs "sig_of t" 0 ?e2] el by blast
  have lay: "patch32 (?e2 @ bs) (length (putUint32 e 0) - 4)
      (word_of_nat (length (?e2 @ bs) - length ?e2)) = e @ written_array a (length e) bs"
    using a(2) by (rule array_layout)
  have off: "length e + length (written_array a (length e) bs) - length bs = length ?e2"
    using a(2) by (rule array_offset)
  have "reads_back (length ?e2) bs (4 * gsize val - 2)
      (\<lambda>fuel d. decodeArrayElements fuel d (sig_of t) (pos d + length bs)) (norm val)"
  proof (rule reads_backI)
    fix fuel d post
    assume len: "length bs < 2 ^ 32" and f: "4 * gsize val - 2 \<le> fuel"
      and d: "cursor_at d (length ?e2) bs post"
    have fl: "items_fuel vs \<le> fuel - 1" "0 < fuel"
      using fuel_toAnySlice[OF vs] f by auto
    then obtain n where n: "fuel = Suc n" by (cases fuel) auto
    have "decodeItems n d (sig_of t) (pos d + length bs) [] =
        Some (Ok (VSlice (map norm vs), adv (length bs) d))"
      using d len fl n by (intro reads_backD[OF rb]) auto
    then show "decodeArrayElements fuel d (sig_of t) (pos d + length bs) =
        Some (Ok (norm val, adv (length bs) d))"
      using hd_sig_of_not_brace[of t]
      by (auto simp: n decodeArrayElements.simps norm_toAnySlice[OF vs] split: list.splits)
  qed
  moreover have "encodeArray e (CHR ''a'' # sig_of t) val = Ok (e @ written_array a (length e) bs)"
    using enc lay a(1) vs hd_sig_of_not_brace[of t]
    by (simp add: encodeArray.simps Let_def)
  ultimately show ?thesis using off by auto
qed

lemma codec_array:
  assumes vs: "toAnySlice val = Ok vs" and el: "\<And>v. v \<in> set vs \<Longrightarrow> codec (sig_of t) v"
  shows "codec (sig_of (TArray t)) val"
proof -
  obtain a where a: "alignmentOf (sig_of t) = Ok a" "a \<in> {1, 2, 4, 8}"
    using alignmentOf_ok[of "sig_of t"] by auto
  have "codec (CHR ''a'' # sig_of t) val"
    using array_items_bytes[OF vs el a] by (intro array_codec[OF a])
  then show ?thesis by simp
qed

lemma fuel_dict: "dict_fuel kvs + 3 \<le> 4 * gsize (VMap kvs)"
proof -
  have "sum_list (map (\<lambda>kv. 12 + 4 * gsize (snd kv)) kvs)
      = 4 * sum_list (map (\<lambda>kn. 3 + snd kn) (map (map_prod id gsize) kvs))"
    by (induction kvs) auto
  then show ?thesis by (simp add: dict_fuel_def)
qed

lemma codec_dict:
  assumes dist: "distinct (map fst kvs)"
    and el: "\<And>k v. (k, v) \<in> set kvs \<Longrightarrow> codec (sig_of tk) (VString k) \<and> codec (sig_of tv) v"
  shows "codec (sig_of (TDict tk tv)) (VMap kvs)"
proof -
  let ?es = "CHR ''{'' # sig_of tk @ sig_of tv @ ''}''"
  have a: "alignmentOf ?es = Ok 8" "(8::nat) \<in> {1, 2, 4, 8}" by (simp_all add: alignmentOf_def)
  have "codec (CHR ''a'' # ?es) (VMap kvs)"
  proof (rule array_codec[OF a])
    fix e :: encoder
    let ?e2 = "align 8 (putUint32 e 0)"
    obtain bs where enc: "encodeDict (sig_of tk) (sig_of tv) ?e2 kvs = Ok (?e2 @ bs)"
      and rb: "reads_back (length ?e2) bs (dict_fuel kvs)
        (\<lambda>fuel d. decodeDict fuel d (sig_of tk) (sig_of tv) (pos d + length bs) [])
        (norm (VMap kvs))"
      using dict_codecE[OF el dist, of ?e2] by blast
    have lay: "patch32 (?e2 @ bs) (length (putUint32 e 0) - 4)
        (word_of_nat (length (?e2 @ bs) - length ?e2)) = e @ written_array 8 (length e) bs"
      using a(2) by (rule array_layout)
    have off: "length e + length (written_array 8 (length e) bs) - length bs = length ?e2"
      using a(2) by (rule array_offset)
    have "reads_back (length ?e2) bs (4 * gsize (VMap kvs) - 2)
        (\<lambda>fuel d. decodeArrayElements fuel d ?es (pos d + length bs)) (norm (VMap kvs))"
    proof (rule reads_backI)
      fix fuel d post
      assume len: "length bs < 2 ^ 32" and f: "4 * gsize (VMap kvs) - 2 \<le> fuel"
        and d: "cursor_at d (length ?e2) bs post"
      have fl: "dict_fuel kvs \<le> fuel - 1" "0 < fuel" using fuel_dict[of kvs] f by auto
      then obtain n where n: "fuel = Suc n" by (cases fuel) auto
      have "decodeDict n d (sig_of tk) (sig_of tv) (pos d + length bs) [] =
          Some (Ok (norm (VMap kvs), adv (length bs) d))"
        using d len fl n by (intro reads_backD[OF rb]) auto
      then show "decodeArrayElements fuel d ?es (pos d + length bs) =
          Some (Ok (norm (VMap kvs), adv (length bs) d))"
        using splitDictEntry_dict[of tk tv] by (simp add: n decodeArrayElements.simps)
    qed
    moreover have "encodeArray e (CHR ''a'' # ?es) (VMap kvs) = Ok (e @ written_array 8 (length e) bs)"
      using enc lay a(1) splitDictEntry_dict[of tk tv]
      by (simp add: encodeArray.simps Let_def)
    ultimately show "\<exists>bs. encodeArray e (CHR ''a'' # ?es) (VMap kvs) = Ok (e @ written_array 8 (length e) bs) \<and>
        reads_back (length e + length (written_array 8 (length e) bs) - length bs) bs
          (4 * gsize (VMap kvs) - 2) (\<lambda>fuel d. decodeArrayElements fuel d ?es (pos d + length bs))
          (norm (VMap kvs))"
      using off by auto
  qed
  then show ?thesis by simp
qed

lemma codec_struct:
  assumes el: "list_all2 (\<lambda>t v. codec (sig_of t) v) ts vs" and ne: "ts \<noteq> []"
  shows "codec (sig_of (TStruct ts)) (VSlice vs)"
  unfolding codec_def
proof
  fix e :: encoder
  let ?sig = "sig_of (TStruct ts)"
  define b0 where "b0 = replicate (pad 8 (length e)) (0 :: byte)"
  obtain b1 where enc: "encodeStruct ?sig (length (sigs_of ts)) (length vs) 0 (e @ b0) (sigs_of ts) vs
        = Ok ((e @ b0) @ b1)" and ne1: "b1 \<noteq> []"
    and rb: "reads_back (length (e @ b0)) b1 (items_fuel vs)
      (\<lambda>fuel d. decodeStruct fuel d (sigs_of ts) []) (VSlice (map norm vs))"
    using struct_codecE[OF el ne, of ?sig "length (sigs_of ts)" "length vs" 0 "e @ b0"] by blast
  have "reads_back (length e) (b0 @ b1) (4 * gsize (VSlice vs))
      (\<lambda>fuel d. decodeValue fuel d ?sig) (norm (VSlice vs))"
  proof (rule reads_backI)
    fix fuel d post
    assume len: "length (b0 @ b1) < 2 ^ 32" and f: "4 * gsize (VSlice vs) \<le> fuel"
      and d: "cursor_at d (length e) (b0 @ b1) post"
    obtain n where n: "fuel = Suc n" using decode_fuel[OF f] by blast
    let ?d1 = "adv (length b0) d"
    have fl: "items_fuel vs \<le> n"
      using fuel_toAnySlice[of "VSlice vs" vs] f n by (simp add: toAnySlice_def)
    have "alignD 8 d = Ok ?d1"
      using cursor_at_first[OF d] alignD_padding[of 8 d "length e"] by (simp add: b0_def)
    moreover have "decodeStruct n ?d1 (sigs_of ts) [] =
        Some (Ok (VSlice (map norm vs), adv (length b1) ?d1))"
      using len fl cursor_at_next[OF d] by (intro reads_backD[OF rb]) auto
    moreover have "inner_sig ?sig = Ok (sigs_of ts)" by (rule inner_sig_struct)
    ultimately show "decodeValue fuel d ?sig = Some (Ok (norm (VSlice vs), adv (length (b0 @ b1)) d))"
      by (simp add: n decodeValue.simps)
  qed
  moreover have "encodeValue e ?sig (VSlice vs) = Ok (e @ b0 @ b1)"
    using enc inner_sig_struct[of ts]
    by (simp add: encodeValue.simps[of e] align_eq flip: b0_def)
  ultimately show "\<exists>bs. encodeValue e ?sig (VSlice vs) = Ok (e @ bs) \<and> bs \<noteq> [] \<and>
      reads_back (length e) bs (4 * gsize (VSlice vs)) (\<lambda>fuel d. decodeValue fuel d ?sig) (norm (VSlice vs))"
    using ne1 by (intro exI[of _ "b0 @ b1"]) simp
qed

theorem wt_codec: "wt t v \<Longrightarrow> codec (sig_of t) v"
proof (induction rule: wt.induct)
  case (wt_variant t v)
  then show ?case using codec_variant by simp
next
  case (wt_array val vs t)
  then show ?case by (intro codec_array) auto
next
  case (wt_dict kvs tk tv)
  then show ?case by (intro codec_dict) auto
next
  case (wt_struct ts vs)
  then show ?case by (intro codec_struct) (auto elim: list_all2_mono)
qed (simp_all add: codec_basic)

end
