(* ===== verification/GoStrings.thy ===== *)
theory GoStrings
  imports Prelude "HOL-Library.Char_ord"
begin

text \<open>
  The pieces of Go's \<open>strings\<close>, \<open>strconv\<close>, \<open>encoding/hex\<close> and \<open>path/filepath\<close> packages the
  program calls, on byte strings.
\<close>

section \<open>Numbers in decimal and hexadecimal\<close>

definition digit_char :: "nat \<Rightarrow> char" where
  "digit_char n = char_of (if n < 10 then 48 + n else 87 + n)"

fun show_nat :: "nat \<Rightarrow> string" where
  "show_nat n = (if n < 10 then [digit_char n] else show_nat (n div 10) @ [digit_char (n mod 10)])"

declare show_nat.simps [simp del]

text \<open>\<open>strconv.Itoa\<close>, and \<open>%d\<close> of an int.\<close>

definition show_int :: "int \<Rightarrow> string" where
  "show_int i = (if i < 0 then CHR ''-'' # show_nat (nat (- i)) else show_nat (nat i))"

text \<open>\<open>hex.EncodeToString\<close>: two lower-case digits a byte.\<close>

definition hex_encode :: "string \<Rightarrow> string" where
  "hex_encode s = concat (map (\<lambda>c. let n = of_char c in [digit_char (n div 16), digit_char (n mod 16)]) s)"

text \<open>\<open>strconv.ParseInt(s, 10, 64)\<close> with its error ignored: 0 for text that is not a number, the nearest
  bound for a number out of range; and \<open>strconv.Atoi\<close>, where the error matters.\<close>

definition is_digit :: "char \<Rightarrow> bool" where
  "is_digit c = (CHR ''0'' \<le> c \<and> c \<le> CHR ''9'')"

definition digits_val :: "string \<Rightarrow> nat" where
  "digits_val s = foldl (\<lambda>n c. 10 * n + (of_char c - 48)) 0 s"

definition signed_val :: "string \<Rightarrow> int option" where
  "signed_val s = (case s of
     [] \<Rightarrow> None
   | c # cs \<Rightarrow>
     let ds = (if c = CHR ''-'' \<or> c = CHR ''+'' then cs else s) in
     if ds = [] \<or> \<not> list_all is_digit ds then None
     else Some (if c = CHR ''-'' then - int (digits_val ds) else int (digits_val ds)))"

definition ParseInt64 :: "string \<Rightarrow> int" where
  "ParseInt64 s = (case signed_val s of None \<Rightarrow> 0 | Some n \<Rightarrow> max (- (2 ^ 63)) (min (2 ^ 63 - 1) n))"

definition Atoi :: "string \<Rightarrow> int option" where
  "Atoi s = (case signed_val s of
     Some n \<Rightarrow> if - (2 ^ 63) \<le> n \<and> n < 2 ^ 63 then Some n else None
   | None \<Rightarrow> None)"

section \<open>Searching and cutting\<close>

fun has_prefix :: "string \<Rightarrow> string \<Rightarrow> bool" where
  "has_prefix s [] = True"
| "has_prefix [] (p # ps) = False"
| "has_prefix (c # s) (p # ps) = (c = p \<and> has_prefix s ps)"

definition has_suffix :: "string \<Rightarrow> string \<Rightarrow> bool" where
  "has_suffix s p = (length p \<le> length s \<and> drop (length s - length p) s = p)"

fun contains :: "string \<Rightarrow> string \<Rightarrow> bool" where
  "contains [] p = (p = [])"
| "contains (c # s) p = (has_prefix (c # s) p \<or> contains s p)"

definition trim_suffix :: "string \<Rightarrow> string \<Rightarrow> string" where
  "trim_suffix s p = (if has_suffix s p then take (length s - length p) s else s)"

text \<open>\<open>strings.CutPrefix\<close>.\<close>

definition cut_prefix :: "string \<Rightarrow> string \<Rightarrow> string \<times> bool" where
  "cut_prefix s p = (if has_prefix s p then (drop (length p) s, True) else (s, False))"

text \<open>ASCII white space of \<open>strings.TrimSpace\<close> and \<open>strings.Fields\<close>: tab, newline, vertical tab,
  form feed, carriage return, space.\<close>

definition is_space :: "char \<Rightarrow> bool" where
  "is_space c = (c \<in> set [CHR 0x09, CHR 0x0A, CHR 0x0B, CHR 0x0C, CHR 0x0D, CHR 0x20])"

definition trim_space :: "string \<Rightarrow> string" where
  "trim_space s = rev (dropWhile is_space (rev (dropWhile is_space s)))"

text \<open>\<open>strings.Split(s, sep)\<close> for a one-byte separator: always at least one field.\<close>

fun split_on :: "char \<Rightarrow> string \<Rightarrow> string list" where
  "split_on sep [] = [[]]"
| "split_on sep (c # s) =
     (if c = sep then [] # split_on sep s
      else (case split_on sep s of [] \<Rightarrow> [[c]] | f # fs \<Rightarrow> (c # f) # fs))"

fun join :: "string \<Rightarrow> string list \<Rightarrow> string" where
  "join sep [] = []"
| "join sep [x] = x"
| "join sep (x # y # xs) = x @ sep @ join sep (y # xs)"

text \<open>A text of several lines, each ended by a newline.\<close>

definition unlines :: "string list \<Rightarrow> string" where
  "unlines ls = concat (map (\<lambda>l. l @ [CHR 0x0A]) ls)"

text \<open>The lines \<open>bufio.Scanner\<close> delivers: a line of 64 KiB or more stops it with an error, a carriage
  return before the newline is dropped.\<close>

definition drop_cr :: "string \<Rightarrow> string" where
  "drop_cr s = (if s \<noteq> [] \<and> last s = CHR 0x0D then butlast s else s)"

definition raw_lines :: "string \<Rightarrow> string list" where
  "raw_lines s = (let ls = split_on (CHR 0x0A) s in if last ls = [] then butlast ls else ls)"

text \<open>\<open>strings.Join(strings.Fields(s), "")\<close> keeps exactly the bytes that are not white space.\<close>

definition strip_fields :: "string \<Rightarrow> string" where
  "strip_fields s = filter (\<lambda>c. \<not> is_space c) s"

text \<open>\<open>strings.ToLower\<close> on ASCII letters; other bytes stay.\<close>

definition lower_char :: "char \<Rightarrow> char" where
  "lower_char c = (if CHR ''A'' \<le> c \<and> c \<le> CHR ''Z'' then char_of (of_char c + (32 :: nat)) else c)"

definition to_lower :: "string \<Rightarrow> string" where
  "to_lower s = map lower_char s"

section \<open>Facts\<close>

lemma split_on_not_Nil [simp]: "split_on sep s \<noteq> []"
  by (induction s) (auto split: list.splits)

lemma has_prefix_iff: "has_prefix s p \<longleftrightarrow> (\<exists>t. s = p @ t)"
  by (induction s p rule: has_prefix.induct) auto

lemma has_prefix_append [simp]: "has_prefix (p @ t) p"
  by (simp add: has_prefix_iff)

lemma has_suffix_iff: "has_suffix s p \<longleftrightarrow> (\<exists>t. s = t @ p)"
  unfolding has_suffix_def
  by (metis append_eq_conv_conj append_take_drop_id diff_add_inverse2 length_append le_add2)

lemma contains_iff: "contains s p \<longleftrightarrow> (\<exists>a b. s = a @ p @ b)"
proof (induction s)
  case (Cons c s)
  show ?case
  proof
    assume "contains (c # s) p"
    then consider t where "c # s = p @ t" | a b where "s = a @ p @ b"
      using Cons by (auto simp: has_prefix_iff)
    then show "\<exists>a b. c # s = a @ p @ b"
    proof cases
      case 1
      then show ?thesis by (intro exI[of _ "[]"] exI[of _ t]) simp
    next
      case 2
      then show ?thesis by (intro exI[of _ "c # a"] exI[of _ b]) simp
    qed
  next
    assume "\<exists>a b. c # s = a @ p @ b"
    then obtain a b where "c # s = a @ p @ b" by blast
    then have "has_prefix (c # s) p \<or> contains s p"
      using Cons by (cases a) (auto simp: has_prefix_iff)
    then show "contains (c # s) p" by simp
  qed
qed simp

lemma join_Cons_head: "join sep ((c # f) # fs) = c # join sep (f # fs)"
  by (cases fs) auto

lemma join_split_on: "join [sep] (split_on sep s) = s"
proof (induction sep s rule: split_on.induct)
  case (2 sep c s)
  then show ?case by (cases "split_on sep s") (auto simp: join_Cons_head split: list.splits)
qed simp

lemma split_on_no_sep: "f \<in> set (split_on sep s) \<Longrightarrow> sep \<notin> set f"
proof (induction sep s arbitrary: f rule: split_on.induct)
  case (2 sep c s)
  then show ?case by (cases "split_on sep s") (auto split: if_splits)
qed simp

lemma trim_space_no_edge:
  "trim_space s = [] \<or> (\<not> is_space (hd (trim_space s)) \<and> \<not> is_space (last (trim_space s)))"
proof (cases "trim_space s = []")
  case False
  define t where "t = dropWhile is_space s"
  have ts: "trim_space s = rev (dropWhile is_space (rev t))" by (simp add: trim_space_def t_def)
  from False have ne: "dropWhile is_space (rev t) \<noteq> []" by (simp add: ts)
  then have "\<not> is_space (hd (dropWhile is_space (rev t)))" by (rule hd_dropWhile)
  then have last: "\<not> is_space (last (trim_space s))" using ne by (simp add: ts last_rev)
  have "t \<noteq> []" using ne by auto
  then have h: "\<not> is_space (hd t)" unfolding t_def by (rule hd_dropWhile)
  obtain u where u: "rev t = u @ dropWhile is_space (rev t)"
    by (metis takeWhile_dropWhile_id)
  then have "t = trim_space s @ rev u" unfolding ts by (metis rev_append rev_rev_ident)
  then have "hd (trim_space s) = hd t" using False by (metis hd_append)
  then show ?thesis using h last by simp
qed simp

lemma join_contains: "x \<in> set xs \<Longrightarrow> contains (join sep xs) x"
  unfolding contains_iff
proof (induction sep xs rule: join.induct)
  case (2 sep y)
  then show ?case by (intro exI[of _ "[]"] exI[of _ "[]"]) simp
next
  case (3 sep y z zs)
  show ?case
  proof (cases "x = y")
    case True
    then show ?thesis by (intro exI[of _ "[]"] exI[of _ "sep @ join sep (z # zs)"]) simp
  next
    case False
    with 3 obtain a b where "join sep (z # zs) = a @ x @ b" by auto
    then show ?thesis by (intro exI[of _ "y @ sep @ a"] exI[of _ b]) simp
  qed
qed simp

lemma contains_middle: "contains s x \<Longrightarrow> contains (a @ s @ b) x"
  unfolding contains_iff by (metis append.assoc)

end
