(* ===== verification/DBus_Message.thy ===== *)
theory DBus_Message
  imports DBus_Roundtrip GoStrings
begin

text \<open>
  Messages and connections: \<^verbatim>\<open>internal/dbus/message.go\<close> and \<^verbatim>\<open>internal/dbus/dbus.go\<close>.
  The bus daemon is not part of the program: it is the parameter \<open>peer\<close>, which maps the
  writes made so far to the bytes they make readable, or to \<open>None\<close> when the last write fails.
\<close>

section \<open>Building a method call\<close>

definition msgTypeMethodCall :: byte where "msgTypeMethodCall = 1"
definition msgTypeMethodReturn :: byte where "msgTypeMethodReturn = 2"
definition msgTypeError :: byte where "msgTypeError = 3"
definition msgTypeSignal :: byte where "msgTypeSignal = 4"

definition fieldPath :: byte where "fieldPath = 1"
definition fieldInterface :: byte where "fieldInterface = 2"
definition fieldMember :: byte where "fieldMember = 3"
definition fieldErrorName :: byte where "fieldErrorName = 4"
definition fieldReplySerial :: byte where "fieldReplySerial = 5"
definition fieldDestination :: byte where "fieldDestination = 6"
definition fieldSignature :: byte where "fieldSignature = 8"

lemmas field_codes = fieldPath_def fieldInterface_def fieldMember_def fieldErrorName_def
  fieldReplySerial_def fieldDestination_def fieldSignature_def

datatype msg_err =
    Marshal dbus_err
  | ArgArity string nat nat
  | Arg nat msg_err
  | HeaderFields msg_err
  | ReadFixed
  | ByteOrder byte
  | ReadFieldsLength
  | ReadFieldsPadding
  | ReadFields
  | ReadHeaderPadding
  | ReadBody
  | DecodeFields dbus_err
  | DecodeBody dbus_err
  | DecodeBodyValue string dbus_err

fun omap_err :: "('e \<Rightarrow> 'f) \<Rightarrow> ('e, 'a) outcome \<Rightarrow> ('f, 'a) outcome" where
  "omap_err w (Ok x) = Ok x"
| "omap_err w (Err e) = Err (w e)"
| "omap_err w Panic = Panic"

lemma omap_err_eq_Ok [outcome_simps]: "omap_err w m = Ok y \<longleftrightarrow> m = Ok y"
  by (cases m) auto

text \<open>The loop over \<open>inSig\<close> that writes the body.\<close>

function encodeArgs :: "string \<Rightarrow> nat \<Rightarrow> nat \<Rightarrow> encoder \<Rightarrow> string \<Rightarrow> gval list \<Rightarrow> (msg_err, encoder) outcome" where
  "encodeArgs inSig na i e rest args =
     (if rest = [] then Ok e
      else obind (omap_err Marshal (splitSig rest)) (\<lambda>(first, r).
        case args of
          [] \<Rightarrow> Err (ArgArity inSig (length rest) na)
        | arg # args' \<Rightarrow>
            obind (omap_err (\<lambda>x. Arg i (Marshal x)) (encodeValue e first arg)) (\<lambda>e'.
              encodeArgs inSig na (Suc i) e' r args')))"
  by pat_completeness auto
termination
  by (relation "measure (\<lambda>(inSig, na, i, e, rest, args). length args)") auto

declare encodeArgs.simps [simp del]

definition headerField :: "byte \<Rightarrow> string \<Rightarrow> gval \<Rightarrow> gval" where
  "headerField code sig val = VSlice [VByte code, VVariant sig val]"

definition headerFields :: "string \<Rightarrow> string \<Rightarrow> string \<Rightarrow> string \<Rightarrow> string \<Rightarrow> gval list" where
  "headerFields destination path iface meth inSig =
     [headerField fieldPath ''o'' (VString path),
      headerField fieldInterface ''s'' (VString iface),
      headerField fieldMember ''s'' (VString meth)]
     @ (if destination \<noteq> [] then [headerField fieldDestination ''s'' (VString destination)] else [])
     @ (if inSig \<noteq> [] then [headerField fieldSignature ''g'' (VString inSig)] else [])"

definition encodeMethodCall :: "32 word \<Rightarrow> string \<Rightarrow> string \<Rightarrow> string \<Rightarrow> string \<Rightarrow> string
    \<Rightarrow> gval list \<Rightarrow> (msg_err, bytes) outcome" where
  "encodeMethodCall serial destination path iface meth inSig args =
     obind (encodeArgs inSig (length args) 0 [] inSig args) (\<lambda>body.
       let h0 = [byte_of_char (CHR ''l''), msgTypeMethodCall, 0, 1];
           h1 = putUint32 h0 (word_of_nat (length body));
           h2 = putUint32 h1 serial in
       obind (omap_err (\<lambda>x. HeaderFields (Marshal x))
                (encodeValue h2 ''a(yv)'' (VSlice (headerFields destination path iface meth inSig))))
         (\<lambda>h3. Ok (align 8 h3 @ body)))"

section \<open>Reading a message\<close>

record rawMessage =
  m_type :: byte
  m_replySerial :: "32 word"
  m_errorName :: string
  m_signature :: string
  m_body :: "gval list"

text \<open>
  \<open>io.ReadFull(r, buf)\<close> with a buffer of \<open>n\<close> bytes, on the bytes the peer still delivers: a
  short stream is consumed and is an error. \<open>io.CopyN(io.Discard, r, n)\<close> consumes likewise.
\<close>

definition readFull :: "nat \<Rightarrow> bytes \<Rightarrow> bytes option \<times> bytes" where
  "readFull n r = (if n \<le> length r then (Some (take n r), drop n r) else (None, []))"

definition discard :: "nat \<Rightarrow> bytes \<Rightarrow> bool \<times> bytes" where
  "discard n r = (if n = 0 then (True, r) else (n \<le> length r, drop n r))"

text \<open>One entry of the decoded header-fields array, as the loop in \<open>readMessage\<close> treats it.\<close>

definition applyField :: "rawMessage \<Rightarrow> gval \<Rightarrow> rawMessage" where
  "applyField msg item = (case item of
     VSlice [c, v] \<Rightarrow>
       let code = (case c of VByte b \<Rightarrow> b | _ \<Rightarrow> 0);
           value = (case v of VVariant _ x \<Rightarrow> x | _ \<Rightarrow> VNil) in
       if code = fieldReplySerial then
         (case value of VUint32 u \<Rightarrow> msg\<lparr>m_replySerial := u\<rparr> | _ \<Rightarrow> msg)
       else if code = fieldErrorName then
         (case value of VString s \<Rightarrow> msg\<lparr>m_errorName := s\<rparr> | _ \<Rightarrow> msg)
       else if code = fieldSignature then
         (case value of VString s \<Rightarrow> msg\<lparr>m_signature := s\<rparr> | _ \<Rightarrow> msg)
       else msg
   | _ \<Rightarrow> msg)"

fun fmap_err :: "('e \<Rightarrow> 'f) \<Rightarrow> ('e, 'a) outcome option \<Rightarrow> ('f, 'a) outcome option" where
  "fmap_err w None = None"
| "fmap_err w (Some m) = Some (omap_err w m)"

text \<open>The loop over the message's signature that decodes the body.\<close>

fun decodeBody :: "nat \<Rightarrow> decoder \<Rightarrow> string \<Rightarrow> gval list \<Rightarrow> (msg_err, gval list) outcome option" where
  "decodeBody 0 d rst out = None"
| "decodeBody (Suc fuel) d rst out =
     (if rst = [] then Some (Ok out)
      else fbind (Some (omap_err DecodeBody (splitSig rst))) (\<lambda>(first, r).
           fbind (fmap_err (DecodeBodyValue first) (decodeValue fuel d first)) (\<lambda>(v, d').
             decodeBody fuel d' r (out @ [v]))))"

definition decodeMessage :: "nat \<Rightarrow> byte \<Rightarrow> bytes \<Rightarrow> bytes \<Rightarrow> (msg_err, rawMessage) outcome option" where
  "decodeMessage fuel mt fieldsBuf bodyBuf =
     fbind (fmap_err DecodeFields
              (decodeArrayElements fuel \<lparr>buf = fieldsBuf, pos = 0\<rparr> ''(yv)'' (length fieldsBuf)))
       (\<lambda>(rawFields, _).
         let items = (case rawFields of VSlice xs \<Rightarrow> xs | _ \<Rightarrow> []);
             msg = fold (\<lambda>item m. applyField m item) items
                     \<lparr>m_type = mt, m_replySerial = 0, m_errorName = [], m_signature = [], m_body = []\<rparr> in
         if m_signature msg \<noteq> [] \<and> 0 < length bodyBuf then
           fbind (decodeBody fuel \<lparr>buf = bodyBuf, pos = 0\<rparr> (m_signature msg) [])
             (\<lambda>vs. Some (Ok (msg\<lparr>m_body := vs\<rparr>)))
         else Some (Ok msg))"

definition readMessage :: "nat \<Rightarrow> bytes \<Rightarrow> ((msg_err, rawMessage) outcome \<times> bytes) option" where
  "readMessage fuel r = (case readFull 12 r of
     (None, r1) \<Rightarrow> Some (Err ReadFixed, r1)
   | (Some fixed, r1) \<Rightarrow>
     if fixed ! 0 \<noteq> byte_of_char (CHR ''l'') then Some (Err (ByteOrder (fixed ! 0)), r1)
     else
     let mt = fixed ! 1; bodyLen = unat (un_le (take 4 (drop 4 fixed)) :: 32 word) in
     (case readFull 4 r1 of
       (None, r2) \<Rightarrow> Some (Err ReadFieldsLength, r2)
     | (Some lenBuf, r2) \<Rightarrow>
       let fieldsLen = unat (un_le lenBuf :: 32 word); p0 = 16; padTo8 = pad 8 p0 in
       (case discard padTo8 r2 of
         (False, r3) \<Rightarrow> Some (Err ReadFieldsPadding, r3)
       | (True, r3) \<Rightarrow>
         (case readFull fieldsLen r3 of
           (None, r4) \<Rightarrow> Some (Err ReadFields, r4)
         | (Some fieldsBuf, r4) \<Rightarrow>
           let p1 = p0 + padTo8 + fieldsLen; headerPad = pad 8 p1 in
           (case discard headerPad r4 of
             (False, r5) \<Rightarrow> Some (Err ReadHeaderPadding, r5)
           | (True, r5) \<Rightarrow>
             (case readFull bodyLen r5 of
               (None, r6) \<Rightarrow> Some (Err ReadBody, r6)
             | (Some bodyBuf, r6) \<Rightarrow>
               map_option (\<lambda>res. (res, r6)) (decodeMessage fuel mt fieldsBuf bodyBuf)))))))"

section \<open>Connections\<close>

record conn =
  inbuf :: bytes
  outlog :: "bytes list"
  c_serial :: "32 word"
  uniqueName :: string

type_synonym peer = "bytes list \<Rightarrow> bytes option"

datatype call_err =
    EncodeErr msg_err
  | WriteErr
  | ReadErr msg_err
  | CallError string "gval list"
  | OutErr dbus_err
  | DialErr string
  | AuthErr string
  | HelloErr call_err

definition conn_write :: "peer \<Rightarrow> conn \<Rightarrow> bytes \<Rightarrow> bool \<times> conn" where
  "conn_write peer c msg =
     (let c' = c\<lparr>outlog := outlog c @ [msg]\<rparr> in
      case peer (outlog c') of
        None \<Rightarrow> (False, c')
      | Some resp \<Rightarrow> (True, c'\<lparr>inbuf := inbuf c @ resp\<rparr>))"

definition nextSerial :: "conn \<Rightarrow> 32 word \<times> conn" where
  "nextSerial c = (c_serial c + 1, c\<lparr>c_serial := c_serial c + 1\<rparr>)"

text \<open>The reply loop of \<open>Call\<close>, on the unread bytes.\<close>

fun awaitReply :: "nat \<Rightarrow> 32 word \<Rightarrow> string \<Rightarrow> ptr list \<Rightarrow> bytes
    \<Rightarrow> ((call_err, ptr list) outcome \<times> bytes) option" where
  "awaitReply 0 ser outSig dest r = None"
| "awaitReply (Suc fuel) ser outSig dest r = (case readMessage fuel r of
     None \<Rightarrow> None
   | Some (Panic, r') \<Rightarrow> Some (Panic, r')
   | Some (Err e, r') \<Rightarrow> Some (Err (ReadErr e), r')
   | Some (Ok reply, r') \<Rightarrow>
       if m_replySerial reply \<noteq> ser then awaitReply fuel ser outSig dest r'
       else if m_type reply = msgTypeError then
         Some (Err (CallError (m_errorName reply) (m_body reply)), r')
       else if outSig = [] then Some (Ok dest, r')
       else Some (omap_err OutErr (decodeInto (m_body reply) outSig dest), r'))"

definition Call :: "nat \<Rightarrow> peer \<Rightarrow> conn \<Rightarrow> string \<Rightarrow> string \<Rightarrow> string \<Rightarrow> string \<Rightarrow> string \<Rightarrow> gval list
    \<Rightarrow> string \<Rightarrow> ptr list \<Rightarrow> ((call_err, ptr list) outcome \<times> conn) option" where
  "Call fuel peer c0 destination path iface meth inSig args outSig dest =
     (case nextSerial c0 of (ser, c) \<Rightarrow>
      case encodeMethodCall ser destination path iface meth inSig args of
        Panic \<Rightarrow> Some (Panic, c)
      | Err e \<Rightarrow> Some (Err (EncodeErr e), c)
      | Ok msg \<Rightarrow>
        (case conn_write peer c msg of
           (False, c1) \<Rightarrow> Some (Err WriteErr, c1)
         | (True, c1) \<Rightarrow>
             map_option (\<lambda>(res, r). (res, c1\<lparr>inbuf := r\<rparr>)) (awaitReply fuel ser outSig dest (inbuf c1))))"

text \<open>\<open>bufio.Reader.ReadString('\n')\<close>: up to and including the newline, or an error at the end.\<close>

fun readLine :: "bytes \<Rightarrow> (bytes \<times> bytes) option" where
  "readLine [] = None"
| "readLine (b # r) = (if b = 10 then Some ([b], r) else
     (case readLine r of None \<Rightarrow> None | Some (l, r') \<Rightarrow> Some (b # l, r')))"

definition authenticate :: "peer \<Rightarrow> int \<Rightarrow> conn \<Rightarrow> (call_err, conn) outcome" where
  "authenticate peer uid c =
     (case conn_write peer c [0] of
        (False, _) \<Rightarrow> Err (AuthErr ''write NUL'')
      | (True, c1) \<Rightarrow>
        (case conn_write peer c1
                (bytes_of (''AUTH EXTERNAL '' @ hex_encode (show_int uid) @ [CHR 0x0D, CHR 0x0A])) of
           (False, _) \<Rightarrow> Err (AuthErr ''write AUTH'')
         | (True, c2) \<Rightarrow>
           (case readLine (inbuf c2) of
              None \<Rightarrow> Err (AuthErr ''read reply'')
            | Some (line, r) \<Rightarrow>
              if length line < 2 \<or> string_of (take 2 line) \<noteq> ''OK'' then Err (AuthErr ''rejected'')
              else
              (case conn_write peer (c2\<lparr>inbuf := r\<rparr>) (bytes_of (''BEGIN'' @ [CHR 0x0D, CHR 0x0A])) of
                 (False, _) \<Rightarrow> Err (AuthErr ''write BEGIN'')
               | (True, c3) \<Rightarrow> Ok c3))))"

text \<open>
  \<open>Dial\<close>: the socket \<open>connect\<close> result and the process uid are parameters; a failure closes the
  socket, so no connection is returned.
\<close>

definition Dial :: "nat \<Rightarrow> peer \<Rightarrow> bool \<Rightarrow> int \<Rightarrow> string \<Rightarrow> (call_err, conn) outcome option" where
  "Dial fuel peer reachable uid socketPath =
     (if \<not> reachable then Some (Err (DialErr socketPath))
      else case authenticate peer uid \<lparr>inbuf = [], outlog = [], c_serial = 0, uniqueName = []\<rparr> of
        Panic \<Rightarrow> Some Panic
      | Err e \<Rightarrow> Some (Err e)
      | Ok c \<Rightarrow>
        (case Call fuel peer c ''org.freedesktop.DBus'' ''/org/freedesktop/DBus''
                ''org.freedesktop.DBus'' ''Hello'' [] [] ''s'' [PString []] of
           None \<Rightarrow> None
         | Some (Panic, _) \<Rightarrow> Some Panic
         | Some (Err e, _) \<Rightarrow> Some (Err (HelloErr e))
         | Some (Ok [PString name], c') \<Rightarrow> Some (Ok (c'\<lparr>uniqueName := name\<rparr>))
         | Some (Ok _, c') \<Rightarrow> Some (Ok c')))"

definition systemBusAddress :: string where
  "systemBusAddress = ''/run/dbus/system_bus_socket''"

definition SystemBus :: "nat \<Rightarrow> peer \<Rightarrow> bool \<Rightarrow> int \<Rightarrow> (call_err, conn) outcome option" where
  "SystemBus fuel peer reachable uid = Dial fuel peer reachable uid systemBusAddress"

end
