(* ===== verification/DBus_Decode.thy ===== *)
theory DBus_Decode
  imports DBus_Roundtrip
begin

text \<open>
  The decoder of \<^verbatim>\<open>internal/dbus/marshal.go\<close> on arbitrary input: more fuel never changes a
  result, the cursor never leaves the buffer and never moves back, every complete type
  consumes input, and decoding a type without variants always finishes without a panic.
\<close>

section \<open>More fuel never changes a result\<close>

text \<open>The flat order: an unfinished run is below every run.\<close>

definition flat_le :: "'a option \<Rightarrow> 'a option \<Rightarrow> bool" where
  "flat_le m m' \<longleftrightarrow> m = None \<or> m = m'"

lemma flat_le_refl [intro!, simp]: "flat_le m m"
  by (simp add: flat_le_def)

lemma flat_le_None [intro!, simp]: "flat_le None m"
  by (simp add: flat_le_def)

lemma flat_le_SomeD: "flat_le m m' \<Longrightarrow> m = Some x \<Longrightarrow> m' = Some x"
  by (auto simp: flat_le_def)

lemma flat_le_fbind [intro!]:
  "flat_le m m' \<Longrightarrow> (\<And>x. flat_le (f x) (f' x)) \<Longrightarrow> flat_le (fbind m f) (fbind m' f')"
  unfolding flat_le_def[of m m'] by (cases "(m, f)" rule: fbind.cases) auto

lemma flat_le_fwrap [intro!]: "flat_le m m' \<Longrightarrow> flat_le (fwrap w m) (fwrap w m')"
  by (auto simp: flat_le_def)

lemma decode_mono_all:
  "n \<le> m \<Longrightarrow>
    (\<forall>d sig. flat_le (decodeValue n d sig) (decodeValue m d sig)) \<and>
    (\<forall>d rst out. flat_le (decodeStruct n d rst out) (decodeStruct m d rst out)) \<and>
    (\<forall>d sig. flat_le (decodeArray n d sig) (decodeArray m d sig)) \<and>
    (\<forall>d es stop. flat_le (decodeArrayElements n d es stop) (decodeArrayElements m d es stop)) \<and>
    (\<forall>d ks vs stop out. flat_le (decodeDict n d ks vs stop out) (decodeDict m d ks vs stop out)) \<and>
    (\<forall>d es stop out. flat_le (decodeItems n d es stop out) (decodeItems m d es stop out))"
proof (induction n arbitrary: m)
  case 0
  then show ?case
    by (simp add: decodeValue.simps decodeStruct.simps decodeArray.simps decodeArrayElements.simps
        decodeDict.simps decodeItems.simps)
next
  case (Suc n)
  then obtain m' where m: "m = Suc m'" and "n \<le> m'" by (cases m) auto
  note IH = Suc.IH[OF \<open>n \<le> m'\<close>]
  have v: "flat_le (decodeValue n d sig) (decodeValue m' d sig)"
    and s: "flat_le (decodeStruct n d rst out) (decodeStruct m' d rst out)"
    and a: "flat_le (decodeArray n d sig) (decodeArray m' d sig)"
    and e: "flat_le (decodeArrayElements n d es stop) (decodeArrayElements m' d es stop)"
    and k: "flat_le (decodeDict n d ks vs stop kvs) (decodeDict m' d ks vs stop kvs)"
    and i: "flat_le (decodeItems n d es stop out) (decodeItems m' d es stop out)"
    for d sig rst out es stop ks vs kvs
    using IH by blast+
  show ?case
    unfolding m
  proof (intro conjI allI)
    show "flat_le (decodeValue (Suc n) d sig) (decodeValue (Suc m') d sig)" for d sig
      unfolding decodeValue.simps(2) by (auto simp: v a s split: list.split)
    show "flat_le (decodeStruct (Suc n) d rst out) (decodeStruct (Suc m') d rst out)" for d rst out
      unfolding decodeStruct.simps(2) by (auto simp: v s)
    show "flat_le (decodeArray (Suc n) d sig) (decodeArray (Suc m') d sig)" for d sig
      unfolding decodeArray.simps(2) Let_def by (auto simp: e)
    show "flat_le (decodeArrayElements (Suc n) d es stop) (decodeArrayElements (Suc m') d es stop)"
      for d es stop
      unfolding decodeArrayElements.simps(2) by (auto simp: k i split: list.split)
    show "flat_le (decodeDict (Suc n) d ks vs stop out) (decodeDict (Suc m') d ks vs stop out)"
      for d ks vs stop out
      unfolding decodeDict.simps(2) by (auto simp: v k split: gval.split)
    show "flat_le (decodeItems (Suc n) d es stop out) (decodeItems (Suc m') d es stop out)"
      for d es stop out
      unfolding decodeItems.simps(2) by (auto simp: v i)
  qed
qed

lemma decodeValue_mono: "decodeValue n d sig = Some x \<Longrightarrow> n \<le> m \<Longrightarrow> decodeValue m d sig = Some x"
  by (rule decode_mono_all[THEN conjunct1, rule_format, THEN flat_le_SomeD])

lemma decodeArrayElements_mono:
  "decodeArrayElements n d es stop = Some x \<Longrightarrow> n \<le> m \<Longrightarrow> decodeArrayElements m d es stop = Some x"
  by (rule decode_mono_all[THEN conjunct2, THEN conjunct2, THEN conjunct2, THEN conjunct1,
        rule_format, THEN flat_le_SomeD])

section \<open>The cursor stays inside the buffer\<close>

definition moves :: "decoder \<Rightarrow> decoder \<Rightarrow> bool" where
  "moves d d' \<longleftrightarrow> buf d' = buf d \<and> pos d \<le> pos d' \<and> (wf_dec d \<longrightarrow> wf_dec d')"

lemma moves_refl [simp, intro]: "moves d d"
  by (simp add: moves_def)

lemma moves_trans [trans]: "moves d d' \<Longrightarrow> moves d' d'' \<Longrightarrow> moves d d''"
  by (auto simp: moves_def)

lemma need_Ok: "need n d = Ok u \<longleftrightarrow> pos d + n \<le> length (buf d)"
  by (auto simp: need_def)

lemma moves_adv: "need n d = Ok u \<Longrightarrow> moves d (d\<lparr>pos := pos d + n\<rparr>)"
  by (auto simp: moves_def need_Ok wf_dec_def)

lemma moves_alignD: "alignD n d = Ok d' \<Longrightarrow> moves d d'"
proof (induction n d rule: alignD.induct)
  case (1 n d)
  show ?case
  proof (cases "0 < n \<and> pos d mod n \<noteq> 0")
    case True
    with 1 have lt: "pos d < length (buf d)" and "moves (d\<lparr>pos := Suc (pos d)\<rparr>) d'"
      by (auto simp: alignD.simps[of n d] split: if_splits)
    then show ?thesis by (auto simp: moves_def wf_dec_def)
  next
    case False
    with 1 show ?thesis by (auto simp: alignD.simps[of n d])
  qed
qed

lemma moves_get:
  "getByte d = Ok (b, d') \<Longrightarrow> moves d d' \<and> pos d < pos d'"
  "getUint16 d = Ok (w, d') \<Longrightarrow> moves d d' \<and> pos d < pos d'"
  "getUint32 d = Ok (x, d') \<Longrightarrow> moves d d' \<and> pos d < pos d'"
  "getUint64 d = Ok (y, d') \<Longrightarrow> moves d d' \<and> pos d < pos d'"
  by (fastforce simp: getByte_def getUint16_def getUint32_def getUint64_def outcome_simps moves_def
      need_Ok wf_dec_def dest!: moves_alignD)+

lemma moves_text:
  "getStringLike d = Ok (s, d') \<Longrightarrow> moves d d' \<and> pos d < pos d'"
  "getSignature d = Ok (s, d') \<Longrightarrow> moves d d' \<and> pos d < pos d'"
  by (fastforce simp: getStringLike_def getSignature_def outcome_simps moves_def need_Ok wf_dec_def
      dest!: moves_get)+

lemma box_eq_Ok [outcome_simps]:
  "box f m = Some (Ok (v, d)) \<longleftrightarrow> (\<exists>x. m = Ok (x, d) \<and> v = f x)"
  by (auto simp: box_def outcome_simps)

lemma case_key_Ok [outcome_simps]:
  "(case kv of VString k \<Rightarrow> f k | _ \<Rightarrow> Some (Err e)) = Some (Ok y) \<longleftrightarrow>
   (\<exists>k. kv = VString k \<and> f k = Some (Ok y))"
  by (cases kv) auto

lemma decode_moves_all:
  "(\<forall>d sig v d'. decodeValue n d sig = Some (Ok (v, d')) \<longrightarrow> moves d d') \<and>
   (\<forall>d rst out v d'. decodeStruct n d rst out = Some (Ok (v, d')) \<longrightarrow> moves d d') \<and>
   (\<forall>d sig v d'. decodeArray n d sig = Some (Ok (v, d')) \<longrightarrow> moves d d') \<and>
   (\<forall>d es stop v d'. decodeArrayElements n d es stop = Some (Ok (v, d')) \<longrightarrow> moves d d') \<and>
   (\<forall>d ks vs stop out v d'. decodeDict n d ks vs stop out = Some (Ok (v, d')) \<longrightarrow> moves d d') \<and>
   (\<forall>d es stop out v d'. decodeItems n d es stop out = Some (Ok (v, d')) \<longrightarrow> moves d d')"
proof (induction n)
  case 0
  then show ?case
    by (simp add: decodeValue.simps decodeStruct.simps decodeArray.simps decodeArrayElements.simps
        decodeDict.simps decodeItems.simps)
next
  case (Suc n)
  have v: "decodeValue n d sig = Some (Ok (x, d')) \<Longrightarrow> moves d d'"
    and s: "decodeStruct n d rst out = Some (Ok (x, d')) \<Longrightarrow> moves d d'"
    and a: "decodeArray n d sig = Some (Ok (x, d')) \<Longrightarrow> moves d d'"
    and e: "decodeArrayElements n d es stop = Some (Ok (x, d')) \<Longrightarrow> moves d d'"
    and k: "decodeDict n d ks vs stop kvs = Some (Ok (x, d')) \<Longrightarrow> moves d d'"
    and i: "decodeItems n d es stop out = Some (Ok (x, d')) \<Longrightarrow> moves d d'"
    for d sig rst out es stop ks vs kvs x d'
    using Suc.IH by metis+
  show ?case
  proof (intro conjI allI impI)
    show "moves d d'" if "decodeValue (Suc n) d sig = Some (Ok (x, d'))" for d sig x d'
      using that unfolding decodeValue.simps(2)
      by (auto simp: outcome_simps split: list.splits if_splits
          dest!: moves_get moves_text v s a moves_alignD intro: moves_trans)
    show "moves d d'" if "decodeStruct (Suc n) d rst out = Some (Ok (x, d'))" for d rst out x d'
      using that unfolding decodeStruct.simps(2)
      by (auto simp: outcome_simps split: if_splits dest!: v s intro: moves_trans)
    show "moves d d'" if "decodeArray (Suc n) d sig = Some (Ok (x, d'))" for d sig x d'
      using that unfolding decodeArray.simps(2) Let_def
      by (auto simp: outcome_simps dest!: e moves_get moves_alignD intro: moves_trans)
    show "moves d d'" if "decodeArrayElements (Suc n) d es stop = Some (Ok (x, d'))" for d es stop x d'
      using that unfolding decodeArrayElements.simps(2)
      by (auto simp: outcome_simps split: list.splits if_splits dest!: k i)
    show "moves d d'" if "decodeDict (Suc n) d ks vs stop out = Some (Ok (x, d'))" for d ks vs stop out x d'
      using that unfolding decodeDict.simps(2)
      by (auto simp: outcome_simps split: if_splits dest!: v k moves_alignD intro: moves_trans)
    show "moves d d'" if "decodeItems (Suc n) d es stop out = Some (Ok (x, d'))" for d es stop out x d'
      using that unfolding decodeItems.simps(2)
      by (auto simp: outcome_simps split: if_splits dest!: v i intro: moves_trans)
  qed
qed

lemma decodeValue_moves: "decodeValue n d sig = Some (Ok (v, d')) \<Longrightarrow> moves d d'"
  using decode_moves_all by metis

lemma decodeStruct_moves: "decodeStruct n d rst out = Some (Ok (v, d')) \<Longrightarrow> moves d d'"
  using decode_moves_all by metis

lemma decodeArrayElements_moves: "decodeArrayElements n d es stop = Some (Ok (v, d')) \<Longrightarrow> moves d d'"
  using decode_moves_all by metis

section \<open>Every complete type consumes input\<close>

lemma decodeArray_progress: "decodeArray n d sig = Some (Ok (v, d')) \<Longrightarrow> pos d < pos d'"
  by (cases n)
    (fastforce simp: decodeArray.simps Let_def outcome_simps moves_def
      dest!: moves_get(3) moves_alignD decodeArrayElements_moves)+

lemma decodeValue_basic:
  "decodeValue (Suc n) d ''y'' = box VByte (getByte d)"
  "decodeValue (Suc n) d ''b'' = box (\<lambda>v. VBool (v \<noteq> 0)) (getUint32 d)"
  "decodeValue (Suc n) d ''n'' = box VInt16 (getUint16 d)"
  "decodeValue (Suc n) d ''q'' = box VUint16 (getUint16 d)"
  "decodeValue (Suc n) d ''i'' = box VInt32 (getUint32 d)"
  "decodeValue (Suc n) d ''u'' = box VUint32 (getUint32 d)"
  "decodeValue (Suc n) d ''x'' = box VInt64 (getUint64 d)"
  "decodeValue (Suc n) d ''t'' = box VUint64 (getUint64 d)"
  "decodeValue (Suc n) d ''d'' = box VFloat64 (getUint64 d)"
  "decodeValue (Suc n) d ''s'' = box VString (getStringLike d)"
  "decodeValue (Suc n) d ''o'' = box VString (getStringLike d)"
  "decodeValue (Suc n) d ''g'' = box VString (getSignature d)"
  by (simp_all add: decodeValue.simps)

lemma decodeValue_SucD: "decodeValue n d sig = Some x \<Longrightarrow> \<exists>m. n = Suc m"
  by (cases n) (simp_all add: decodeValue.simps)

lemma decodeValue_progress:
  "wf_type t \<Longrightarrow> decodeValue n d (sig_of t) = Some (Ok (v, d')) \<Longrightarrow> pos d < pos d'"
proof (induction t arbitrary: n d v d')
  case TVariant
  then obtain m s d1 x where s: "getSignature d = Ok (s, d1)"
    and x: "decodeValue m d1 s = Some (Ok (x, d'))"
    by (cases n) (auto simp: decodeValue.simps outcome_simps)
  then show ?case using moves_text(2)[OF s] decodeValue_moves[OF x] by (auto simp: moves_def)
next
  case (TArray t)
  then show ?case
    by (cases n) (auto simp: decodeValue.simps dest: decodeArray_progress)
next
  case (TDict k t)
  then show ?case
    by (cases n) (auto simp: decodeValue.simps dest: decodeArray_progress)
next
  case (TStruct ts)
  then obtain t us where ts: "ts = t # us" by (cases ts) auto
  from TStruct.prems(2) obtain n' d1 where d1: "alignD 8 d = Ok d1"
    and st: "decodeStruct n' d1 (sigs_of ts) [] = Some (Ok (v, d'))"
    using inner_sig_struct[of ts] by (cases n) (auto simp: decodeValue.simps outcome_simps)
  from st obtain m v1 d2 where v1: "decodeValue m d1 (sig_of t) = Some (Ok (v1, d2))"
    and rs: "decodeStruct m d2 (sigs_of us) [v1] = Some (Ok (v, d'))"
    by (cases n') (auto simp: ts decodeStruct.simps splitSig_sig_of outcome_simps)
  have "pos d1 < pos d2"
    using TStruct.prems(1) v1 by (intro TStruct.IH[of t]) (auto simp: ts)
  then show ?case
    using moves_alignD[OF d1] decodeStruct_moves[OF rs] by (auto simp: moves_def)
qed (frule decodeValue_SucD, auto simp: decodeValue_basic outcome_simps dest: moves_get moves_text)+

section \<open>Decoding a type without variants finishes\<close>

fun no_variant :: "dtype \<Rightarrow> bool" where
  "no_variant TVariant = False"
| "no_variant (TArray t) = no_variant t"
| "no_variant (TDict k t) = (no_variant k \<and> no_variant t)"
| "no_variant (TStruct ts) = (\<forall>t\<in>set ts. no_variant t)"
| "no_variant _ = True"

text \<open>Fuel for one value of a type from a buffer of \<open>L\<close> bytes.\<close>

fun tfuel :: "nat \<Rightarrow> dtype \<Rightarrow> nat" where
  "tfuel L (TArray t) = L + 4 + tfuel L t"
| "tfuel L (TDict k t) = L + 4 + tfuel L k + tfuel L t"
| "tfuel L (TStruct ts) = 2 + sum_list (map (\<lambda>t. Suc (tfuel L t)) ts)"
| "tfuel L _ = 1"

definition finishes :: "('e, 'a) outcome option \<Rightarrow> bool" where
  "finishes m \<longleftrightarrow> m \<noteq> None \<and> m \<noteq> Some Panic"

lemma finishes_fbind [intro!]:
  "finishes m \<Longrightarrow> (\<And>x. m = Some (Ok x) \<Longrightarrow> finishes (f x)) \<Longrightarrow> finishes (fbind m f)"
  by (cases "(m, f)" rule: fbind.cases) (auto simp: finishes_def)

lemma finishes_simps [simp]:
  "finishes (Some r) \<longleftrightarrow> r \<noteq> Panic" "finishes (fwrap w m) \<longleftrightarrow> finishes m"
  by (auto simp: finishes_def outcome_simps fwrap_def)

lemma need_not_Panic [simp]: "need n d \<noteq> Panic"
  by (simp add: need_def)

lemma alignD_not_Panic [simp]: "alignD n d \<noteq> Panic"
  by (induction n d rule: alignD.induct) (subst alignD.simps, auto)

lemma get_not_Panic [simp]:
  "getByte d \<noteq> Panic" "getUint16 d \<noteq> Panic" "getUint32 d \<noteq> Panic" "getUint64 d \<noteq> Panic"
  by (simp_all add: getByte_def getUint16_def getUint32_def getUint64_def outcome_simps)

lemma text_not_Panic [simp]: "getStringLike d \<noteq> Panic" "getSignature d \<noteq> Panic"
  by (auto simp: getStringLike_def getSignature_def outcome_simps)

lemma finishes_box [simp]: "m \<noteq> Panic \<Longrightarrow> finishes (box f m)"
  by (auto simp: box_def outcome_simps)

text \<open>The loops finish when every element does and every element moves the cursor.\<close>

lemma decodeItems_finishes:
  assumes el: "\<And>d fuel. wf_dec d \<Longrightarrow> length (buf d) = L \<Longrightarrow> F \<le> fuel \<Longrightarrow> finishes (decodeValue fuel d es)"
    and pr: "\<And>n d v d'. decodeValue n d es = Some (Ok (v, d')) \<Longrightarrow> pos d < pos d'"
  shows "wf_dec d \<Longrightarrow> length (buf d) = L \<Longrightarrow> Suc (L - pos d + F) \<le> fuel \<Longrightarrow>
    finishes (decodeItems fuel d es stop out)"
proof (induction fuel arbitrary: d out)
  case (Suc n)
  have "finishes (decodeItems n d1 es stop out')" if "decodeValue n d es = Some (Ok (v, d1))" for v d1 out'
    using pr[OF that] decodeValue_moves[OF that] Suc.prems
    by (intro Suc.IH) (auto simp: moves_def wf_dec_def)
  moreover have "finishes (decodeValue n d es)" using Suc.prems by (intro el) auto
  ultimately show ?case by (auto simp: decodeItems.simps outcome_simps)
qed simp

lemma decodeDict_finishes:
  assumes key: "\<And>d fuel. wf_dec d \<Longrightarrow> length (buf d) = L \<Longrightarrow> F \<le> fuel \<Longrightarrow> finishes (decodeValue fuel d ks)"
    and el: "\<And>d fuel. wf_dec d \<Longrightarrow> length (buf d) = L \<Longrightarrow> F \<le> fuel \<Longrightarrow> finishes (decodeValue fuel d vs)"
    and pr: "\<And>n d v d'. decodeValue n d ks = Some (Ok (v, d')) \<Longrightarrow> pos d < pos d'"
  shows "wf_dec d \<Longrightarrow> length (buf d) = L \<Longrightarrow> Suc (L - pos d + F) \<le> fuel \<Longrightarrow>
    finishes (decodeDict fuel d ks vs stop out)"
proof (induction fuel arbitrary: d out)
  case (Suc n)
  have "finishes (decodeDict n d3 ks vs stop out')"
    if "alignD 8 d = Ok d1" "decodeValue n d1 ks = Some (Ok (kv, d2))"
      "decodeValue n d2 vs = Some (Ok (v, d3))" for d1 kv d2 v d3 out'
    using moves_alignD[OF that(1)] pr[OF that(2)] decodeValue_moves[OF that(2)]
      decodeValue_moves[OF that(3)] Suc.prems
    by (intro Suc.IH) (auto simp: moves_def wf_dec_def)
  moreover have "finishes (decodeValue n d1 ks)" if "alignD 8 d = Ok d1" for d1
    using moves_alignD[OF that] Suc.prems by (intro key) (auto simp: moves_def)
  moreover have "finishes (decodeValue n d2 vs)"
    if "alignD 8 d = Ok d1" "decodeValue n d1 ks = Some (Ok (kv, d2))" for d1 kv d2
    using moves_alignD[OF that(1)] decodeValue_moves[OF that(2)] Suc.prems
    by (intro el) (auto simp: moves_def)
  ultimately show ?case
    by (auto simp: decodeDict.simps outcome_simps split: gval.split)
qed simp

lemma decodeStruct_finishes:
  assumes "\<And>t d fuel. t \<in> set ts \<Longrightarrow> wf_dec d \<Longrightarrow> length (buf d) = L \<Longrightarrow> tfuel L t \<le> fuel \<Longrightarrow>
      finishes (decodeValue fuel d (sig_of t))"
  shows "wf_dec d \<Longrightarrow> length (buf d) = L \<Longrightarrow> Suc (sum_list (map (\<lambda>t. Suc (tfuel L t)) ts)) \<le> fuel \<Longrightarrow>
    finishes (decodeStruct fuel d (sigs_of ts) out)"
  using assms
proof (induction ts arbitrary: fuel d out)
  case Nil
  then show ?case by (cases fuel) (auto simp: decodeStruct.simps)
next
  case (Cons t ts)
  then obtain n where n: "fuel = Suc n" by (cases fuel) auto
  have "finishes (decodeValue n d (sig_of t))"
    using Cons.prems n by (intro Cons.prems(4)) auto
  moreover have "finishes (decodeStruct n d1 (sigs_of ts) out')"
    if "decodeValue n d (sig_of t) = Some (Ok (v, d1))" for v d1 out'
    using decodeValue_moves[OF that] Cons.prems n
    by (intro Cons.IH Cons.prems(4)) (auto simp: moves_def)
  ultimately show ?case by (auto simp: n decodeStruct.simps splitSig_sig_of outcome_simps)
qed

lemma decodeArray_finishes:
  assumes "es \<noteq> []" and "wf_dec d" "length (buf d) = L"
    and "\<And>d2 stop. wf_dec d2 \<Longrightarrow> length (buf d2) = L \<Longrightarrow> finishes (decodeArrayElements n d2 es stop)"
  shows "finishes (decodeArray (Suc n) d (c # es))"
proof -
  obtain a where a: "alignmentOf es = Ok a" using alignmentOf_ok[OF assms(1)] by auto
  have "finishes (decodeArrayElements n d2 es stop)"
    if "getUint32 d = Ok (len, d1)" "alignD a d1 = Ok d2" for len d1 d2 stop
    using moves_get(3)[OF that(1)] moves_alignD[OF that(2)] assms(2,3)
    by (intro assms(4)) (auto simp: moves_def)
  then show ?thesis by (auto simp: decodeArray.simps Let_def a outcome_simps)
qed

lemma decodeValue_finishes:
  "wf_type t \<Longrightarrow> no_variant t \<Longrightarrow> wf_dec d \<Longrightarrow> length (buf d) = L \<Longrightarrow> tfuel L t \<le> fuel \<Longrightarrow>
   finishes (decodeValue fuel d (sig_of t))"
proof (induction t arbitrary: d fuel)
  case (TArray t)
  obtain n where n: "fuel = Suc (Suc (Suc n))" "Suc (L + tfuel L t) \<le> n"
    using TArray.prems(5) by (intro that[of "fuel - 3"]) auto
  have "finishes (decodeArrayElements (Suc n) d2 (sig_of t) stop)"
    if "wf_dec d2" "length (buf d2) = L" for d2 stop
  proof -
    have "finishes (decodeItems n d2 (sig_of t) stop [])"
      using that n TArray.prems
      by (intro decodeItems_finishes[where F = "tfuel L t" and L = L] TArray.IH)
        (auto dest: decodeValue_progress)
    then show ?thesis
      using hd_sig_of_not_brace[of t] by (cases "sig_of t") (auto simp: decodeArrayElements.simps)
  qed
  then show ?case
    using TArray.prems decodeArray_finishes[of "sig_of t" d L "Suc n"]
    by (simp add: n decodeValue.simps)
next
  case (TDict k t)
  obtain n where n: "fuel = Suc (Suc (Suc n))" "Suc (L + (tfuel L k + tfuel L t)) \<le> n"
    using TDict.prems(5) by (intro that[of "fuel - 3"]) auto
  have k: "wf_type k" using TDict.prems(1) by auto
  let ?es = "CHR ''{'' # sig_of k @ sig_of t @ ''}''"
  have "finishes (decodeArrayElements (Suc n) d2 ?es stop)"
    if "wf_dec d2" "length (buf d2) = L" for d2 stop
  proof -
    have "finishes (decodeDict n d2 (sig_of k) (sig_of t) stop [])"
      using that n k TDict.prems
      by (intro decodeDict_finishes[where F = "tfuel L k + tfuel L t" and L = L] TDict.IH)
        (auto dest: decodeValue_progress)
    then show ?thesis
      using splitDictEntry_dict[of k t] by (simp add: decodeArrayElements.simps)
  qed
  then show ?case
    using TDict.prems decodeArray_finishes[of ?es d L "Suc n"]
    by (simp add: n decodeValue.simps)
next
  case (TStruct ts)
  obtain n where n: "fuel = Suc n" "Suc (sum_list (map (\<lambda>t. Suc (tfuel L t)) ts)) \<le> n"
    using TStruct.prems(5) by (cases fuel) auto
  have "finishes (decodeStruct n d1 (sigs_of ts) [])" if "alignD 8 d = Ok d1" for d1
    using moves_alignD[OF that] TStruct.prems n
    by (intro decodeStruct_finishes[where L = L] TStruct.IH) (auto simp: moves_def)
  then show ?case
    using inner_sig_struct[of ts] by (auto simp: n decodeValue.simps)
qed (auto simp: decodeValue_basic Suc_le_eq gr0_conv_Suc)

end
