(* ===== verification/DBus_Calls.thy ===== *)
theory DBus_Calls
  imports DBus_Message DBus_Decode
begin

text \<open>
  Method calls end to end: a message the client builds is read back exactly, whatever follows
  it on the stream, and \<open>Call\<close> returns the reply that carries its serial, skipping the others.
\<close>

section \<open>The body\<close>

lemma args_codec:
  assumes "list_all2 wt ts args"
  shows "\<exists>bs. encodeArgs inSig na i e (sigs_of ts) args = Ok (e @ bs) \<and> (ts \<noteq> [] \<longrightarrow> bs \<noteq> []) \<and>
    (length bs < 2 ^ 32 \<longrightarrow> (\<forall>fuel d post out. items_fuel args \<le> fuel \<longrightarrow> cursor_at d (length e) bs post
      \<longrightarrow> decodeBody fuel d (sigs_of ts) out = Some (Ok (out @ map norm args))))"
  using assms
proof (induction ts args arbitrary: i e rule: list_all2_induct)
  case Nil
  show ?case
    by (auto simp: encodeArgs.simps items_fuel_def Suc_le_eq dest!: gr0_implies_Suc)
next
  case (Cons t ts v vs)
  obtain b1 where enc1: "encodeValue e (sig_of t) v = Ok (e @ b1)" and ne: "b1 \<noteq> []"
    and rb1: "reads_back (length e) b1 (4 * gsize v) (\<lambda>fuel d. decodeValue fuel d (sig_of t)) (norm v)"
    using wt_codec[OF Cons.hyps(1)] by (rule codecE)
  obtain b2 where enc2: "encodeArgs inSig na (Suc i) (e @ b1) (sigs_of ts) vs = Ok ((e @ b1) @ b2)"
    and rb2: "\<And>fuel d post out. length b2 < 2 ^ 32 \<Longrightarrow> items_fuel vs \<le> fuel \<Longrightarrow>
      cursor_at d (length (e @ b1)) b2 post \<Longrightarrow>
      decodeBody fuel d (sigs_of ts) out = Some (Ok (out @ map norm vs))"
    using Cons.IH[of "Suc i" "e @ b1"] by blast
  have "decodeBody fuel d (sigs_of (t # ts)) out = Some (Ok (out @ map norm (v # vs)))"
    if len: "length (b1 @ b2) < 2 ^ 32" and f: "items_fuel (v # vs) \<le> fuel"
      and d: "cursor_at d (length e) (b1 @ b2) post" for fuel d post out
  proof -
    obtain n where n: "fuel = Suc n" using f by (cases fuel) (auto simp: items_fuel_def)
    have "decodeValue n d (sig_of t) = Some (Ok (norm v, adv (length b1) d))"
      using len f n cursor_at_first[OF d] by (intro reads_backD[OF rb1]) (auto simp: items_fuel_def)
    moreover have "decodeBody n (adv (length b1) d) (sigs_of ts) (out @ [norm v])
        = Some (Ok ((out @ [norm v]) @ map norm vs))"
      using len f n cursor_at_next[OF d] by (intro rb2) (auto simp: items_fuel_def)
    ultimately show ?thesis by (simp add: n splitSig_sig_of)
  qed
  then show ?case
    using enc1 enc2 ne
    by (intro exI[of _ "b1 @ b2"]) (simp add: encodeArgs.simps[of inSig na i e] splitSig_sig_of)
qed

section \<open>Framing\<close>

text \<open>The bytes of a little-endian message with the given header-field and body bytes.\<close>

definition framed :: "byte \<Rightarrow> byte \<Rightarrow> 32 word \<Rightarrow> bytes \<Rightarrow> bytes \<Rightarrow> bytes" where
  "framed mt flags ser fieldsB bodyB =
     [byte_of_char (CHR ''l''), mt, flags, 1] @ le32 (word_of_nat (length bodyB)) @ le32 ser
     @ le32 (word_of_nat (length fieldsB)) @ fieldsB
     @ replicate (pad 8 (16 + length fieldsB)) 0 @ bodyB"

lemma readFull_append: "length b = n \<Longrightarrow> readFull n (b @ r) = (Some b, r)"
  by (simp add: readFull_def)

lemma discard_append: "discard n (replicate n x @ r) = (True, r)"
  by (simp add: discard_def)

lemma readMessage_framed:
  assumes "length fieldsB < 2 ^ 32" "length bodyB < 2 ^ 32"
  shows "readMessage fuel (framed mt flags ser fieldsB bodyB @ r)
    = map_option (\<lambda>res. (res, r)) (decodeMessage fuel mt fieldsB bodyB)"
proof -
  define fixed where "fixed = [byte_of_char (CHR ''l''), mt, flags, 1]
    @ le32 (word_of_nat (length bodyB)) @ le32 ser"
  define lenB where "lenB = le32 (word_of_nat (length fieldsB))"
  define padB where "padB = replicate (pad 8 (16 + length fieldsB)) (0 :: byte)"
  have parts: "length fixed = 12" "fixed ! 0 = byte_of_char (CHR ''l'')" "fixed ! Suc 0 = mt"
    "un_le (take 4 (drop 4 fixed)) = (word_of_nat (length bodyB) :: 32 word)"
    "length lenB = 4" "un_le lenB = (word_of_nat (length fieldsB) :: 32 word)"
    by (simp_all add: fixed_def lenB_def)
  have w: "unat (word_of_nat (length bodyB) :: 32 word) = length bodyB"
    "unat (word_of_nat (length fieldsB) :: 32 word) = length fieldsB"
    using assms by (auto intro!: unat_of_length)
  have split: "framed mt flags ser fieldsB bodyB @ r = fixed @ lenB @ fieldsB @ padB @ bodyB @ r"
    by (simp add: framed_def fixed_def lenB_def padB_def)
  have "discard 0 s = (True, s)" "discard (pad 8 (16 + length fieldsB)) (padB @ s) = (True, s)"
    for s :: bytes
    by (simp_all add: discard_def padB_def)
  then show ?thesis
    unfolding readMessage_def split
    by (simp add: readFull_append parts w Let_def)
qed

section \<open>Whole messages\<close>

lemma wt_headerField:
  "wt (TStruct [TByte, TVariant]) (headerField code ''s'' (VString x))"
  "wt (TStruct [TByte, TVariant]) (headerField code ''o'' (VString x))"
  "length x < 256 \<Longrightarrow> wt (TStruct [TByte, TVariant]) (headerField code ''g'' (VString x))"
  unfolding headerField_def
  using wt_variant[OF _ _ wt_string[of x]] wt_variant[OF _ _ wt_path[of x]]
    wt_variant[OF _ _ wt_signature[of x]]
  by (auto intro!: wt_struct wt_byte)

lemma wt_headerFields:
  "length inSig < 256 \<Longrightarrow> v \<in> set (headerFields destination path iface meth inSig) \<Longrightarrow>
   wt (TStruct [TByte, TVariant]) v"
  by (auto simp: headerFields_def wt_headerField split: if_splits)

lemma norm_headerFields:
  "map norm (headerFields destination path iface meth inSig) = headerFields destination path iface meth inSig"
  by (simp add: headerFields_def headerField_def)

lemma gsize_headerFields: "gsize (VSlice (headerFields destination path iface meth inSig)) \<le> 36"
  by (simp add: headerFields_def headerField_def)

lemma fold_headerFields:
  "fold (\<lambda>item m. applyField m item) (headerFields destination path iface meth inSig)
     \<lparr>m_type = mt, m_replySerial = 0, m_errorName = [], m_signature = [], m_body = []\<rparr>
   = \<lparr>m_type = mt, m_replySerial = 0, m_errorName = [], m_signature = inSig, m_body = []\<rparr>"
  by (simp add: headerFields_def headerField_def applyField_def field_codes)

text \<open>What \<open>encodeMethodCall\<close> writes is a framed message, and its fields decode to themselves.\<close>

lemma encodeMethodCall_framed:
  assumes "encodeArgs inSig (length args) 0 [] inSig args = Ok bodyB" and sig: "length inSig < 256"
  obtains fieldsB where
    "encodeMethodCall ser destination path iface meth inSig args
      = Ok (framed msgTypeMethodCall 0 ser fieldsB bodyB)"
    "length fieldsB < 2 ^ 32 \<Longrightarrow> 144 \<le> fuel \<Longrightarrow>
      decodeArrayElements fuel \<lparr>buf = fieldsB, pos = 0\<rparr> ''(yv)'' (length fieldsB)
        = Some (Ok (VSlice (headerFields destination path iface meth inSig),
            \<lparr>buf = fieldsB, pos = length fieldsB\<rparr>))"
proof -
  let ?fs = "headerFields destination path iface meth inSig"
  let ?t = "TStruct [TByte, TVariant]"
  let ?h0 = "[byte_of_char (CHR ''l''), msgTypeMethodCall, 0, 1]"
  let ?h2 = "putUint32 (putUint32 ?h0 (word_of_nat (length bodyB))) ser"
  have h2: "?h2 = ?h0 @ le32 (word_of_nat (length bodyB)) @ le32 ser"
    by (simp add: u32.put_written written_int_def)
  have a: "alignmentOf (sig_of ?t) = Ok 8" "(8::nat) \<in> {1, 2, 4, 8}" by (simp_all add: alignmentOf_def)
  have slice: "toAnySlice (VSlice ?fs) = Ok ?fs" by (simp add: toAnySlice_def)
  have el: "codec (sig_of ?t) v" if "v \<in> set ?fs" for v
    using wt_headerFields[OF sig that] by (rule wt_codec)
  obtain bs where enc: "encodeArray ?h2 (CHR ''a'' # sig_of ?t) (VSlice ?fs)
        = Ok (?h2 @ written_array 8 (length ?h2) bs)"
    and rb: "reads_back (length ?h2 + length (written_array 8 (length ?h2) bs) - length bs) bs
      (4 * gsize (VSlice ?fs) - 2)
      (\<lambda>fuel d. decodeArrayElements fuel d (sig_of ?t) (pos d + length bs)) (norm (VSlice ?fs))"
    using array_items_bytes[OF slice el a, of ?h2] by blast
  have wa: "written_array 8 (length ?h2) bs = le32 (word_of_nat (length bs)) @ bs"
    by (simp add: h2 written_array_def written_int_def Let_def)
  show thesis
  proof (rule that)
    show "encodeMethodCall ser destination path iface meth inSig args
        = Ok (framed msgTypeMethodCall 0 ser bs bodyB)"
      using assms(1) enc wa
      by (simp add: encodeMethodCall_def encodeValue.simps[of ?h2] Let_def align_eq)
        (simp add: h2 framed_def)
    assume len: "length bs < 2 ^ 32" and f: "144 \<le> fuel"
    have "cursor_at \<lparr>buf = bs, pos = 0\<rparr> (length ?h2 + length (written_array 8 (length ?h2) bs) - length bs) bs []"
      by (simp add: cursor_at_def wf_dec_def remaining_def wa) (simp add: h2)
    moreover have "4 * gsize (VSlice ?fs) - 2 \<le> fuel"
      using f gsize_headerFields[of destination path iface meth inSig] by simp
    ultimately show "decodeArrayElements fuel \<lparr>buf = bs, pos = 0\<rparr> ''(yv)'' (length bs)
        = Some (Ok (VSlice ?fs, \<lparr>buf = bs, pos = length bs\<rparr>))"
      using reads_backD[OF rb _ len, of "\<lparr>buf = bs, pos = 0\<rparr>" "[]" fuel]
      by (simp add: norm_headerFields adv_def)
  qed
qed

lemma encodeMethodCall_read_back:
  assumes args: "list_all2 wt ts args" and sig: "length (sigs_of ts) < 256"
    and enc: "encodeMethodCall ser destination path iface meth (sigs_of ts) args = Ok msg"
    and len: "length msg < 2 ^ 32" and fuel: "144 + items_fuel args \<le> fuel"
  shows "readMessage fuel (msg @ r) = Some (Ok \<lparr>m_type = msgTypeMethodCall, m_replySerial = 0,
    m_errorName = [], m_signature = sigs_of ts, m_body = map norm args\<rparr>, r)"
proof -
  obtain bodyB where b: "encodeArgs (sigs_of ts) (length args) 0 [] (sigs_of ts) args = Ok bodyB"
    and ne: "ts \<noteq> [] \<Longrightarrow> bodyB \<noteq> []"
    and rb: "\<And>fuel d post out. length bodyB < 2 ^ 32 \<Longrightarrow> items_fuel args \<le> fuel \<Longrightarrow>
      cursor_at d 0 bodyB post \<Longrightarrow> decodeBody fuel d (sigs_of ts) out = Some (Ok (out @ map norm args))"
    using args_codec[OF args, of "sigs_of ts" "length args" 0 "[]"]
    by (metis append_Nil list.size(3))
  obtain fieldsB where msg: "msg = framed msgTypeMethodCall 0 ser fieldsB bodyB"
    and fb: "length fieldsB < 2 ^ 32 \<Longrightarrow> 144 \<le> fuel \<Longrightarrow>
      decodeArrayElements fuel \<lparr>buf = fieldsB, pos = 0\<rparr> ''(yv)'' (length fieldsB)
        = Some (Ok (VSlice (headerFields destination path iface meth (sigs_of ts)),
            \<lparr>buf = fieldsB, pos = length fieldsB\<rparr>))"
    using encodeMethodCall_framed[OF b sig, of ser destination path iface meth fuel] enc
    by (metis outcome.inject(1))
  have lens: "length fieldsB < 2 ^ 32" "length bodyB < 2 ^ 32"
    using len by (simp_all add: msg framed_def)
  have body: "decodeBody fuel \<lparr>buf = bodyB, pos = 0\<rparr> (sigs_of ts) [] = Some (Ok (map norm args))"
    using rb[OF lens(2), of fuel "\<lparr>buf = bodyB, pos = 0\<rparr>" "[]" "[]"] fuel
    by (simp add: cursor_at_def wf_dec_def remaining_def)
  have "decodeMessage fuel msgTypeMethodCall fieldsB bodyB = Some (Ok \<lparr>m_type = msgTypeMethodCall,
      m_replySerial = 0, m_errorName = [], m_signature = sigs_of ts, m_body = map norm args\<rparr>)"
  proof (cases "ts = []")
    case True
    then have "args = []" using args by simp
    with True show ?thesis
      using fb lens fuel by (simp add: decodeMessage_def fold_headerFields Let_def)
  next
    case False
    then show ?thesis
      using fb lens fuel body ne by (simp add: decodeMessage_def fold_headerFields Let_def)
  qed
  then show ?thesis using readMessage_framed[OF lens] by (simp add: msg)
qed

section \<open>Waiting for the reply\<close>

lemma flat_le_fmap_err [intro!]: "flat_le m m' \<Longrightarrow> flat_le (fmap_err w m) (fmap_err w m')"
  by (auto simp: flat_le_def)

lemma flat_le_map_option [intro!]: "flat_le m m' \<Longrightarrow> flat_le (map_option f m) (map_option f m')"
  by (auto simp: flat_le_def)

lemma decodeBody_mono: "n \<le> m \<Longrightarrow> flat_le (decodeBody n d rst out) (decodeBody m d rst out)"
proof (induction n arbitrary: m d rst out)
  case (Suc n)
  then obtain m' where "m = Suc m'" "n \<le> m'" by (cases m) auto
  then show ?case
    using Suc.IH decode_mono_all[of n m'] by auto
qed simp

lemma decodeMessage_mono:
  "n \<le> m \<Longrightarrow> flat_le (decodeMessage n mt fb bb) (decodeMessage m mt fb bb)"
  using decode_mono_all[of n m] decodeBody_mono[of n m]
  unfolding decodeMessage_def Let_def by auto

lemma readMessage_mono:
  "readMessage n r = Some x \<Longrightarrow> n \<le> m \<Longrightarrow> readMessage m r = Some x"
proof -
  assume "readMessage n r = Some x" "n \<le> m"
  moreover have "flat_le (readMessage n r) (readMessage m r)"
    using decodeMessage_mono[OF \<open>n \<le> m\<close>]
    by (auto simp: readMessage_def Let_def split: prod.split option.split bool.split)
  ultimately show ?thesis using flat_le_SomeD by metis
qed

lemma readFull_shorter: "readFull n r = (b, r') \<Longrightarrow> length r' \<le> length r - (if b = None then 0 else n)"
  by (auto simp: readFull_def split: if_splits)

lemma discard_shorter: "discard n r = (b, r') \<Longrightarrow> length r' \<le> length r"
  by (auto simp: discard_def split: if_splits)

text \<open>A message that was read took its fixed header off the stream.\<close>

lemma readMessage_consumes:
  "readMessage n r = Some (Ok m, r') \<Longrightarrow> length r' < length r"
proof -
  assume a: "readMessage n r = Some (Ok m, r')"
  obtain f r1 where f: "readFull 12 r = (Some f, r1)"
    using a by (auto simp: readMessage_def split: prod.splits option.splits)
  then have "length r1 < length r" by (auto simp: readFull_def split: if_splits)
  moreover have "length r' \<le> length r1"
    using a f
    by (auto simp: readMessage_def Let_def split: prod.splits option.splits bool.splits if_splits
        dest!: readFull_shorter discard_shorter)
  ultimately show ?thesis by simp
qed

text \<open>
  \<open>skips n ser r r'\<close>: the stream \<open>r\<close> starts with messages that answer other serials, and
  \<open>r'\<close> is what follows them.
\<close>

inductive skips :: "nat \<Rightarrow> 32 word \<Rightarrow> bytes \<Rightarrow> bytes \<Rightarrow> bool" for n ser where
  skips_none: "skips n ser r r"
| skips_one: "readMessage n r = Some (Ok m, r1) \<Longrightarrow> m_replySerial m \<noteq> ser \<Longrightarrow>
    skips n ser r1 r' \<Longrightarrow> skips n ser r r'"

lemma skips_mono: "skips n ser r r' \<Longrightarrow> n \<le> m \<Longrightarrow> skips m ser r r'"
proof (induction rule: skips.induct)
  case (skips_one r msg r1 r')
  then show ?case using readMessage_mono[OF skips_one.hyps(1)] by (auto intro: skips.skips_one)
qed (rule skips.skips_none)

text \<open>What \<open>Call\<close> makes of the reply that carries its serial.\<close>

definition replyResult :: "rawMessage \<Rightarrow> string \<Rightarrow> ptr list \<Rightarrow> (call_err, ptr list) outcome" where
  "replyResult reply outSig dest =
     (if m_type reply = msgTypeError then Err (CallError (m_errorName reply) (m_body reply))
      else if outSig = [] then Ok dest
      else omap_err OutErr (decodeInto (m_body reply) outSig dest))"

lemma awaitReply_own:
  assumes "skips n ser r r'" and "readMessage n r' = Some (Ok reply, r'')"
    and "m_replySerial reply = ser"
  shows "Suc (n + length r) \<le> fuel \<Longrightarrow>
    awaitReply fuel ser outSig dest r = Some (replyResult reply outSig dest, r'')"
  using assms
proof (induction arbitrary: fuel rule: skips.induct)
  case (skips_none r)
  then obtain k where "fuel = Suc k" "n \<le> k" by (cases fuel) auto
  then show ?case
    using skips_none readMessage_mono[OF skips_none.prems(2), of k] by (simp add: replyResult_def)
next
  case (skips_one r m r1 r')
  then obtain k where k: "fuel = Suc k" "n \<le> k" "Suc (n + length r1) \<le> k"
    using readMessage_consumes[OF skips_one.hyps(1)] by (cases fuel) auto
  then have "readMessage k r = Some (Ok m, r1)" using skips_one.hyps(1) readMessage_mono by blast
  then show ?case
    using skips_one k by simp
qed

text \<open>Conversely, a result other than a read failure comes from a message with that serial.\<close>

lemma awaitReply_only_own:
  assumes "awaitReply fuel ser outSig dest r = Some (res, r'')"
  shows "(\<exists>e. res = Err (ReadErr e)) \<or> res = Panic \<or>
    (\<exists>n r' reply. skips n ser r r' \<and> readMessage n r' = Some (Ok reply, r'') \<and>
       m_replySerial reply = ser \<and> res = replyResult reply outSig dest)"
  using assms
proof (induction fuel arbitrary: r)
  case (Suc k)
  show ?case
  proof (cases "\<exists>m r1. readMessage k r = Some (Ok m, r1)")
    case True
    then obtain m r1 where m: "readMessage k r = Some (Ok m, r1)" by blast
    show ?thesis
    proof (cases "m_replySerial m = ser")
      case True
      with m Suc.prems have "res = replyResult m outSig dest" "r'' = r1"
        by (auto simp: replyResult_def split: if_splits)
      then show ?thesis using m True skips_none by blast
    next
      case False
      with m Suc.prems have aw: "awaitReply k ser outSig dest r1 = Some (res, r'')" by simp
      have "skips (max n k) ser r r'" if "skips n ser r1 r'" for n r'
        using readMessage_mono[OF m, of "max n k"] skips_mono[OF that, of "max n k"] False
        by (auto intro: skips.skips_one)
      then have step: "\<exists>n r' reply. skips n ser r r' \<and> readMessage n r' = Some (Ok reply, r'') \<and>
          m_replySerial reply = ser \<and> res = replyResult reply outSig dest"
        if "skips n ser r1 r'" "readMessage n r' = Some (Ok reply, r'')"
          "m_replySerial reply = ser" "res = replyResult reply outSig dest" for n r' reply
        using that readMessage_mono[OF that(2), of "max n k"] by (metis max.cobounded1)
      show ?thesis using Suc.IH[OF aw] step by blast
    qed
  next
    case False
    then show ?thesis using Suc.prems by (auto split: option.splits prod.splits outcome.splits)
  qed
qed simp

section \<open>How long a call can get\<close>

lemma headerField_length:
  assumes "s \<in> {''o'', ''s'', ''g''}"
  shows "encodeValue e ''(yv)'' (headerField c s (VString x)) = Ok e' \<Longrightarrow>
    length e' \<le> length e + length x + 20"
  using assms pad_less[of 8 "length e"]
    pad_less[of 4 "Suc (Suc (Suc (Suc (length e + pad 8 (length e)))))"]
  by (auto simp: headerField_def encodeValue.simps encodeStruct.simps inner_sig_def putSignature_def
     putStringLike_def putUint32_def align_eq)

lemma headerFields_length:
  assumes "\<And>v. v \<in> set fs \<Longrightarrow> \<exists>c s x. s \<in> {''o'', ''s'', ''g''} \<and> length x \<le> n \<and> v = headerField c s (VString x)"
  shows "encodeItems i ''(yv)'' e fs = Ok e' \<Longrightarrow> length e' \<le> length e + length fs * (n + 20)"
  using assms
proof (induction fs arbitrary: i e)
  case (Cons v fs)
  from Cons.prems(1) obtain e1 where e1: "encodeValue e ''(yv)'' v = Ok e1"
    and rst: "encodeItems (Suc i) ''(yv)'' e1 fs = Ok e'"
    by (auto simp: outcome_simps)
  have "length e1 \<le> length e + (n + 20)"
    using Cons.prems(2)[of v] headerField_length e1 by fastforce
  then show ?case using Cons.IH[OF rst] Cons.prems(2) by fastforce
qed simp

lemma headerFields_members:
  assumes "length destination \<le> n" "length path \<le> n" "length iface \<le> n" "length meth \<le> n" "length inSig \<le> n"
    and "v \<in> set (headerFields destination path iface meth inSig)"
  shows "\<exists>c s x. s \<in> {''o'', ''s'', ''g''} \<and> length x \<le> n \<and> v = headerField c s (VString x)"
  using assms by (simp add: headerFields_def split: if_splits) blast+

lemma encodeMethodCall_length:
  assumes "encodeArgs inSig (length args) 0 [] inSig args = Ok body"
    and "encodeMethodCall ser destination path iface meth inSig args = Ok msg"
    and "length destination \<le> n" "length path \<le> n" "length iface \<le> n" "length meth \<le> n" "length inSig \<le> n"
  shows "length msg \<le> 5 * n + 127 + length body"
proof -
  let ?fs = "headerFields destination path iface meth inSig"
  let ?h = "putUint32 (putUint32 [byte_of_char (CHR ''l''), msgTypeMethodCall, 0, 1] (word_of_nat (length body))) ser"
  have h: "length ?h = 12" by (simp add: putUint32_def align_eq)
  from assms(1,2) obtain e3 where it: "encodeItems 0 ''(yv)'' (align 8 (putUint32 ?h 0)) ?fs = Ok e3"
    and msg: "msg = align 8 (patch32 e3 (length (putUint32 ?h 0) - 4) (word_of_nat (length e3 - length (align 8 (putUint32 ?h 0))))) @ body"
    by (auto simp: encodeMethodCall_def outcome_simps Let_def encodeValue.simps[of _ "''a(yv)''"] encodeArray.simps
       alignmentOf_def toAnySlice_def omap_err_eq_Ok split: if_splits)
  have p: "length (putUint32 ?h 0) = 16" "length (align 8 (putUint32 ?h 0)) = 16"
    using h by (simp_all add: putUint32_def align_eq)
  have "length e3 \<le> 16 + length ?fs * (n + 20)"
    using headerFields_length[OF headerFields_members it, OF assms(3-)] p by simp
  moreover have "length ?fs \<le> 5" by (simp add: headerFields_def)
  then have "length ?fs * (n + 20) \<le> 5 * (n + 20)" by (rule mult_le_mono1)
  ultimately have e3: "length e3 \<le> 5 * n + 116" by simp
  let ?q = "patch32 e3 12 (word_of_nat (length e3 - 16))"
  have "length ?q \<le> 5 * n + 116" using e3 by (simp add: patch32_def)
  moreover have "msg = ?q @ replicate (pad 8 (length ?q)) 0 @ body" using msg p by (simp add: align_eq)
  ultimately show ?thesis using pad_less[of 8 "length ?q"] by simp
qed

end
