(* ===== verification/DBus_Spec.thy ===== *)
theory DBus_Spec
  imports DBus_Calls
begin

text \<open>
  What the D-Bus client of \<^verbatim>\<open>internal/dbus\<close> promises, as statements over its definitions:
  round trips of values and messages, correlation of calls with replies, the behaviour of the
  decoder on bytes it does not control, and the inputs on which it loops or panics.
\<close>

section \<open>Shared facts\<close>

lemma codec_value:
  assumes "codec sig v"
  shows "\<exists>e'. encodeValue e sig v = Ok e' \<and> (length e' < 2 ^ 32 \<longrightarrow> 4 * gsize v \<le> fuel \<longrightarrow>
    decodeValue fuel \<lparr>buf = e' @ post, pos = length e\<rparr> sig
      = Some (Ok (norm v, \<lparr>buf = e' @ post, pos = length e'\<rparr>)))"
proof -
  obtain bs where enc: "encodeValue e sig v = Ok (e @ bs)"
    and rb: "reads_back (length e) bs (4 * gsize v) (\<lambda>fuel d. decodeValue fuel d sig) (norm v)"
    using assms by (rule codecE)
  have "cursor_at \<lparr>buf = (e @ bs) @ post, pos = length e\<rparr> (length e) bs post"
    by (simp add: cursor_at_def wf_dec_def remaining_def)
  then show ?thesis
    using enc reads_backD[OF rb] by (intro exI[of _ "e @ bs"]) (simp add: adv_def)
qed

lemma readFull_SomeD: "readFull n x = (Some b, y) \<Longrightarrow> n \<le> length x \<and> b = take n x \<and> y = drop n x"
  by (auto simp: readFull_def split: if_splits)

lemma discard_TrueD: "discard n x = (True, y) \<Longrightarrow> n \<le> length x \<and> y = drop n x"
  by (auto simp: discard_def split: if_splits)

lemma readMessage_OkE:
  assumes "readMessage fuel r = Some (Ok m, r')"
  obtains fixed r1 lenBuf r2 fieldsBuf r4 r5 bodyBuf where
    "readFull 12 r = (Some fixed, r1)" "fixed ! 0 = byte_of_char (CHR ''l'')"
    "readFull 4 r1 = (Some lenBuf, r2)"
    "readFull (unat (un_le lenBuf :: 32 word)) r2 = (Some fieldsBuf, r4)"
    "discard (pad 8 (16 + unat (un_le lenBuf :: 32 word))) r4 = (True, r5)"
    "readFull (unat (un_le (take 4 (drop 4 fixed)) :: 32 word)) r5 = (Some bodyBuf, r')"
    "decodeMessage fuel (fixed ! 1) fieldsBuf bodyBuf = Some (Ok m)"
proof -
  have d0: "discard 0 x = (True, x)" for x by (simp add: discard_def)
  have p: "pad 8 16 = 0" by simp
  show thesis
    using assms that
    unfolding readMessage_def Let_def p d0
    by (auto split: prod.splits option.splits bool.splits if_splits)
qed
text \<open>One run of \<open>Call\<close> whose request is encoded and written.\<close>

lemma Call_written:
  assumes "encodeMethodCall (c_serial c + 1) destination path iface meth inSig args = Ok msg"
    and "peer (outlog c @ [msg]) = Some resp"
  shows "Call fuel peer c destination path iface meth inSig args outSig dest
    = map_option (\<lambda>(res, r). (res, c\<lparr>inbuf := r, outlog := outlog c @ [msg], c_serial := c_serial c + 1\<rparr>))
        (awaitReply fuel (c_serial c + 1) outSig dest (inbuf c @ resp))"
  using assms by (cases c) (simp add: Call_def nextSerial_def conn_write_def Let_def)

text \<open>What a successful write and a successful call leave in the connection.\<close>

lemma conn_write_TrueD:
  "conn_write peer c msg = (True, c') \<Longrightarrow> outlog c' = outlog c @ [msg] \<and> c_serial c' = c_serial c"
  by (auto simp: conn_write_def Let_def split: option.splits)

lemma Call_Ok_sent:
  "Call fuel peer c destination path iface meth inSig args outSig dest = Some (Ok ps, c') \<Longrightarrow>
   c_serial c' = c_serial c + 1 \<and>
   (\<exists>msg. encodeMethodCall (c_serial c + 1) destination path iface meth inSig args = Ok msg \<and>
     outlog c' = outlog c @ [msg])"
  by (auto simp: Call_def nextSerial_def split: outcome.splits prod.splits bool.splits
      dest!: conn_write_TrueD)

lemma authenticate_Ok_sent:
  "authenticate peer uid c = Ok c' \<Longrightarrow> c_serial c' = c_serial c \<and>
   outlog c' = outlog c @ [[0], bytes_of (''AUTH EXTERNAL '' @ hex_encode (show_int uid) @ [CHR 0x0D, CHR 0x0A]),
     bytes_of (''BEGIN'' @ [CHR 0x0D, CHR 0x0A])]"
  unfolding authenticate_def
  by (auto split: prod.splits bool.splits option.splits if_splits dest!: conn_write_TrueD)

section \<open>Values\<close>

text \<open>C1: Every well-typed value is encoded without an error, and decoding the bytes written for
  it, at the offset they were written and whatever follows them, gives the value back (typed
  slices as \<open>[]any\<close>) with the cursor right behind them.\<close>

theorem value_round_trip:
  assumes "wt t v" and "4 * gsize v \<le> fuel"
  shows "\<exists>e'. encodeValue e (sig_of t) v = Ok e' \<and> (length e' < 2 ^ 32 \<longrightarrow>
    decodeValue fuel \<lparr>buf = e' @ post, pos = length e\<rparr> (sig_of t)
      = Some (Ok (norm v, \<lparr>buf = e' @ post, pos = length e'\<rparr>)))"
  using codec_value[OF wt_codec[OF assms(1)], of e fuel post] assms(2) by blast

theorem value_round_trip_witness:
  "encodeValue [] ''(su)'' (VSlice [VString ''hi'', VUint32 7]) = Ok [2, 0, 0, 0, 104, 105, 0, 0, 7, 0, 0, 0] \<and>
   decodeValue 24 \<lparr>buf = [2, 0, 0, 0, 104, 105, 0, 0, 7, 0, 0, 0, 9], pos = 0\<rparr> ''(su)''
     = Some (Ok (VSlice [VString ''hi'', VUint32 7],
         \<lparr>buf = [2, 0, 0, 0, 104, 105, 0, 0, 7, 0, 0, 0, 9], pos = 12\<rparr>))"
proof -
  have wt: "wt (TStruct [TString, TUint32]) (VSlice [VString ''hi'', VUint32 7])"
    by (auto intro!: wt_struct wt_string wt_uint32)
  have enc: "encodeValue [] ''(su)'' (VSlice [VString ''hi'', VUint32 7])
      = Ok [2, 0, 0, 0, 104, 105, 0, 0, 7, 0, 0, 0]"
    by code_simp
  from value_round_trip[OF wt, of 24 "[]" "[9]"] show ?thesis by (simp add: enc)
qed

section \<open>Signatures\<close>

text \<open>C23: \<open>splitSig\<close> takes exactly one complete type off a sequence of printed types, and on any
  signature at all the two parts it returns concatenate to its argument, the first of them
  non-empty; it never panics.\<close>

theorem splitSig_complete:
  "splitSig (sigs_of (t # ts)) = Ok (sig_of t, sigs_of ts)
   \<and> splitSig sig \<noteq> Panic
   \<and> (splitSig sig = Ok (first, rest) \<longrightarrow> first @ rest = sig \<and> first \<noteq> [])"
  using splitSig_sigs_of splitSig_not_Panic splitSig_append by blast

theorem splitSig_complete_witness:
  "splitSig (''a{sv}'' @ ''u'') = Ok (''a{sv}'', ''u'') \<and> splitSig ''a(yv)s'' \<noteq> Panic \<and>
   ''a(yv)'' @ ''s'' = ''a(yv)s'' \<and> ''a(yv)'' \<noteq> []"
  using splitSig_complete[of "TDict TString TVariant" "[TUint32]" "''a(yv)s''" "''a(yv)''" "''s''"]
  by simp

section \<open>Messages\<close>

text \<open>C4: A method call built by \<open>encodeMethodCall\<close> from well-typed arguments is read back by
  \<open>readMessage\<close> as exactly that call: its type, its signature and its arguments, leaving
  every byte that follows it on the stream unread.\<close>

theorem message_round_trip:
  assumes "list_all2 wt ts args" and "length (sigs_of ts) < 256"
    and "encodeMethodCall ser destination path iface meth (sigs_of ts) args = Ok msg"
    and "length msg < 2 ^ 32" and "144 + items_fuel args \<le> fuel"
  shows "readMessage fuel (msg @ r) = Some (Ok \<lparr>m_type = msgTypeMethodCall, m_replySerial = 0,
    m_errorName = [], m_signature = sigs_of ts, m_body = map norm args\<rparr>, r)"
  using assms by (rule encodeMethodCall_read_back)

text \<open>A small call, for the witness: method \<open>m\<close> with one string argument.\<close>

theorem message_round_trip_witness:
  "\<exists>msg. encodeMethodCall 1 ''d'' ''/p'' ''i'' ''m'' ''s'' [VString ''x''] = Ok msg \<and>
    readMessage 200 (msg @ [1, 2]) = Some (Ok \<lparr>m_type = msgTypeMethodCall, m_replySerial = 0,
      m_errorName = [], m_signature = ''s'', m_body = [VString ''x'']\<rparr>, [1, 2])"
proof -
  have a: "list_all2 wt [TString] [VString ''x'']" by (auto intro: wt_string)
  have b: "encodeArgs ''s'' (length [VString ''x'']) 0 [] ''s'' [VString ''x''] = Ok [1, 0, 0, 0, 120, 0]"
    by code_simp
  obtain fieldsB where e: "encodeMethodCall 1 ''d'' ''/p'' ''i'' ''m'' ''s'' [VString ''x'']
      = Ok (framed msgTypeMethodCall 0 1 fieldsB [1, 0, 0, 0, 120, 0])" (is "_ = Ok ?msg")
    by (rule encodeMethodCall_framed[OF b]) auto
  have l: "length ?msg < 2 ^ 32"
    using encodeMethodCall_length[OF b e, of 2] by simp
  have f: "144 + items_fuel [VString ''x''] \<le> 200" by (simp add: items_fuel_def)
  have s: "''s'' = sigs_of [TString]" by simp
  show ?thesis
    using message_round_trip[OF a _ e[unfolded s] l f, of "[1, 2]"] e by simp
qed

text \<open>Whatever bytes arrive, a message that \<open>readMessage\<close> returns was cut off the stream by the
  lengths in its own header: exactly the fixed part, the fields, the padding to eight and the
  body are consumed.\<close>

theorem readMessage_frame:
  assumes "readMessage fuel r = Some (Ok m, r')"
  shows "\<exists>fieldsLen bodyLen. bodyLen = unat (un_le (take 4 (drop 4 r)) :: 32 word) \<and>
    fieldsLen = unat (un_le (take 4 (drop 12 r)) :: 32 word) \<and>
    16 + fieldsLen + pad 8 (16 + fieldsLen) + bodyLen \<le> length r \<and>
    r' = drop (16 + fieldsLen + pad 8 (16 + fieldsLen) + bodyLen) r \<and>
    r ! 0 = byte_of_char (CHR ''l'')"
proof -
  obtain fixed r1 lenBuf r2 fieldsBuf r4 r5 bodyBuf where
    e: "readFull 12 r = (Some fixed, r1)" "readFull 4 r1 = (Some lenBuf, r2)"
      "readFull (unat (un_le lenBuf :: 32 word)) r2 = (Some fieldsBuf, r4)"
      "discard (pad 8 (16 + unat (un_le lenBuf :: 32 word))) r4 = (True, r5)"
      "readFull (unat (un_le (take 4 (drop 4 fixed)) :: 32 word)) r5 = (Some bodyBuf, r')"
    and l: "fixed ! 0 = byte_of_char (CHR ''l'')"
    using assms by (rule readMessage_OkE)
  note s = e(1-3)[THEN readFull_SomeD] e(4)[THEN discard_TrueD] e(5)[THEN readFull_SomeD]
  have "take 4 (drop 4 fixed) = take 4 (drop 4 r)" using s(1) by (simp add: drop_take)
  moreover have "lenBuf = take 4 (drop 12 r)" using s(1,2) by simp
  ultimately show ?thesis using s l by (auto simp: add_ac)
qed

theorem readMessage_frame_witness:
  "\<exists>fieldsLen bodyLen. bodyLen = unat (un_le [0, 0, 0, 0] :: 32 word) \<and>
    fieldsLen = unat (un_le [8, 0, 0, 0] :: 32 word) \<and>
    16 + fieldsLen + pad 8 (16 + fieldsLen) + bodyLen \<le> 26 \<and>
    [1, 2] = drop (16 + fieldsLen + pad 8 (16 + fieldsLen) + bodyLen)
      [108, 2, 1, 1, 0, 0, 0, 0, 9, 0, 0, 0, 8, 0, 0, 0, 5, 1, 117, 0, 1, 0, 0, 0, 1, 2 :: byte] \<and>
    (108 :: byte) = byte_of_char (CHR ''l'')"
proof -
  have "readMessage 20 [108, 2, 1, 1, 0, 0, 0, 0, 9, 0, 0, 0, 8, 0, 0, 0, 5, 1, 117, 0, 1, 0, 0, 0, 1, 2]
      = Some (Ok \<lparr>m_type = 2, m_replySerial = 1, m_errorName = [], m_signature = [], m_body = []\<rparr>, [1, 2])"
    by code_simp
  from readMessage_frame[OF this] show ?thesis by simp
qed

section \<open>Calls\<close>

text \<open>C3: \<open>Call\<close> sends one message and returns what the first message carrying its serial says,
  an error reply as \<open>CallError\<close>, however many signals and other replies come before it; it
  consumes exactly the stream up to the end of that reply and keeps what follows for the next
  call.\<close>

theorem Call_returns_own_reply:
  assumes "encodeMethodCall (c_serial c + 1) destination path iface meth inSig args = Ok msg"
    and "peer (outlog c @ [msg]) = Some resp"
    and "skips n (c_serial c + 1) (inbuf c @ resp) r'"
    and "readMessage n r' = Some (Ok reply, r'')" and "m_replySerial reply = c_serial c + 1"
    and "Suc (n + length (inbuf c @ resp)) \<le> fuel"
  shows "Call fuel peer c destination path iface meth inSig args outSig dest
    = Some (replyResult reply outSig dest,
        c\<lparr>inbuf := r'', outlog := outlog c @ [msg], c_serial := c_serial c + 1\<rparr>)"
  using Call_written[where peer = peer, OF assms(1,2)] awaitReply_own[OF assms(3-5,6)] by simp

text \<open>The witness: a stale signal is in the buffer, then the reply to serial 1 arrives.\<close>

definition demo_signal :: bytes where
  "demo_signal = [108, 4, 0, 1, 0, 0, 0, 0, 9, 0, 0, 0, 0, 0, 0, 0]"

definition demo_reply :: bytes where
  "demo_reply = [108, 2, 1, 1, 0, 0, 0, 0, 9, 0, 0, 0, 8, 0, 0, 0, 5, 1, 117, 0, 1, 0, 0, 0]"

definition demo_conn :: conn where
  "demo_conn = \<lparr>inbuf = demo_signal, outlog = [], c_serial = 0, uniqueName = []\<rparr>"

lemma demo_messages:
  "readMessage 20 (demo_signal @ demo_reply) = Some (Ok \<lparr>m_type = 4, m_replySerial = 0,
     m_errorName = [], m_signature = [], m_body = []\<rparr>, demo_reply)"
  "readMessage 20 demo_reply = Some (Ok \<lparr>m_type = 2, m_replySerial = 1,
     m_errorName = [], m_signature = [], m_body = []\<rparr>, [])"
  by code_simp+

lemma demo_request:
  obtains msg where "encodeMethodCall 1 ''d'' ''/p'' ''i'' ''m'' [] [] = Ok msg"
  by (rule encodeMethodCall_framed[of "[]" "[]" "[]"]) (auto simp: encodeArgs.simps)

theorem Call_returns_own_reply_witness:
  "\<exists>msg. Call 80 (\<lambda>_. Some demo_reply) demo_conn ''d'' ''/p'' ''i'' ''m'' [] [] [] []
    = Some (Ok [], \<lparr>inbuf = [], outlog = [msg], c_serial = 1, uniqueName = []\<rparr>)"
proof -
  obtain msg where msg: "encodeMethodCall (c_serial demo_conn + 1) ''d'' ''/p'' ''i'' ''m'' [] [] = Ok msg"
    using demo_request by (auto simp: demo_conn_def)
  have sk: "skips 20 (c_serial demo_conn + 1) (inbuf demo_conn @ demo_reply) demo_reply"
    using demo_messages(1) by (auto simp: demo_conn_def intro: skips.intros)
  have len: "length (demo_signal @ demo_reply) = 40" by (simp add: demo_signal_def demo_reply_def)
  show ?thesis
    using Call_returns_own_reply[where peer = "\<lambda>_. Some demo_reply", OF msg refl sk demo_messages(2), of 80 "[]" "[]"] len
    by (auto simp: demo_conn_def replyResult_def msgTypeError_def)
qed

text \<open>C21: Conversely, once its request is written, a call that comes back with a value or a remote
  error got it from a message on the stream that carries exactly its serial; every other
  outcome is a failure to read a message.\<close>

theorem Call_only_own_reply:
  assumes "encodeMethodCall (c_serial c + 1) destination path iface meth inSig args = Ok msg"
    and "peer (outlog c @ [msg]) = Some resp"
    and "Call fuel peer c destination path iface meth inSig args outSig dest = Some (res, c')"
  shows "(\<exists>e. res = Err (ReadErr e)) \<or> res = Panic \<or>
    (\<exists>n r' reply. skips n (c_serial c + 1) (inbuf c @ resp) r' \<and>
       readMessage n r' = Some (Ok reply, inbuf c') \<and> m_replySerial reply = c_serial c + 1 \<and>
       res = replyResult reply outSig dest)"
proof -
  obtain r where "awaitReply fuel (c_serial c + 1) outSig dest (inbuf c @ resp) = Some (res, r)"
    and "inbuf c' = r"
    using assms(3) unfolding Call_written[where peer = peer, OF assms(1,2)] by auto
  then show ?thesis using awaitReply_only_own by metis
qed

theorem Call_only_own_reply_witness:
  "\<exists>n r' reply. skips n 1 (demo_signal @ demo_reply) r' \<and> readMessage n r' = Some (Ok reply, []) \<and>
     m_replySerial reply = 1 \<and> Ok [] = replyResult reply [] []"
proof -
  obtain msg where msg: "encodeMethodCall (c_serial demo_conn + 1) ''d'' ''/p'' ''i'' ''m'' [] [] = Ok msg"
    using demo_request by (auto simp: demo_conn_def)
  have sk: "skips 20 (c_serial demo_conn + 1) (inbuf demo_conn @ demo_reply) demo_reply"
    using demo_messages(1) by (auto simp: demo_conn_def intro: skips.intros)
  have len: "length (demo_signal @ demo_reply) = 40" by (simp add: demo_signal_def demo_reply_def)
  have aw: "awaitReply 80 (c_serial demo_conn + 1) [] [] (inbuf demo_conn @ demo_reply) = Some (Ok [], [])"
    using awaitReply_own[OF sk demo_messages(2), of 80 "[]" "[]"] len
    by (simp add: demo_conn_def replyResult_def msgTypeError_def)
  have "Call 80 (\<lambda>_. Some demo_reply) demo_conn ''d'' ''/p'' ''i'' ''m'' [] [] [] []
      = Some (Ok [], demo_conn\<lparr>inbuf := [], outlog := outlog demo_conn @ [msg], c_serial := c_serial demo_conn + 1\<rparr>)"
    using Call_written[OF msg, of "\<lambda>_. Some demo_reply" demo_reply 80 "[]" "[]"] aw by simp
  from Call_only_own_reply[where peer = "\<lambda>_. Some demo_reply", OF msg refl this] show ?thesis by (simp add: demo_conn_def)
qed

text \<open>C22: A connection that \<open>Dial\<close> returns has written exactly the SASL exchange and one Hello call,
  in that order, has used up serial 1 and no other.\<close>

theorem Dial_handshake:
  assumes "Dial fuel peer reachable uid socketPath = Some (Ok c)"
  shows "reachable \<and> c_serial c = 1 \<and>
    (\<exists>hello. encodeMethodCall 1 ''org.freedesktop.DBus'' ''/org/freedesktop/DBus''
        ''org.freedesktop.DBus'' ''Hello'' [] [] = Ok hello \<and>
      outlog c = [[0], bytes_of (''AUTH EXTERNAL '' @ hex_encode (show_int uid) @ [CHR 0x0D, CHR 0x0A]),
        bytes_of (''BEGIN'' @ [CHR 0x0D, CHR 0x0A]), hello])"
proof -
  let ?c0 = "\<lparr>inbuf = [], outlog = [], c_serial = 0, uniqueName = []\<rparr>"
  from assms obtain c1 ps c2 where r: reachable and a: "authenticate peer uid ?c0 = Ok c1"
    and h: "Call fuel peer c1 ''org.freedesktop.DBus'' ''/org/freedesktop/DBus''
        ''org.freedesktop.DBus'' ''Hello'' [] [] ''s'' [PString []] = Some (Ok ps, c2)"
    and c: "c_serial c = c_serial c2" "outlog c = outlog c2"
    by (auto simp: Dial_def split: if_splits outcome.splits option.splits prod.splits list.splits ptr.splits)
  show ?thesis using authenticate_Ok_sent[OF a] Call_Ok_sent[OF h] r c by auto
qed

definition demo_hello_reply :: bytes where
  "demo_hello_reply = [108, 2, 1, 1, 7, 0, 0, 0, 9, 0, 0, 0, 15, 0, 0, 0,
     5, 1, 117, 0, 1, 0, 0, 0, 8, 1, 103, 0, 1, 115, 0, 0, 2, 0, 0, 0, 58, 49, 0]"

definition demo_peer :: peer where
  "demo_peer log = Some (if length log = 2 then bytes_of (''OK'' @ [CHR 0x0A])
     else if length log = 4 then demo_hello_reply else [])"

lemma demo_hello: "awaitReply 30 1 ''s'' [PString []] demo_hello_reply = Some (Ok [PString '':1''], [])"
  by code_simp

lemma demo_auth: "authenticate demo_peer 0 \<lparr>inbuf = [], outlog = [], c_serial = 0, uniqueName = []\<rparr>
    = Ok \<lparr>inbuf = [], outlog = [[0], bytes_of (''AUTH EXTERNAL '' @ hex_encode (show_int 0) @ [CHR 0x0D, CHR 0x0A]),
     bytes_of (''BEGIN'' @ [CHR 0x0D, CHR 0x0A])], c_serial = 0, uniqueName = []\<rparr>"
  by code_simp

theorem Dial_handshake_witness:
  "\<exists>c hello. Dial 30 demo_peer True 0 ''/run/bus'' = Some (Ok c) \<and> c_serial c = 1 \<and> uniqueName c = '':1'' \<and>
    outlog c = [[0], bytes_of (''AUTH EXTERNAL '' @ hex_encode (show_int 0) @ [CHR 0x0D, CHR 0x0A]),
        bytes_of (''BEGIN'' @ [CHR 0x0D, CHR 0x0A]), hello]"
proof -
  obtain hello where h: "encodeMethodCall 1 ''org.freedesktop.DBus'' ''/org/freedesktop/DBus''
      ''org.freedesktop.DBus'' ''Hello'' [] [] = Ok hello"
    by (rule encodeMethodCall_framed[of "[]" "[]" "[]"]) (auto simp: encodeArgs.simps)
  obtain c where c: "Dial 30 demo_peer True 0 ''/run/bus'' = Some (Ok c)" "uniqueName c = '':1''"
    by (simp add: Dial_def demo_auth Call_def nextSerial_def h conn_write_def demo_peer_def demo_hello)
  show ?thesis using Dial_handshake[OF c(1)] c by auto
qed
lemma decodeItems_empty_struct:
  "pos d mod 8 = 0 \<Longrightarrow> pos d < stop \<Longrightarrow> decodeItems fuel d ''()'' stop out = None"
proof (induction fuel arbitrary: out)
  case (Suc n)
  have "decodeValue n d ''()'' \<in> {None, Some (Ok (VSlice [], d))}"
  proof (cases n)
    case (Suc m)
    then show ?thesis using Suc.prems by (cases m) (auto simp: decodeValue.simps decodeStruct.simps alignD.simps[of 8 d] inner_sig_def)
  qed (simp add: decodeValue.simps)
  then show ?case using Suc by (auto simp: decodeItems.simps)
qed (simp add: decodeItems.simps)

section \<open>Bytes the client does not control\<close>

text \<open>C17: Decoding any well-formed type without variants from any bytes ends: with the stated fuel the
  decoder returns a value or an error, and does not panic.\<close>

theorem decode_terminates:
  assumes "wf_type t" and "no_variant t" and "pos d \<le> length (buf d)" and "tfuel (length (buf d)) t \<le> fuel"
  shows "(\<exists>r. decodeValue fuel d (sig_of t) = Some (Ok r)) \<or> (\<exists>e. decodeValue fuel d (sig_of t) = Some (Err e))"
proof -
  have "finishes (decodeValue fuel d (sig_of t))"
    using assms by (intro decodeValue_finishes) (auto simp: wf_dec_def)
  then show ?thesis
    by (cases "decodeValue fuel d (sig_of t)") (auto simp: finishes_def, metis outcome.exhaust surj_pair)
qed

theorem decode_terminates_witness:
  "(\<exists>r. decodeValue 30 \<lparr>buf = [9, 0, 0, 0, 1, 2], pos = 0\<rparr> ''a(yu)'' = Some (Ok r)) \<or>
   (\<exists>e. decodeValue 30 \<lparr>buf = [9, 0, 0, 0, 1, 2], pos = 0\<rparr> ''a(yu)'' = Some (Err e))"
  using decode_terminates[of "TArray (TStruct [TByte, TUint32])" "\<lparr>buf = [9, 0, 0, 0, 1, 2], pos = 0\<rparr>" 30]
  by simp

text \<open>C18: On any bytes and any signature, a value that the decoder returns leaves the buffer as it
  was and the cursor between its old place and the end of the buffer, and more fuel gives the
  same result.\<close>

theorem decode_in_bounds:
  assumes "decodeValue fuel d sig = Some (Ok (v, d'))" and "pos d \<le> length (buf d)"
  shows "buf d' = buf d \<and> pos d \<le> pos d' \<and> pos d' \<le> length (buf d) \<and>
    decodeValue (fuel + k) d sig = Some (Ok (v, d'))"
  using decodeValue_moves[OF assms(1)] decodeValue_mono[OF assms(1), of "fuel + k"] assms(2)
  by (auto simp: moves_def wf_dec_def)

theorem decode_in_bounds_witness:
  "decodeValue 9 \<lparr>buf = [1, 2, 0, 3, 0], pos = 1\<rparr> ''q'' = Some (Ok (VUint16 0, \<lparr>buf = [1, 2, 0, 3, 0], pos = 4\<rparr>))
   \<or> decodeValue (2 + 7) \<lparr>buf = [1, 2, 0, 3, 0], pos = 1\<rparr> ''q'' = Some (Ok (VUint16 768, \<lparr>buf = [1, 2, 0, 3, 0], pos = 4\<rparr>))"
proof -
  have "decodeValue 2 \<lparr>buf = [1, 2, 0, 3, 0], pos = 1\<rparr> ''q''
      = Some (Ok (VUint16 768, \<lparr>buf = [1, 2, 0, 3, 0], pos = 4\<rparr>))"
    by code_simp
  from decode_in_bounds[OF this, of 7] show ?thesis by simp
qed

definition looping_message :: bytes where
  "looping_message = [108, 4, 0, 1, 0, 0, 0, 0, 9, 0, 0, 0, 17, 0, 0, 0,
     9, 3, 97, 40, 41, 0, 0, 0, 1, 0, 0, 0, 0, 0, 0, 0, 0, 0, 0, 0, 0, 0, 0, 0]"

lemma looping_fields:
  fixes fb :: bytes
  defines "fb \<equiv> [9, 3, 97, 40, 41, 0, 0, 0, 1, 0, 0, 0, 0, 0, 0, 0, 0]"
  shows "decodeMessage fuel mt fb bb = None"
proof -
  have reads: "alignD 8 \<lparr>buf = fb, pos = 0\<rparr> = Ok \<lparr>buf = fb, pos = 0\<rparr>"
      "getByte \<lparr>buf = fb, pos = 0\<rparr> = Ok (9, \<lparr>buf = fb, pos = 1\<rparr>)"
      "getSignature \<lparr>buf = fb, pos = 1\<rparr> = Ok (''a()'', \<lparr>buf = fb, pos = 6\<rparr>)"
      "getUint32 \<lparr>buf = fb, pos = 6\<rparr> = Ok (1, \<lparr>buf = fb, pos = 12\<rparr>)"
      "alignD 8 \<lparr>buf = fb, pos = 12\<rparr> = Ok \<lparr>buf = fb, pos = 16\<rparr>"
      "need 1 \<lparr>buf = fb, pos = 16\<rparr> = Ok ()" "length fb = 17"
    unfolding fb_def by code_simp+
  have "decodeArrayElements n \<lparr>buf = fb, pos = 16\<rparr> ''()'' 17 = None" for n
    by (cases n) (simp_all add: decodeArrayElements.simps decodeItems_empty_struct)
  then have "decodeArray n \<lparr>buf = fb, pos = 6\<rparr> ''a()'' = None" for n
    using reads by (cases n) (simp_all add: decodeArray.simps alignmentOf_def)
  then have "decodeValue n \<lparr>buf = fb, pos = 6\<rparr> ''a()'' = None" for n
    by (cases n) (simp_all add: decodeValue.simps)
  then have "decodeValue n \<lparr>buf = fb, pos = 1\<rparr> ''v'' = None" for n
    using reads by (cases n) (simp_all add: decodeValue.simps)
  then have v: "decodeStruct n \<lparr>buf = fb, pos = 1\<rparr> ''v'' out = None" for n out
    by (cases n) (simp_all add: decodeStruct.simps)
  have y: "decodeValue n \<lparr>buf = fb, pos = 0\<rparr> ''y'' \<in> {None, Some (Ok (VByte 9, \<lparr>buf = fb, pos = 1\<rparr>))}" for n
    using reads by (cases n) (simp_all add: decodeValue.simps box_def)
  have "decodeStruct n \<lparr>buf = fb, pos = 0\<rparr> ''yv'' [] = None" for n
  proof (cases n)
    case (Suc m)
    then show ?thesis using y[of m] v by (auto simp: decodeStruct.simps)
  qed (simp add: decodeStruct.simps)
  then have "decodeValue n \<lparr>buf = fb, pos = 0\<rparr> ''(yv)'' = None" for n
    using reads by (cases n) (simp_all add: decodeValue.simps inner_sig_def)
  then have "decodeItems n \<lparr>buf = fb, pos = 0\<rparr> ''(yv)'' 17 [] = None" for n
    by (cases n) (simp_all add: decodeItems.simps)
  then have "decodeArrayElements n \<lparr>buf = fb, pos = 0\<rparr> ''(yv)'' 17 = None" for n
    by (cases n) (simp_all add: decodeArrayElements.simps)
  then show ?thesis using reads by (simp add: decodeMessage_def)
qed

text \<open>C24: An array of empty structs with a non-zero length makes the decoder loop forever: a peer can
  send the client forty bytes on which \<open>readMessage\<close> never returns.\<close>

theorem empty_struct_array_diverges: "readMessage fuel looping_message = None"
proof -
  have "looping_message = framed 4 0 9 [9, 3, 97, 40, 41, 0, 0, 0, 1, 0, 0, 0, 0, 0, 0, 0, 0] [] @ []"
    by code_simp
  then show ?thesis using readMessage_framed[of "[9, 3, 97, 40, 41, 0, 0, 0, 1, 0, 0, 0, 0, 0, 0, 0, 0]" "[]" fuel 4 0 9 "[]"]
    by (simp add: looping_fields)
qed

text \<open>A header field whose variant has an empty signature makes the decoder index an empty
  string: twenty-four bytes on which \<open>readMessage\<close> panics.\<close>

theorem bad_variant_panics:
  "readMessage 20 [108, 4, 0, 1, 0, 0, 0, 0, 9, 0, 0, 0, 3, 0, 0, 0, 9, 0, 0, 0, 0, 0, 0, 0] = Some (Panic, [])"
  by code_simp

text \<open>The serial is a 32-bit counter that wraps: after \<open>2 ^ 32 - 1\<close> calls the next one goes out
  with serial 0, which the protocol reserves, and then any message without a reply serial, such
  as a signal, is taken for its reply.\<close>

theorem serial_wraps:
  assumes "c_serial c = 2 ^ 32 - 1"
    and "encodeMethodCall 0 destination path iface meth inSig args = Ok msg"
    and "peer (outlog c @ [msg]) = Some resp"
    and "readMessage n (inbuf c @ resp) = Some (Ok sgnl, r)" and "m_type sgnl = msgTypeSignal"
    and "m_replySerial sgnl = 0" and "Suc (n + length (inbuf c @ resp)) \<le> fuel"
  shows "Call fuel peer c destination path iface meth inSig args [] []
    = Some (Ok [], c\<lparr>inbuf := r, outlog := outlog c @ [msg], c_serial := 0\<rparr>)"
proof -
  have z: "c_serial c + 1 = 0" using assms(1) by simp
  have "awaitReply fuel 0 [] [] (inbuf c @ resp) = Some (replyResult sgnl [] [], r)"
    using awaitReply_own[OF skips_none assms(4,6,7)] .
  then show ?thesis
    using Call_written[where peer = peer and c = c, unfolded z, OF assms(2,3)] assms(5)
    by (simp add: replyResult_def msgTypeSignal_def msgTypeError_def)
qed

theorem serial_wraps_witness:
  "\<exists>msg. Call 80 (\<lambda>_. Some demo_signal) \<lparr>inbuf = [], outlog = [], c_serial = 2 ^ 32 - 1, uniqueName = []\<rparr>
     ''d'' ''/p'' ''i'' ''m'' [] [] [] []
   = Some (Ok [], \<lparr>inbuf = [], outlog = [msg], c_serial = 0, uniqueName = []\<rparr>)"
proof -
  let ?c = "\<lparr>inbuf = [], outlog = [], c_serial = 2 ^ 32 - 1, uniqueName = []\<rparr>"
  obtain msg where msg: "encodeMethodCall 0 ''d'' ''/p'' ''i'' ''m'' [] [] = Ok msg"
    by (rule encodeMethodCall_framed[of "[]" "[]" "[]"]) (auto simp: encodeArgs.simps)
  have rd: "readMessage 20 (inbuf ?c @ demo_signal) = Some (Ok \<lparr>m_type = 4, m_replySerial = 0,
      m_errorName = [], m_signature = [], m_body = []\<rparr>, [])"
    by simp code_simp
  show ?thesis
    using serial_wraps[where peer = "\<lambda>_. Some demo_signal" and c = ?c, OF _ msg refl rd, of 80]
    by (auto simp: msgTypeSignal_def demo_signal_def)
qed

section \<open>Sessions\<close>

text \<open>The life of a connection: dialled, then used for calls, whatever their outcome. \<open>ss\<close> are the serials its calls
  were sent under, the newest first.\<close>

inductive session :: "nat \<Rightarrow> peer \<Rightarrow> conn \<Rightarrow> 32 word list \<Rightarrow> bool" for fuel peer where
  dialled: "Dial fuel peer reachable uid path = Some (Ok c) \<Longrightarrow> session fuel peer c [1]"
| called: "session fuel peer c ss \<Longrightarrow> Call fuel peer c dest path iface meth inSig args outSig outs = Some (r, c') \<Longrightarrow>
    session fuel peer c' (fst (nextSerial c) # ss)"

lemma Call_serial:
  assumes "Call fuel peer c dest path iface meth inSig args outSig outs = Some (r, c')"
  shows "c_serial c' = c_serial c + 1"
  using assms by (auto simp: Call_def nextSerial_def conn_write_def Let_def split: outcome.splits option.splits)

lemma authenticate_serial: "authenticate peer uid c = Ok c' \<Longrightarrow> c_serial c' = c_serial c"
  by (auto simp: authenticate_def conn_write_def Let_def split: option.splits prod.splits if_splits)

lemma Dial_serial:
  assumes "Dial fuel peer reachable uid path = Some (Ok c)"
  shows "c_serial c = 1"
  using assms
  by (auto simp: Dial_def split: if_splits outcome.splits option.splits list.splits ptr.splits dest!: Call_serial authenticate_serial)

text \<open>Serials count the calls.\<close>

lemma session_counts:
  "session fuel peer c ss \<Longrightarrow> c_serial c = word_of_nat (length ss) \<and> ss = rev (map (\<lambda>i. word_of_nat (Suc i)) [0..<length ss])"
proof (induction rule: session.induct)
  case (dialled reachable uid path c)
  then show ?case using Dial_serial by simp
next
  case (called c ss dest path iface meth inSig args outSig outs r c')
  then show ?case using Call_serial[OF called(2)] by (auto simp: nextSerial_def)
qed



end
