(* ===== verification/Json.thy ===== *)
theory Json
  imports GoStrings "HOL-Library.AList" "HOL-Library.List_Lexorder" "HOL-Library.Char_ord"
begin

text \<open>
  Go's \<open>encoding/json\<close> as the program uses it: \<open>json.Marshal\<close>, \<open>json.MarshalIndent\<close> and
  \<open>json.Unmarshal\<close> on dynamic values. A number is kept as its literal text, which is what
  \<open>json.Number\<close> holds. Text is taken to be valid UTF-8; the nesting limit of 10000 is not
  modelled.
\<close>

section \<open>Values\<close>

datatype json =
    JNull
  | JBool bool
  | JNum string
  | JStr string
  | JArr "json list"
  | JObj "(string \<times> json) list"

section \<open>Numbers\<close>

text \<open>The number grammar: an optional minus, an integer part without leading zeros, an optional
  fraction, an optional exponent.\<close>

definition num_exp :: "string \<Rightarrow> bool" where
  "num_exp s = (case s of
     [] \<Rightarrow> True
   | c # cs \<Rightarrow> c \<in> set ''eE'' \<and>
       (let ds = (case cs of d # ds \<Rightarrow> if d \<in> set ''+-'' then ds else cs | [] \<Rightarrow> []) in
        ds \<noteq> [] \<and> list_all is_digit ds))"

definition num_frac :: "string \<Rightarrow> bool" where
  "num_frac s = (case s of
     c # cs \<Rightarrow> if c = CHR ''.'' then takeWhile is_digit cs \<noteq> [] \<and> num_exp (dropWhile is_digit cs) else num_exp s
   | [] \<Rightarrow> True)"

definition num_int :: "string \<Rightarrow> bool" where
  "num_int s = (case s of
     [] \<Rightarrow> False
   | c # cs \<Rightarrow> if c = CHR ''0'' then num_frac cs
              else is_digit c \<and> num_frac (dropWhile is_digit cs))"

definition is_number :: "string \<Rightarrow> bool" where
  "is_number s = (case s of c # cs \<Rightarrow> if c = CHR ''-'' then num_int cs else num_int s | [] \<Rightarrow> False)"

definition num_char :: "char \<Rightarrow> bool" where
  "num_char c = (is_digit c \<or> c \<in> set ''+-.eE'')"

section \<open>Strings\<close>

text \<open>UTF-8 of a code point.\<close>

definition utf8 :: "nat \<Rightarrow> string" where
  "utf8 n = (if n < 0x80 then [char_of n]
     else if n < 0x800 then [char_of (0xC0 + n div 64), char_of (0x80 + n mod 64)]
     else if n < 0x10000 then
       [char_of (0xE0 + n div 4096), char_of (0x80 + n div 64 mod 64), char_of (0x80 + n mod 64)]
     else [char_of (0xF0 + n div 262144), char_of (0x80 + n div 4096 mod 64),
           char_of (0x80 + n div 64 mod 64), char_of (0x80 + n mod 64)])"

definition hex_val :: "char \<Rightarrow> nat option" where
  "hex_val c = (if is_digit c then Some (of_char c - 48)
     else if CHR ''a'' \<le> c \<and> c \<le> CHR ''f'' then Some (of_char c - 87)
     else if CHR ''A'' \<le> c \<and> c \<le> CHR ''F'' then Some (of_char c - 55)
     else None)"

definition hex4 :: "string \<Rightarrow> (nat \<times> string) option" where
  "hex4 s = (case s of
     a # b # c # d # r \<Rightarrow>
       (case (hex_val a, hex_val b, hex_val c, hex_val d) of
          (Some w, Some x, Some y, Some z) \<Rightarrow> Some (((w * 16 + x) * 16 + y) * 16 + z, r)
        | _ \<Rightarrow> None)
   | _ \<Rightarrow> None)"

text \<open>The code point behind \<open>\uXXXX\<close>, pairing surrogates; a lone surrogate is U+FFFD.\<close>

definition unicode_escape :: "string \<Rightarrow> (string \<times> string) option" where
  "unicode_escape s = (case hex4 s of
     None \<Rightarrow> None
   | Some (n, r) \<Rightarrow>
       if 0xD800 \<le> n \<and> n < 0xE000 then
         (case r of
            b # u # r1 \<Rightarrow>
              (if b = CHR 0x5C \<and> u = CHR ''u'' then
                 (case hex4 r1 of
                    Some (m, r2) \<Rightarrow>
                      if n < 0xDC00 \<and> 0xDC00 \<le> m \<and> m < 0xE000
                      then Some (utf8 (0x10000 + (n - 0xD800) * 1024 + (m - 0xDC00)), r2)
                      else Some (utf8 0xFFFD, r)
                  | None \<Rightarrow> None)
               else Some (utf8 0xFFFD, r))
          | _ \<Rightarrow> Some (utf8 0xFFFD, r))
       else Some (utf8 n, r))"

lemma hex4_shorter: "hex4 s = Some (n, r) \<Longrightarrow> length r < length s"
  by (auto simp: hex4_def split: list.splits option.splits)

lemma unicode_escape_shorter: "unicode_escape s = Some (t, r) \<Longrightarrow> length r < length s"
  by (auto simp: unicode_escape_def split: option.splits prod.splits list.splits if_splits
      dest!: hex4_shorter)

text \<open>The rest of a string literal after its opening quote.\<close>

function parse_string :: "string \<Rightarrow> (string \<times> string) option" where
  "parse_string s = (case s of
     [] \<Rightarrow> None
   | c # cs \<Rightarrow>
     if c = CHR 0x22 then Some ([], cs)
     else if of_char c < (32 :: nat) then None
     else if c \<noteq> CHR 0x5C then map_option (\<lambda>(t, r). (c # t, r)) (parse_string cs)
     else (case cs of
       [] \<Rightarrow> None
     | e # es \<Rightarrow>
       if e = CHR ''u'' then
         (case unicode_escape es of
            None \<Rightarrow> None
          | Some (u, r1) \<Rightarrow> map_option (\<lambda>(t, r). (u @ t, r)) (parse_string r1))
       else
         (case map_of [(CHR 0x22, CHR 0x22), (CHR 0x5C, CHR 0x5C), (CHR ''/'', CHR ''/''),
                 (CHR ''b'', CHR 0x08), (CHR ''f'', CHR 0x0C), (CHR ''n'', CHR 0x0A),
                 (CHR ''r'', CHR 0x0D), (CHR ''t'', CHR 0x09)] e of
            None \<Rightarrow> None
          | Some x \<Rightarrow> map_option (\<lambda>(t, r). (x # t, r)) (parse_string es))))"
  by pat_completeness auto
termination
  by (relation "measure length") (auto dest!: unicode_escape_shorter)

declare parse_string.simps [simp del]

definition hex_digits4 :: "nat \<Rightarrow> string" where
  "hex_digits4 n = [digit_char (n div 4096 mod 16), digit_char (n div 256 mod 16),
     digit_char (n div 16 mod 16), digit_char (n mod 16)]"

text \<open>How one byte is written: the quote, the backslash, control characters and the HTML specials
  \<open><\<close>, \<open>>\<close>, \<open>&\<close> are escaped.\<close>

definition quote_char :: "char \<Rightarrow> string" where
  "quote_char c =
     (if c = CHR 0x22 \<or> c = CHR 0x5C then [CHR 0x5C, c]
      else if c = CHR 0x08 then [CHR 0x5C, CHR ''b'']
      else if c = CHR 0x0C then [CHR 0x5C, CHR ''f'']
      else if c = CHR 0x0A then [CHR 0x5C, CHR ''n'']
      else if c = CHR 0x0D then [CHR 0x5C, CHR ''r'']
      else if c = CHR 0x09 then [CHR 0x5C, CHR ''t'']
      else if of_char c < (32 :: nat) \<or> c \<in> set ''<>&'' then [CHR 0x5C, CHR ''u''] @ hex_digits4 (of_char c)
      else [c])"

text \<open>U+2028 and U+2029 are escaped as well.\<close>

fun quote_body :: "string \<Rightarrow> string" where
  "quote_body (a # b # c # s) =
     (if a = CHR 0xE2 \<and> b = CHR 0x80 \<and> (c = CHR 0xA8 \<or> c = CHR 0xA9)
      then [CHR 0x5C, CHR ''u''] @ hex_digits4 (0x2000 + (of_char c - 0x80)) @ quote_body s
      else quote_char a @ quote_body (b # c # s))"
| "quote_body (a # s) = quote_char a @ quote_body s"
| "quote_body [] = []"

definition quote :: "string \<Rightarrow> string" where
  "quote s = [CHR 0x22] @ quote_body s @ [CHR 0x22]"

lemma hex_val_digit_char: "d < 16 \<Longrightarrow> hex_val (digit_char d) = Some d"
proof -
  have "\<forall>d\<in>set [0..<16]. hex_val (digit_char d) = Some d" by code_simp
  then show "d < 16 \<Longrightarrow> ?thesis" by auto
qed

lemma hex4_hex_digits4: "n < 65536 \<Longrightarrow> hex4 (hex_digits4 n @ r) = Some (n, r)"
proof -
  assume n: "n < 65536"
  have top: "n div 4096 mod 16 = n div 4096" using n by (simp add: less_mult_imp_div_less)
  have "n div 256 = n div 16 div 16" "n div 4096 = n div 256 div 16"
    by (simp_all flip: div_mult2_eq)
  then have "n div 4096 * 16 + n div 256 mod 16 = n div 256"
    "n div 256 * 16 + n div 16 mod 16 = n div 16" "n div 16 * 16 + n mod 16 = n"
    by (simp_all only: div_mult_mod_eq)
  then have "((n div 4096 mod 16 * 16 + n div 256 mod 16) * 16 + n div 16 mod 16) * 16 + n mod 16 = n"
    by (simp only: top)
  moreover have "n div 4096 < 16" using n by (simp add: less_mult_imp_div_less)
  ultimately show ?thesis using top by (simp add: hex4_def hex_digits4_def hex_val_digit_char)
qed

lemma unicode_escape_hex_digits4:
  "n < 0xD800 \<Longrightarrow> unicode_escape (hex_digits4 n @ r) = Some (utf8 n, r)"
  by (simp add: unicode_escape_def hex4_hex_digits4)

lemma char_ofI: "of_char c = n \<Longrightarrow> char_of n = c"
  by auto

lemma of_char_less: "of_char c < (256 :: nat)"
  by (metis of_char_mod_256 mod_less_divisor zero_less_numeral)

lemma utf8_ascii: "of_char c < (128 :: nat) \<Longrightarrow> utf8 (of_char c) = [c]"
  by (simp add: utf8_def)

lemma parse_quote_char: "parse_string (quote_char c @ s) = map_option (\<lambda>(t, r). (c # t, r)) (parse_string s)"
proof (cases "of_char c < (32 :: nat) \<or> c \<in> set ''<>&''")
  case True
  then have lt: "of_char c < (128 :: nat)" by auto
  then have u: "unicode_escape (hex_digits4 (of_char c) @ s) = Some ([c], s)"
    by (simp add: unicode_escape_hex_digits4 utf8_ascii)
  show ?thesis
  proof (cases "c \<in> set [CHR 0x22, CHR 0x5C, CHR 0x08, CHR 0x0C, CHR 0x0A, CHR 0x0D, CHR 0x09]")
    case True
    then show ?thesis by (auto simp: quote_char_def parse_string.simps[of "_ # _"])
  next
    case False
    with True have "quote_char c = [CHR 0x5C, CHR ''u''] @ hex_digits4 (of_char c)"
      by (auto simp: quote_char_def)
    then show ?thesis using u by (simp add: parse_string.simps[of "_ # _"])
  qed
next
  case False
  then show ?thesis
    by (auto simp: quote_char_def parse_string.simps[of "_ # _"])
qed

lemma parse_quote_body: "parse_string (quote_body s @ CHR 0x22 # r) = Some (s, r)"
proof (induction s rule: quote_body.induct)
  case (1 a b c s)
  show ?case
  proof (cases "a = CHR 0xE2 \<and> b = CHR 0x80 \<and> (c = CHR 0xA8 \<or> c = CHR 0xA9)")
    case True
    have "utf8 0x2028 = [CHR 0xE2, CHR 0x80, CHR 0xA8]" "utf8 0x2029 = [CHR 0xE2, CHR 0x80, CHR 0xA9]"
      by (auto simp: utf8_def intro!: char_ofI)
    with True have "utf8 (0x2000 + (of_char c - 0x80)) = [a, b, c]" by auto
    then show ?thesis
      using True 1 by (auto simp: parse_string.simps[of "_ # _"] unicode_escape_hex_digits4)
  next
    case False
    then show ?thesis using 1 by (auto simp: parse_quote_char)
  qed
qed (auto simp: parse_quote_char parse_string.simps[of "_ # _"])

section \<open>Parsing\<close>

definition json_ws :: "char \<Rightarrow> bool" where
  "json_ws c = (c \<in> set [CHR 0x20, CHR 0x09, CHR 0x0A, CHR 0x0D])"

definition skip_ws :: "string \<Rightarrow> string" where
  "skip_ws s = dropWhile json_ws s"

text \<open>A value, the rest of an array after its first element begins, the rest of an object. Every
  call consumes input or is the step into an element, so fuel twice the length of the text is
  enough (\<open>parse_value_fuel\<close>). A repeated key overwrites the earlier one.\<close>

fun parse_value :: "nat \<Rightarrow> string \<Rightarrow> (json \<times> string) option"
  and parse_elems :: "nat \<Rightarrow> string \<Rightarrow> json list \<Rightarrow> (json \<times> string) option"
  and parse_members :: "nat \<Rightarrow> string \<Rightarrow> (string \<times> json) list \<Rightarrow> (json \<times> string) option" where
  "parse_value 0 s = None"
| "parse_value (Suc n) s = (case skip_ws s of
     [] \<Rightarrow> None
   | c # cs \<Rightarrow>
     if c = CHR 0x22 then map_option (\<lambda>(t, r). (JStr t, r)) (parse_string cs)
     else if c = CHR ''{'' then
       (case skip_ws cs of
          [] \<Rightarrow> None
        | c2 # r \<Rightarrow> if c2 = CHR ''}'' then Some (JObj [], r) else parse_members n cs [])
     else if c = CHR ''['' then
       (case skip_ws cs of
          [] \<Rightarrow> None
        | c2 # r \<Rightarrow> if c2 = CHR '']'' then Some (JArr [], r) else parse_elems n cs [])
     else if has_prefix (c # cs) ''true'' then Some (JBool True, drop 4 (c # cs))
     else if has_prefix (c # cs) ''false'' then Some (JBool False, drop 5 (c # cs))
     else if has_prefix (c # cs) ''null'' then Some (JNull, drop 4 (c # cs))
     else
       let lit = takeWhile num_char (c # cs) in
       if is_number lit then Some (JNum lit, dropWhile num_char (c # cs)) else None)"
| "parse_elems 0 s acc = None"
| "parse_elems (Suc n) s acc = (case parse_value n s of
     None \<Rightarrow> None
   | Some (v, r) \<Rightarrow>
     (case skip_ws r of
        [] \<Rightarrow> None
      | c # r' \<Rightarrow>
        if c = CHR '','' then parse_elems n r' (acc @ [v])
        else if c = CHR '']'' then Some (JArr (acc @ [v]), r')
        else None))"
| "parse_members 0 s acc = None"
| "parse_members (Suc n) s acc = (case skip_ws s of
     [] \<Rightarrow> None
   | q # cs \<Rightarrow>
     if q \<noteq> CHR 0x22 then None
     else (case parse_string cs of
       None \<Rightarrow> None
     | Some (k, r) \<Rightarrow>
       (case skip_ws r of
          [] \<Rightarrow> None
        | col # r1 \<Rightarrow>
          if col \<noteq> CHR '':'' then None
          else (case parse_value n r1 of
            None \<Rightarrow> None
          | Some (v, r2) \<Rightarrow>
            (case skip_ws r2 of
               [] \<Rightarrow> None
             | c # r3 \<Rightarrow>
               if c = CHR '','' then parse_members n r3 (AList.update k v acc)
               else if c = CHR ''}'' then Some (JObj (AList.update k v acc), r3)
               else None)))))"

declare parse_value.simps(2) [simp del] parse_elems.simps(2) [simp del] parse_members.simps(2) [simp del]

definition Unmarshal :: "string \<Rightarrow> json option" where
  "Unmarshal s = (case parse_value (2 * length s + 2) s of
     Some (v, r) \<Rightarrow> if skip_ws r = [] then Some v else None
   | None \<Rightarrow> None)"

section \<open>Printing\<close>

text \<open>\<open>b\<close> chooses \<open>json.MarshalIndent(v, "", "  ")\<close> over \<open>json.Marshal(v)\<close>; \<open>d\<close> is the depth.\<close>

definition nl :: "bool \<Rightarrow> nat \<Rightarrow> string" where
  "nl b d = (if b then CHR 0x0A # replicate (2 * d) (CHR 0x20) else [])"

definition colon :: "bool \<Rightarrow> string" where
  "colon b = (if b then '': '' else '':'')"

fun print_json :: "bool \<Rightarrow> nat \<Rightarrow> json \<Rightarrow> string"
  and print_elems :: "bool \<Rightarrow> nat \<Rightarrow> json list \<Rightarrow> string"
  and print_members :: "bool \<Rightarrow> nat \<Rightarrow> (string \<times> json) list \<Rightarrow> string" where
  "print_json b d JNull = ''null''"
| "print_json b d (JBool True) = ''true''"
| "print_json b d (JBool False) = ''false''"
| "print_json b d (JNum lit) = lit"
| "print_json b d (JStr s) = quote s"
| "print_json b d (JArr []) = ''[]''"
| "print_json b d (JArr (v # vs)) = ''['' @ nl b (Suc d) @ print_json b (Suc d) v @ print_elems b d vs"
| "print_json b d (JObj []) = ''{}''"
| "print_json b d (JObj ((k, v) # kvs)) =
     ''{'' @ nl b (Suc d) @ quote k @ colon b @ print_json b (Suc d) v @ print_members b d kvs"
| "print_elems b d [] = nl b d @ '']''"
| "print_elems b d (v # vs) = '','' @ nl b (Suc d) @ print_json b (Suc d) v @ print_elems b d vs"
| "print_members b d [] = nl b d @ ''}''"
| "print_members b d ((k, v) # kvs) =
     '','' @ nl b (Suc d) @ quote k @ colon b @ print_json b (Suc d) v @ print_members b d kvs"

text \<open>Go maps are printed with their keys in order; a struct's fields come in declaration order, and
  are printed as they stand.\<close>

primrec sort_json :: "json \<Rightarrow> json" where
  "sort_json JNull = JNull"
| "sort_json (JBool c) = JBool c"
| "sort_json (JNum n) = JNum n"
| "sort_json (JStr s) = JStr s"
| "sort_json (JArr vs) = JArr (map sort_json vs)"
| "sort_json (JObj kvs) = JObj (sort_key fst (map (map_prod id sort_json) kvs))"

definition Marshal_map :: "json \<Rightarrow> string" where
  "Marshal_map v = print_json False 0 (sort_json v)"

definition MarshalIndent_map :: "json \<Rightarrow> string" where
  "MarshalIndent_map v = print_json True 0 (sort_json v)"

section \<open>Reading back what was printed\<close>

text \<open>A value that Go can hold: number literals are numbers, a map has each key once.\<close>

primrec valid_json :: "json \<Rightarrow> bool" where
  "valid_json JNull = True"
| "valid_json (JBool c) = True"
| "valid_json (JNum n) = (is_number n \<and> list_all num_char n)"
| "valid_json (JStr s) = True"
| "valid_json (JArr vs) = list_all id (map valid_json vs)"
| "valid_json (JObj kvs) = (distinct (map fst kvs) \<and> list_all snd (map (map_prod id valid_json) kvs))"

primrec jfuel :: "json \<Rightarrow> nat" where
  "jfuel JNull = 1"
| "jfuel (JBool c) = 1"
| "jfuel (JNum n) = 1"
| "jfuel (JStr s) = 1"
| "jfuel (JArr vs) = 2 + sum_list (map Suc (map jfuel vs))"
| "jfuel (JObj kvs) = 2 + sum_list (map (Suc \<circ> snd) (map (map_prod id jfuel) kvs))"

definition no_num :: "string \<Rightarrow> bool" where
  "no_num r = (r = [] \<or> \<not> num_char (hd r))"

lemma skip_ws_nl [simp]: "skip_ws (nl b d @ s) = skip_ws s"
proof -
  have "dropWhile json_ws (replicate n (CHR 0x20) @ s) = dropWhile json_ws s" for n
    by (induction n) (auto simp: json_ws_def)
  then show ?thesis by (simp add: skip_ws_def nl_def json_ws_def)
qed

lemma skip_ws_Cons: "skip_ws (c # s) = (if json_ws c then skip_ws s else c # s)"
  by (simp add: skip_ws_def)

lemma skip_ws_quote [simp]: "skip_ws (quote s @ r) = quote s @ r"
  by (simp add: quote_def skip_ws_Cons json_ws_def)

lemma parse_value_nl [simp]: "parse_value n (nl b d @ s) = parse_value n s"
  by (cases n) (simp_all add: parse_value.simps(2))

lemma parse_elems_nl [simp]: "parse_elems n (nl b d @ s) acc = parse_elems n s acc"
  by (cases n) (simp_all add: parse_elems.simps(2))

lemma parse_members_nl [simp]: "parse_members n (nl b d @ s) acc = parse_members n s acc"
  by (cases n) (simp_all add: parse_members.simps(2))

lemma parse_value_blank [simp]: "parse_value n (CHR 0x20 # s) = parse_value n s"
  by (cases n) (simp_all add: parse_value.simps(2) skip_ws_Cons json_ws_def)

lemma parse_value_colon: "parse_value n (tl (colon b) @ s) = parse_value n s"
  by (simp add: colon_def)

lemma no_num_print:
  "no_num (print_elems b d vs @ r)" "no_num (print_members b d kvs @ r)"
  by (cases vs; cases b; simp add: no_num_def nl_def num_char_def is_digit_def)
     (cases kvs; cases b; auto simp add: no_num_def nl_def num_char_def is_digit_def)

lemma number_head: "is_number n \<Longrightarrow> \<exists>c cs. n = c # cs \<and> (is_digit c \<or> c = CHR ''-'')"
  by (auto simp: is_number_def num_int_def split: list.splits if_splits) (auto simp: is_digit_def)

lemma digit_cases: "is_digit c \<or> c = CHR ''-'' \<Longrightarrow>
   \<not> json_ws c \<and> c \<notin> set [CHR 0x22, CHR ''{'', CHR ''['', CHR '']'', CHR ''}'', CHR ''t'', CHR ''f'', CHR ''n'']"
  by (auto simp: is_digit_def json_ws_def less_eq_char_def)

lemma print_head:
  "valid_json v \<Longrightarrow> \<exists>c cs. print_json b d v = c # cs \<and> \<not> json_ws c \<and> c \<notin> {CHR '']'', CHR ''}''}"
proof (cases v)
  case (JNum lit)
  assume "valid_json v"
  then show ?thesis using JNum number_head[of lit] digit_cases by fastforce
next
  case (JBool c)
  then show ?thesis by (cases c) (auto simp: json_ws_def)
next
  case (JArr vs)
  then show ?thesis by (cases vs) (auto simp: json_ws_def)
next
  case (JObj kvs)
  then show ?thesis by (cases kvs) (auto simp: json_ws_def)
qed (auto simp: quote_def json_ws_def)

lemma skip_ws_print: "valid_json v \<Longrightarrow> skip_ws (print_json b d v @ r) = print_json b d v @ r"
  using print_head[of v b d] by (auto simp: skip_ws_Cons)

lemma parse_elems_print:
  assumes "\<And>u fuel q. u \<in> set (v # vs) \<Longrightarrow> jfuel u \<le> fuel \<Longrightarrow> no_num q \<Longrightarrow>
      parse_value fuel (print_json b (Suc d) u @ q) = Some (u, q)"
  shows "Suc (sum_list (map Suc (map jfuel (v # vs)))) \<le> fuel \<Longrightarrow>
    parse_elems fuel (print_json b (Suc d) v @ print_elems b d vs @ r) acc = Some (JArr (acc @ v # vs), r)"
  using assms
proof (induction vs arbitrary: v acc fuel)
  case Nil
  then obtain n where n: "fuel = Suc n" by (cases fuel) auto
  have "parse_value n (print_json b (Suc d) v @ print_elems b d [] @ r) = Some (v, print_elems b d [] @ r)"
    using Nil n by (intro Nil.prems(2) no_num_print) auto
  then show ?case by (simp add: n parse_elems.simps(2) skip_ws_Cons json_ws_def)
next
  case (Cons u vs)
  then obtain n where n: "fuel = Suc n" by (cases fuel) auto
  have "parse_value n (print_json b (Suc d) v @ print_elems b d (u # vs) @ r) = Some (v, print_elems b d (u # vs) @ r)"
    using Cons.prems(1) n by (intro Cons.prems(2) no_num_print) auto
  moreover have "parse_elems n (print_json b (Suc d) u @ print_elems b d vs @ r) (acc @ [v]) = Some (JArr ((acc @ [v]) @ u # vs), r)"
    using Cons.prems(1) n by (intro Cons.IH Cons.prems(2)) auto
  ultimately show ?case by (simp add: n parse_elems.simps(2) skip_ws_Cons json_ws_def)
qed

lemma parse_members_print:
  assumes "\<And>u fuel q. u \<in> snd ` set ((k0, v) # kvs) \<Longrightarrow> jfuel u \<le> fuel \<Longrightarrow> no_num q \<Longrightarrow>
      parse_value fuel (print_json b (Suc d) u @ q) = Some (u, q)"
    and "distinct (map fst (acc @ (k0, v) # kvs))"
  shows "Suc (sum_list (map (Suc \<circ> snd) (map (map_prod id jfuel) ((k0, v) # kvs)))) \<le> fuel \<Longrightarrow>
    parse_members fuel (quote k0 @ colon b @ print_json b (Suc d) v @ print_members b d kvs @ r) acc
      = Some (JObj (acc @ (k0, v) # kvs), r)"
  using assms
proof (induction kvs arbitrary: k0 v acc fuel)
  case Nil
  then obtain n where n: "fuel = Suc n" by (cases fuel) auto
  have "parse_value n (print_json b (Suc d) v @ print_members b d [] @ r) = Some (v, print_members b d [] @ r)"
    using Nil.prems(1) n by (intro Nil.prems(2) no_num_print) auto
  moreover have "AList.update k0 v acc = acc @ [(k0, v)]"
    using Nil.prems(3) by (induction acc) auto
  ultimately show ?case
    by (cases b) (simp_all add: n parse_members.simps(2) quote_def skip_ws_Cons json_ws_def parse_quote_body colon_def)
next
  case (Cons kv kvs)
  obtain k1 u where kv: "kv = (k1, u)" by (cases kv)
  obtain n where n: "fuel = Suc n" using Cons.prems(1) by (cases fuel) auto
  have "parse_value n (print_json b (Suc d) v @ print_members b d (kv # kvs) @ r) = Some (v, print_members b d (kv # kvs) @ r)"
    using Cons.prems(1) n by (intro Cons.prems(2) no_num_print) auto
  moreover have upd: "AList.update k0 v acc = acc @ [(k0, v)]"
    using Cons.prems(3) by (induction acc) auto
  moreover have "parse_members n (quote k1 @ colon b @ print_json b (Suc d) u @ print_members b d kvs @ r) (acc @ [(k0, v)])
      = Some (JObj ((acc @ [(k0, v)]) @ (k1, u) # kvs), r)"
    using Cons.prems n kv by (intro Cons.IH Cons.prems(2)) auto
  ultimately show ?case
    by (cases b) (simp_all add: n kv parse_members.simps(2) quote_def skip_ws_Cons json_ws_def parse_quote_body colon_def)
qed

lemma parse_number:
  assumes "is_number lit" "list_all num_char lit" "no_num r"
  shows "parse_value (Suc n) (lit @ r) = Some (JNum lit, r)"
proof -
  obtain c cs where lit: "lit = c # cs" and c: "is_digit c \<or> c = CHR ''-''"
    using number_head[OF assms(1)] by blast
  have "takeWhile num_char (lit @ r) = lit" "dropWhile num_char (lit @ r) = r"
    using assms(2,3) by (cases r; auto simp: no_num_def list_all_iff takeWhile_append dropWhile_append)+
  then show ?thesis
    using assms(1) digit_cases[OF c] by (simp add: parse_value.simps(2) lit skip_ws_Cons)
qed

lemma parse_print:
  "valid_json v \<Longrightarrow> jfuel v \<le> fuel \<Longrightarrow> no_num r \<Longrightarrow> parse_value fuel (print_json b d v @ r) = Some (v, r)"
proof (induction v arbitrary: fuel r d)
  case (JNum lit)
  then show ?case using parse_number by (cases fuel) auto
next
  case (JStr s)
  then show ?case
    by (cases fuel) (auto simp: parse_value.simps(2) quote_def skip_ws_Cons json_ws_def parse_quote_body)
next
  case (JBool c)
  then show ?case by (cases fuel; cases c) (auto simp: parse_value.simps(2) skip_ws_Cons json_ws_def)
next
  case JNull
  then show ?case by (cases fuel) (auto simp: parse_value.simps(2) skip_ws_Cons json_ws_def)
next
  case (JArr vs)
  obtain n where n: "fuel = Suc n" using JArr.prems(2) by (cases fuel) auto
  show ?case
  proof (cases vs)
    case Nil
    then show ?thesis by (simp add: n parse_value.simps(2) skip_ws_Cons json_ws_def)
  next
    case (Cons u us)
    have "parse_elems n (print_json b (Suc d) u @ print_elems b d us @ r) [] = Some (JArr ([] @ u # us), r)"
      using JArr.prems n Cons by (intro parse_elems_print JArr.IH) (auto simp: list_all_iff)
    moreover have "\<exists>c cs. skip_ws (print_json b (Suc d) u @ print_elems b d us @ r) = c # cs \<and> c \<noteq> CHR '']''"
      using print_head[of u b "Suc d"] JArr.prems(1) Cons by (auto simp: skip_ws_Cons)
    ultimately show ?thesis
      by (auto simp: n Cons parse_value.simps(2) skip_ws_Cons json_ws_def)
  qed
next
  case (JObj kvs)
  obtain n where n: "fuel = Suc n" using JObj.prems(2) by (cases fuel) auto
  have IH: "parse_value f (print_json b (Suc d) u @ q) = Some (u, q)"
    if u: "u \<in> snd ` set kvs" and "jfuel u \<le> f" "no_num q" for u f q
  proof -
    from u obtain k where "(k, u) \<in> set kvs" by auto
    then show ?thesis using JObj.prems(1) that by (intro JObj.IH[of "(k, u)"]) (auto simp: list_all_iff)
  qed
  show ?case
  proof (cases kvs)
    case Nil
    then show ?thesis by (simp add: n parse_value.simps(2) skip_ws_Cons json_ws_def)
  next
    case (Cons kv us)
    obtain k u where kv: "kv = (k, u)" by (cases kv)
    have "parse_members n (quote k @ colon b @ print_json b (Suc d) u @ print_members b d us @ r) []
        = Some (JObj ([] @ (k, u) # us), r)"
      using JObj.prems n Cons kv by (intro parse_members_print IH) auto
    then show ?thesis
      by (simp add: n Cons kv parse_value.simps(2) skip_ws_Cons json_ws_def) (simp add: quote_def)
  qed
qed

lemma jfuel_elems:
  assumes "\<And>v d. v \<in> set vs \<Longrightarrow> jfuel v \<le> 2 * length (print_json b d v)"
  shows "sum_list (map Suc (map jfuel vs)) + 2 \<le> 2 * length (print_elems b d vs)"
  using assms
proof (induction vs)
  case (Cons v vs)
  have "jfuel v \<le> 2 * length (print_json b (Suc d) v)" using Cons.prems by simp
  then show ?case using Cons by fastforce
qed simp

lemma jfuel_members:
  assumes "\<And>v d. v \<in> snd ` set kvs \<Longrightarrow> jfuel v \<le> 2 * length (print_json b d v)"
  shows "sum_list (map (Suc \<circ> snd) (map (map_prod id jfuel) kvs)) + 2 \<le> 2 * length (print_members b d kvs)"
  using assms
proof (induction kvs)
  case (Cons kv kvs)
  obtain k v where kv: "kv = (k, v)" by (cases kv)
  have "jfuel v \<le> 2 * length (print_json b (Suc d) v)" using Cons.prems kv by simp
  moreover have "sum_list (map (Suc \<circ> snd) (map (map_prod id jfuel) kvs)) + 2 \<le> 2 * length (print_members b d kvs)"
    by (rule Cons.IH) (use Cons.prems in auto)
  ultimately show ?case by (simp add: kv comp_def id_def)
qed simp

lemma jfuel_length: "valid_json v \<Longrightarrow> jfuel v \<le> 2 * length (print_json b d v)"
proof (induction v arbitrary: d)
  case (JNum lit)
  then show ?case using number_head[of lit] by auto
next
  case (JBool c)
  then show ?case by (cases c) auto
next
  case (JArr vs)
  show ?case
  proof (cases vs)
    case (Cons u us)
    have "jfuel u \<le> 2 * length (print_json b (Suc d) u)"
      using JArr Cons by (auto simp: list_all_iff)
    moreover have "sum_list (map Suc (map jfuel us)) + 2 \<le> 2 * length (print_elems b d us)"
      using JArr Cons by (intro jfuel_elems) (auto simp: list_all_iff)
    ultimately show ?thesis by (simp add: Cons)
  qed simp
next
  case (JObj kvs)
  have IH: "jfuel u \<le> 2 * length (print_json b d u)" if "u \<in> snd ` set kvs" for u d
  proof -
    from that obtain k where "(k, u) \<in> set kvs" by auto
    then show ?thesis using JObj.prems by (intro JObj.IH[of "(k, u)"]) (auto simp: list_all_iff)
  qed
  show ?case
  proof (cases kvs)
    case (Cons kv us)
    obtain k u where kv: "kv = (k, u)" by (cases kv)
    have "jfuel u \<le> 2 * length (print_json b (Suc d) u)" using IH Cons kv by simp
    moreover have "sum_list (map (Suc \<circ> snd) (map (map_prod id jfuel) us)) + 2 \<le> 2 * length (print_members b d us)"
      using IH Cons by (intro jfuel_members) auto
    ultimately show ?thesis by (simp add: Cons kv comp_def id_def)
  qed simp
qed (auto simp: quote_def)

lemma skip_ws_all: "\<forall>c\<in>set s. json_ws c \<Longrightarrow> skip_ws s = []"
  by (simp add: skip_ws_def)

lemma ws_not_num: "json_ws c \<Longrightarrow> \<not> num_char c"
  by (auto simp: json_ws_def num_char_def is_digit_def less_eq_char_def)

theorem Unmarshal_print:
  assumes "valid_json v" and "\<forall>c\<in>set ws. json_ws c"
  shows "Unmarshal (print_json b d v @ ws) = Some v"
proof -
  have "no_num ws" using assms(2) ws_not_num by (cases ws) (auto simp: no_num_def)
  moreover have "jfuel v \<le> 2 * length (print_json b d v @ ws) + 2"
    using jfuel_length[OF assms(1), of b d] by simp
  ultimately show ?thesis
    using parse_print[OF assms(1)] assms(2) by (simp add: Unmarshal_def skip_ws_all)
qed

section \<open>Fuel\<close>

lemma parse_string_shorter: "parse_string s = Some (t, r) \<Longrightarrow> length r < length s"
proof (induction s arbitrary: t r rule: length_induct)
  case (1 s)
  have IH: "length r' < length s'" if "parse_string s' = Some (t', r')" "length s' < length s" for s' t' r'
    using 1(1) that by blast
  show ?case
  proof (cases s)
    case Nil
    then show ?thesis using 1(2) by (simp add: parse_string.simps[of "[]"])
  next
    case (Cons c cs)
    show ?thesis
    proof (cases "c = CHR 0x5C")
      case True
      show ?thesis
      proof (cases cs)
        case Nil
        then show ?thesis using 1(2) Cons True by (simp add: parse_string.simps[of "_ # _"])
      next
        case (Cons e es)
        then show ?thesis
          using 1(2) \<open>s = c # cs\<close> True
          by (auto simp: parse_string.simps[of "_ # _"] split: if_splits option.splits
              dest!: unicode_escape_shorter) (fastforce dest: IH)+
      qed
    next
      case False
      then show ?thesis
        using 1(2) Cons by (auto simp: parse_string.simps[of "_ # _"] split: if_splits) (fastforce dest: IH)
    qed
  qed
qed

lemma skip_ws_Cons_shorter: "skip_ws s = c # cs \<Longrightarrow> length cs < length s"
  by (metis Suc_le_eq length_Cons length_dropWhile_le skip_ws_def)

lemma number_shorter:
  assumes "is_number (takeWhile num_char s)"
  shows "length (dropWhile num_char s) < length s"
proof -
  have "takeWhile num_char s \<noteq> []" using assms by (auto simp: is_number_def)
  moreover have "length s = length (takeWhile num_char s) + length (dropWhile num_char s)"
    by (metis length_append takeWhile_dropWhile_id)
  ultimately show ?thesis by simp
qed

lemma has_prefix_length: "has_prefix s p \<Longrightarrow> length p \<le> length s"
  by (auto simp: has_prefix_iff)

lemma parse_shorter:
  "(\<forall>s v r. parse_value n s = Some (v, r) \<longrightarrow> length r < length s) \<and>
   (\<forall>s acc v r. parse_elems n s acc = Some (v, r) \<longrightarrow> length r < length s) \<and>
   (\<forall>s acc v r. parse_members n s acc = Some (v, r) \<longrightarrow> length r < length s)"
proof (induction n)
  case (Suc n)
  then have IH: "\<And>s v r. parse_value n s = Some (v, r) \<Longrightarrow> length r < length s"
    "\<And>s acc v r. parse_elems n s acc = Some (v, r) \<Longrightarrow> length r < length s"
    "\<And>s acc v r. parse_members n s acc = Some (v, r) \<Longrightarrow> length r < length s" by blast+
  have "length r < length s" if pv: "parse_value (Suc n) s = Some (v, r)" for s v r
  proof -
    obtain c cs where s: "skip_ws s = c # cs" using pv by (cases "skip_ws s") (auto simp: parse_value.simps(2))
    have "length r \<le> length cs"
      using pv s number_shorter[of "c # cs"]
      by (auto simp: parse_value.simps(2) Let_def split: if_splits list.splits
          dest!: parse_string_shorter IH(2,3) skip_ws_Cons_shorter)
    then show ?thesis using skip_ws_Cons_shorter[OF s] by simp
  qed
  moreover have "length r < length s" if "parse_elems (Suc n) s acc = Some (v, r)" for s acc v r
    using that
    by (auto simp: parse_elems.simps(2) split: if_splits list.splits option.splits
        dest!: IH(1,2) skip_ws_Cons_shorter)
  moreover have "length r < length s" if "parse_members (Suc n) s acc = Some (v, r)" for s acc v r
    using that
    by (auto simp: parse_members.simps(2) split: if_splits list.splits option.splits
        dest!: IH(1,3) skip_ws_Cons_shorter parse_string_shorter)
  ultimately show ?case by blast
qed simp

lemma parse_fuel:
  "(\<forall>m s. 2 * length s < n \<longrightarrow> 2 * length s < m \<longrightarrow> parse_value n s = parse_value m s) \<and>
   (\<forall>m s acc. 2 * length s + 1 < n \<longrightarrow> 2 * length s + 1 < m \<longrightarrow> parse_elems n s acc = parse_elems m s acc) \<and>
   (\<forall>m s acc. 2 * length s + 1 < n \<longrightarrow> 2 * length s + 1 < m \<longrightarrow> parse_members n s acc = parse_members m s acc)"
proof (induction n)
  case (Suc n)
  then have IH: "\<And>m s. 2 * length s < n \<Longrightarrow> 2 * length s < m \<Longrightarrow> parse_value n s = parse_value m s"
    "\<And>m s acc. 2 * length s + 1 < n \<Longrightarrow> 2 * length s + 1 < m \<Longrightarrow> parse_elems n s acc = parse_elems m s acc"
    "\<And>m s acc. 2 * length s + 1 < n \<Longrightarrow> 2 * length s + 1 < m \<Longrightarrow> parse_members n s acc = parse_members m s acc"
    by blast+
  have sh: "\<And>n s v r. parse_value n s = Some (v, r) \<Longrightarrow> length r < length s" using parse_shorter by blast
  have "parse_value (Suc n) s = parse_value m s" if l: "2 * length s < Suc n" "2 * length s < m" for m s
  proof -
    obtain k where k: "m = Suc k" using l(2) by (cases m) auto
    have "parse_members n cs [] = parse_members k cs []" "parse_elems n cs [] = parse_elems k cs []"
      if "skip_ws s = c # cs" for c cs
      using skip_ws_Cons_shorter[OF that] l k by (auto intro!: IH)
    then show ?thesis by (auto simp: k parse_value.simps(2) split: list.split)
  qed
  moreover have "parse_elems (Suc n) s acc = parse_elems m s acc"
    if l: "2 * length s + 1 < Suc n" "2 * length s + 1 < m" for m s acc
  proof -
    obtain k where k: "m = Suc k" using l(2) by (cases m) auto
    have "parse_value n s = parse_value k s" using l k by (intro IH) auto
    moreover have "parse_elems n r' acc' = parse_elems k r' acc'"
      if "parse_value k s = Some (v, r)" "skip_ws r = c # r'" for v r c r' acc'
      using sh[OF that(1)] skip_ws_Cons_shorter[OF that(2)] l k by (intro IH) auto
    ultimately show ?thesis by (auto simp: k parse_elems.simps(2) split: list.split option.split)
  qed
  moreover have "parse_members (Suc n) s acc = parse_members m s acc"
    if l: "2 * length s + 1 < Suc n" "2 * length s + 1 < m" for m s acc
  proof -
    obtain k where k: "m = Suc k" using l(2) by (cases m) auto
    have a: "parse_value n r1 = parse_value k r1"
      if "skip_ws s = q # cs" "parse_string cs = Some (key, r)" "skip_ws r = col # r1" for q cs key r col r1
      using skip_ws_Cons_shorter[OF that(1)] parse_string_shorter[OF that(2)] skip_ws_Cons_shorter[OF that(3)] l k
      by (intro IH) auto
    have b: "parse_members n r3 acc' = parse_members k r3 acc'"
      if "skip_ws s = q # cs" "parse_string cs = Some (key, r)" "skip_ws r = col # r1"
        "parse_value k r1 = Some (v, r2)" "skip_ws r2 = c # r3" for q cs key r col r1 v r2 c r3 acc'
      using skip_ws_Cons_shorter[OF that(1)] parse_string_shorter[OF that(2)] skip_ws_Cons_shorter[OF that(3)]
        sh[OF that(4)] skip_ws_Cons_shorter[OF that(5)] l k
      by (intro IH) auto
    show ?thesis using a b by (auto simp: k parse_members.simps(2) split: list.split option.split)
  qed
  ultimately show ?case by blast
qed simp

lemma parse_value_fuel:
  assumes "2 * length s < n"
  shows "parse_value n s = parse_value (2 * length s + 2) s"
proof -
  have "\<forall>m s. 2 * length s < n \<longrightarrow> 2 * length s < m \<longrightarrow> parse_value n s = parse_value m s"
    using parse_fuel[of n] by (rule conjunct1)
  then show ?thesis using assms by (metis less_add_same_cancel1 zero_less_numeral)
qed

section \<open>Decoding into Go types\<close>

text \<open>An object decodes into a struct member by member, an array into a slice element by element; the
  first value of the wrong type is an error.\<close>

fun fold_option :: "('a \<Rightarrow> 'b \<Rightarrow> 'b option) \<Rightarrow> 'a list \<Rightarrow> 'b \<Rightarrow> 'b option" where
  "fold_option f [] b = Some b"
| "fold_option f (x # xs) b = (case f x b of None \<Rightarrow> None | Some b' \<Rightarrow> fold_option f xs b')"

fun map_option_list :: "('a \<Rightarrow> 'b option) \<Rightarrow> 'a list \<Rightarrow> 'b list option" where
  "map_option_list f [] = Some []"
| "map_option_list f (x # xs) = (case (f x, map_option_list f xs) of
     (Some y, Some ys) \<Rightarrow> Some (y # ys) | _ \<Rightarrow> None)"

text \<open>A value into a field: \<open>null\<close> leaves the field as it is. An integer field takes an integer literal in
  range only.\<close>

definition dec_string :: "json \<Rightarrow> string \<Rightarrow> string option" where
  "dec_string j old = (case j of JStr s \<Rightarrow> Some s | JNull \<Rightarrow> Some old | _ \<Rightarrow> None)"

definition dec_bool :: "json \<Rightarrow> bool \<Rightarrow> bool option" where
  "dec_bool j old = (case j of JBool b \<Rightarrow> Some b | JNull \<Rightarrow> Some old | _ \<Rightarrow> None)"

definition dec_int :: "json \<Rightarrow> int \<Rightarrow> int option" where
  "dec_int j old = (case j of JNum lit \<Rightarrow> Atoi lit | JNull \<Rightarrow> Some old | _ \<Rightarrow> None)"

definition dec_int_ptr :: "json \<Rightarrow> int option \<Rightarrow> int option option" where
  "dec_int_ptr j old = (case j of JNum lit \<Rightarrow> map_option Some (Atoi lit) | JNull \<Rightarrow> Some None | _ \<Rightarrow> None)"

definition dec_slice :: "(json \<Rightarrow> 'a option) \<Rightarrow> json \<Rightarrow> 'a list option" where
  "dec_slice dec j = (case j of JArr js \<Rightarrow> map_option_list dec js | JNull \<Rightarrow> Some [] | _ \<Rightarrow> None)"

definition dec_struct :: "(string \<times> json \<Rightarrow> 'a \<Rightarrow> 'a option) \<Rightarrow> 'a \<Rightarrow> json \<Rightarrow> 'a option" where
  "dec_struct member zero j = (case j of JObj kvs \<Rightarrow> fold_option member kvs zero | JNull \<Rightarrow> Some zero | _ \<Rightarrow> None)"

end
