(* ===== verification/Varlink.thy ===== *)
theory Varlink
  imports Json
begin

text \<open>
  \<^verbatim>\<open>internal/varlink/varlink.go\<close>: a client for one call and one reply over a Unix socket, each a JSON object
  closed by a NUL byte. The service is the parameter \<open>vpeer\<close>, which maps the writes made so far to the
  bytes they make readable, or to \<open>None\<close> when the last write fails.
\<close>

record vconn =
  v_in :: string
  v_out :: "string list"

type_synonym vpeer = "string list \<Rightarrow> string option"

datatype verr =
    VDial string
  | VMarshal
  | VWrite
  | VRead
  | VParse
  | VCallError string "json option"
  | VResult

definition vl_Dial :: "bool \<Rightarrow> string \<Rightarrow> (verr, vconn) outcome" where
  "vl_Dial reachable socketPath = (if reachable then Ok \<lparr>v_in = [], v_out = []\<rparr> else Err (VDial socketPath))"

text \<open>\<open>callMessage\<close> as JSON. The parameters are text already marshalled; marshalling the raw message again does not
  change it.\<close>

definition callMessage :: "string \<Rightarrow> json option \<Rightarrow> json" where
  "callMessage meth params = JObj ([(''method'', JStr meth)] @ (case params of None \<Rightarrow> [] | Some p \<Rightarrow> [(''parameters'', p)]))"

text \<open>\<open>replyMessage\<close>. A raw message is the text of a value, kept here as the value; \<open>null\<close> is such a text.\<close>

record replyMessage =
  r_parameters :: "json option"
  r_continues :: bool
  r_error :: string

definition reply_member :: "string \<times> json \<Rightarrow> replyMessage \<Rightarrow> replyMessage option" where
  "reply_member kv r = (case kv of (k, j) \<Rightarrow>
     if to_lower k = ''parameters'' then Some (r\<lparr>r_parameters := Some j\<rparr>)
     else if to_lower k = ''continues'' then map_option (\<lambda>b. r\<lparr>r_continues := b\<rparr>) (dec_bool j (r_continues r))
     else if to_lower k = ''error'' then map_option (\<lambda>s. r\<lparr>r_error := s\<rparr>) (dec_string j (r_error r))
     else Some r)"

definition decode_reply :: "string \<Rightarrow> replyMessage option" where
  "decode_reply raw = Option.bind (Unmarshal raw) (dec_struct reply_member \<lparr>r_parameters = None, r_continues = False, r_error = []\<rparr>)"

text \<open>\<open>bufio.Reader.ReadBytes(0)\<close> without the NUL, and what is left unread.\<close>

fun readBytes0 :: "string \<Rightarrow> (string \<times> string) option" where
  "readBytes0 [] = None"
| "readBytes0 (b # r) = (if b = CHR 0x00 then Some ([], r)
     else map_option (\<lambda>(l, r'). (b # l, r')) (readBytes0 r))"

definition vconn_write :: "vpeer \<Rightarrow> vconn \<Rightarrow> string \<Rightarrow> bool \<times> vconn" where
  "vconn_write peer c msg =
     (let c' = c\<lparr>v_out := v_out c @ [msg]\<rparr> in
      case peer (v_out c') of
        None \<Rightarrow> (False, c')
      | Some resp \<Rightarrow> (True, c'\<lparr>v_in := v_in c @ resp\<rparr>))"

text \<open>
  \<open>params\<close> is \<open>nil\<close> (\<open>None\<close>), a value \<open>encoding/json\<close> refuses (\<open>Some None\<close>) or one it prints; \<open>result\<close> is \<open>nil\<close>
  or the decoder of the variable the reply is stored in, and the answer is what was stored.
\<close>

definition vl_Call :: "vpeer \<Rightarrow> vconn \<Rightarrow> string \<Rightarrow> json option option \<Rightarrow> (json \<Rightarrow> 'r option) option \<Rightarrow>
    (verr, 'r option) outcome \<times> vconn" where
  "vl_Call peer c meth params result =
     (if params = Some None then (Err VMarshal, c)
      else case vconn_write peer c (print_json False 0 (callMessage meth (Option.bind params id)) @ [CHR 0x00]) of
        (False, c1) \<Rightarrow> (Err VWrite, c1)
      | (True, c1) \<Rightarrow> (case readBytes0 (v_in c1) of
          None \<Rightarrow> (Err VRead, c1\<lparr>v_in := []\<rparr>)
        | Some (raw, r) \<Rightarrow>
          (let c2 = c1\<lparr>v_in := r\<rparr> in
           case decode_reply raw of
             None \<Rightarrow> (Err VParse, c2)
           | Some reply \<Rightarrow>
             if r_error reply \<noteq> [] then (Err (VCallError (r_error reply) (r_parameters reply)), c2)
             else (case (result, r_parameters reply) of
                 (Some dec, Some j) \<Rightarrow> (case dec j of None \<Rightarrow> (Err VResult, c2) | Some x \<Rightarrow> (Ok (Some x), c2))
               | _ \<Rightarrow> (Ok None, c2)))))"

section \<open>Framing\<close>

lemma hex_digits4_no_nul: "CHR 0x00 \<notin> set (hex_digits4 n)"
proof -
  have "\<forall>d\<in>set [0..<16]. digit_char d \<noteq> CHR 0x00" by code_simp
  then have "digit_char (m mod 16) \<noteq> CHR 0x00" for m by simp
  then show ?thesis by (metis hex_digits4_def set_ConsD empty_iff list.set(1))
qed

lemma quote_char_no_nul: "CHR 0x00 \<notin> set (quote_char c)"
  by (cases "c = CHR 0x00") (auto simp: quote_char_def hex_digits4_no_nul)

lemma quote_no_nul: "CHR 0x00 \<notin> set (quote s)"
proof -
  have "CHR 0x00 \<notin> set (quote_body s)"
    by (induction s rule: quote_body.induct) (auto simp: quote_char_no_nul hex_digits4_no_nul)
  then show ?thesis by (simp add: quote_def)
qed

lemma nl_no_nul: "CHR 0x00 \<notin> set (nl b d)" "CHR 0x00 \<notin> set (colon b)"
  by (simp_all add: nl_def colon_def)

lemma number_no_nul: "list_all num_char lit \<Longrightarrow> CHR 0x00 \<notin> set lit"
  by (auto simp: list_all_iff num_char_def is_digit_def less_eq_char_def)

text \<open>JSON text never contains the byte that ends a frame.\<close>

lemma print_no_nul:
  "valid_json v \<longrightarrow> CHR 0x00 \<notin> set (print_json b d v)"
  "list_all valid_json vs \<longrightarrow> CHR 0x00 \<notin> set (print_elems b d vs)"
  "list_all (valid_json \<circ> snd) kvs \<longrightarrow> CHR 0x00 \<notin> set (print_members b d kvs)"
  by (induction b d v and b d vs and b d kvs rule: print_json_print_elems_print_members.induct)
     (auto simp: quote_no_nul nl_no_nul number_no_nul list_all_iff)

lemma readBytes0_frame: "CHR 0x00 \<notin> set s \<Longrightarrow> readBytes0 (s @ CHR 0x00 # r) = Some (s, r)"
  by (induction s) auto

lemma frame_read:
  assumes "valid_json v"
  shows "readBytes0 (print_json False 0 v @ CHR 0x00 # r) = Some (print_json False 0 v, r)" "Unmarshal (print_json False 0 v) = Some v"
  using assms print_no_nul(1) readBytes0_frame Unmarshal_print[of v "[]" False 0] by auto

section \<open>A service\<close>

text \<open>What the protocol asks of a service: it reads one frame, parses it and answers with one frame, either
  parameters or the name of an error with parameters.\<close>

datatype vanswer = Answer "json option" | Refusal string "json option"

fun reply_json :: "vanswer \<Rightarrow> json" where
  "reply_json (Answer q) = JObj (case q of None \<Rightarrow> [] | Some j \<Rightarrow> [(''parameters'', j)])"
| "reply_json (Refusal n q) = JObj ((case q of None \<Rightarrow> [] | Some j \<Rightarrow> [(''parameters'', j)]) @ [(''error'', JStr n)])"

fun valid_answer :: "vanswer \<Rightarrow> bool" where
  "valid_answer (Answer q) = pred_option valid_json q"
| "valid_answer (Refusal n q) = (n \<noteq> [] \<and> pred_option valid_json q)"

definition served :: "(json \<Rightarrow> vanswer) \<Rightarrow> vpeer" where
  "served h outs = (if outs = [] then None else
     (case readBytes0 (last outs) of
        Some (raw, []) \<Rightarrow> map_option (\<lambda>j. print_json False 0 (reply_json (h j)) @ [CHR 0x00]) (Unmarshal raw)
      | _ \<Rightarrow> None))"

fun call_result :: "(json \<Rightarrow> 'r option) option \<Rightarrow> vanswer \<Rightarrow> (verr, 'r option) outcome" where
  "call_result result (Refusal n q) = Err (VCallError n q)"
| "call_result (Some dec) (Answer (Some j)) = (case dec j of None \<Rightarrow> Err VResult | Some x \<Rightarrow> Ok (Some x))"
| "call_result _ (Answer _) = Ok None"

lemma valid_callMessage: "pred_option valid_json p \<Longrightarrow> valid_json (callMessage m p)"
  by (cases p) (auto simp: callMessage_def)

lemma valid_reply: "valid_answer a \<Longrightarrow> valid_json (reply_json a)"
  by (cases a) (auto split: option.splits)

lemma decode_reply_print:
  assumes "valid_answer a"
  shows "decode_reply (print_json False 0 (reply_json a)) = Some (case a of
     Answer q \<Rightarrow> \<lparr>r_parameters = q, r_continues = False, r_error = []\<rparr>
   | Refusal n q \<Rightarrow> \<lparr>r_parameters = q, r_continues = False, r_error = n\<rparr>)"
  using frame_read(2)[OF valid_reply[OF assms]]
  by (cases a) (auto simp: decode_reply_def dec_struct_def reply_member_def to_lower_def lower_char_def less_eq_char_def dec_string_def split: option.split)

text \<open>C40: A Varlink call is the service's answer: against any service that follows the protocol, a call on a
  connection with nothing unread hands the service exactly the method and parameters, returns exactly what it
  answers (the decoded parameters, or its error with its parameters), and leaves nothing unread.\<close>

theorem varlink_call_serves:
  assumes "v_in c = []" and "pred_option valid_json p" and "valid_answer (h (callMessage m p))"
  shows "vl_Call (served h) c m (map_option Some p) result =
    (call_result result (h (callMessage m p)), c\<lparr>v_out := v_out c @ [print_json False 0 (callMessage m p) @ [CHR 0x00]]\<rparr>)"
proof -
  let ?f = "print_json False 0 (callMessage m p)" and ?a = "h (callMessage m p)"
  have s: "served h (v_out c @ [?f @ [CHR 0x00]]) = Some (print_json False 0 (reply_json ?a) @ [CHR 0x00])"
    using frame_read[OF valid_callMessage[OF assms(2)]] by (simp add: served_def)
  have b: "Option.bind (map_option Some p) id = p" "map_option Some p \<noteq> Some None" by (cases p; simp)+
  have r: "readBytes0 (print_json False 0 (reply_json ?a) @ [CHR 0x00]) = Some (print_json False 0 (reply_json ?a), [])"
    by (rule frame_read(1)[OF valid_reply[OF assms(3)]])
  define a t where "a = ?a" and "t = print_json False 0 (reply_json ?a)"
  note eqs = vl_Call_def b vconn_write_def assms(1) s[folded t_def] r[folded t_def] decode_reply_print[OF assms(3), folded t_def, folded a_def] Let_def
  have "vl_Call (served h) c m (map_option Some p) result =
      (call_result result a, c\<lparr>v_out := v_out c @ [?f @ [CHR 0x00]]\<rparr>)"
  proof (cases a)
    case (Answer q)
    then show ?thesis by (cases q; cases result) (simp_all add: eqs split: option.split)
  next
    case (Refusal n q)
    then have "n \<noteq> []" using assms(3) a_def by simp
    then show ?thesis using Refusal by (simp add: eqs)
  qed
  then show ?thesis by (simp add: a_def)
qed

theorem varlink_call_serves_witness:
  "vl_Call (served (\<lambda>j. Answer (Some j))) \<lparr>v_in = [], v_out = []\<rparr> ''a.Ping'' (Some (Some (JObj []))) (Some Some)
    = (Ok (Some (JObj [(''method'', JStr ''a.Ping''), (''parameters'', JObj [])])),
       \<lparr>v_in = [], v_out = [print_json False 0 (callMessage ''a.Ping'' (Some (JObj []))) @ [CHR 0x00]]\<rparr>)"
  using varlink_call_serves[of "\<lparr>v_in = [], v_out = []\<rparr>" "Some (JObj [])" "\<lambda>j. Answer (Some j)" "''a.Ping''" "Some Some"]
  by (simp add: callMessage_def)

end
