(* ===== verification/GoPath.thy ===== *)
theory GoPath
  imports GoStrings
begin

text \<open>
  Go's \<open>path/filepath\<close> on Unix: \<open>Clean\<close>, \<open>Join\<close>, \<open>Base\<close> and \<open>Dir\<close>. A path is a byte
  string; cleaning works on its components.
\<close>

section \<open>Components\<close>

definition comps :: "string \<Rightarrow> string list" where
  "comps p = filter (\<lambda>c. c \<noteq> []) (split_on (CHR ''/'') p)"

text \<open>One step of \<open>Clean\<close>, with the kept components in reverse order: \<open>.\<close> is dropped, \<open>..\<close> pops a
  component, or is dropped at the root, or is kept at the start of a relative path.\<close>

fun clean_push :: "bool \<Rightarrow> string list \<Rightarrow> string \<Rightarrow> string list" where
  "clean_push rooted acc c =
     (if c = ''.'' then acc
      else if c = ''..'' then
        (case acc of
           [] \<Rightarrow> if rooted then [] else [c]
         | x # xs \<Rightarrow> if x = ''..'' then c # acc else xs)
      else c # acc)"

definition clean_comps :: "bool \<Rightarrow> string list \<Rightarrow> string list" where
  "clean_comps rooted cs = rev (foldl (clean_push rooted) [] cs)"

definition is_abs :: "string \<Rightarrow> bool" where
  "is_abs p = (p \<noteq> [] \<and> hd p = CHR ''/'')"

definition abs_path :: "string list \<Rightarrow> string" where
  "abs_path cs = (if cs = [] then ''/'' else concat (map (\<lambda>c. CHR ''/'' # c) cs))"

definition Clean :: "string \<Rightarrow> string" where
  "Clean p = (if p = [] then ''.''
     else if is_abs p then abs_path (clean_comps True (comps p))
     else (let s = join ''/'' (clean_comps False (comps p)) in if s = [] then ''.'' else s))"

text \<open>\<open>filepath.Join\<close>: empty elements are ignored; all empty gives the empty string.\<close>

definition Join :: "string list \<Rightarrow> string" where
  "Join es = (let ne = filter (\<lambda>e. e \<noteq> []) es in if ne = [] then [] else Clean (join ''/'' ne))"

definition Base :: "string \<Rightarrow> string" where
  "Base p = (if p = [] then ''.'' else if comps p = [] then ''/'' else last (comps p))"

text \<open>\<open>filepath.Dir\<close>: everything up to the last slash, cleaned.\<close>

definition Dir :: "string \<Rightarrow> string" where
  "Dir p = Clean (rev (dropWhile (\<lambda>c. c \<noteq> CHR ''/'') (rev p)))"

section \<open>Plain components\<close>

text \<open>A component that \<open>Clean\<close> keeps: not empty, not a dot name, no slash.\<close>

definition plain :: "string \<Rightarrow> bool" where
  "plain c = (c \<noteq> [] \<and> c \<noteq> ''.'' \<and> c \<noteq> ''..'' \<and> CHR ''/'' \<notin> set c)"

lemma plain_push [simp]: "plain c \<Longrightarrow> clean_push rooted acc c = c # acc"
  by (simp add: plain_def)

lemma clean_comps_append:
  "\<forall>c\<in>set ys. plain c \<Longrightarrow> clean_comps r (xs @ ys) = clean_comps r xs @ ys"
proof -
  have "foldl (clean_push r) acc ys = rev ys @ acc" if "\<forall>c\<in>set ys. plain c" for acc
    using that by (induction ys arbitrary: acc) (auto simp del: clean_push.simps)
  then show "\<forall>c\<in>set ys. plain c \<Longrightarrow> ?thesis" by (simp add: clean_comps_def)
qed

lemma clean_comps_plain: "\<forall>c\<in>set ys. plain c \<Longrightarrow> clean_comps r ys = ys"
  using clean_comps_append[of ys r "[]"] by (simp add: clean_comps_def)

lemma split_on_append:
  "split_on sep (s @ sep # t) = split_on sep s @ split_on sep t"
proof (induction s)
  case (Cons c s)
  then show ?case by (cases "split_on sep s") auto
qed simp

lemma comps_append_slash: "comps (s @ CHR ''/'' # t) = comps s @ comps t"
  by (simp add: comps_def split_on_append)

lemma comps_slash [simp]: "comps (CHR ''/'' # t) = comps t"
  by (simp add: comps_def)

lemma split_on_plain: "sep \<notin> set c \<Longrightarrow> split_on sep c = [c]"
  by (induction c) auto

lemma comps_plain: "plain c \<Longrightarrow> comps c = [c]"
  by (simp add: comps_def plain_def split_on_plain)

lemma comps_no_slash: "c \<in> set (comps p) \<Longrightarrow> c \<noteq> [] \<and> CHR ''/'' \<notin> set c"
  by (auto simp: comps_def dest: split_on_no_sep)

lemma comps_abs_path: "\<forall>c\<in>set cs. c \<noteq> [] \<and> CHR ''/'' \<notin> set c \<Longrightarrow> comps (abs_path cs) = cs"
proof -
  have "comps (s @ concat (map (\<lambda>c. CHR ''/'' # c) cs)) = comps s @ cs"
    if "\<forall>c\<in>set cs. c \<noteq> [] \<and> CHR ''/'' \<notin> set c" for s
    using that
  proof (induction cs arbitrary: s)
    case (Cons c cs)
    have "comps ((s @ CHR ''/'' # c) @ concat (map (\<lambda>c. CHR ''/'' # c) cs)) = comps (s @ CHR ''/'' # c) @ cs"
      by (rule Cons.IH) (use Cons.prems in auto)
    moreover have "comps c = [c]" using Cons.prems by (simp add: comps_def split_on_plain)
    ultimately show ?case by (simp add: comps_append_slash)
  qed simp
  from this[of "[]"] show "\<forall>c\<in>set cs. c \<noteq> [] \<and> CHR ''/'' \<notin> set c \<Longrightarrow> ?thesis"
    by (auto simp: abs_path_def comps_def)
qed

lemma abs_path_inject:
  "\<forall>c\<in>set cs. c \<noteq> [] \<and> CHR ''/'' \<notin> set c \<Longrightarrow> \<forall>c\<in>set ds. c \<noteq> [] \<and> CHR ''/'' \<notin> set c \<Longrightarrow>
   abs_path cs = abs_path ds \<longleftrightarrow> cs = ds"
  by (metis comps_abs_path)

lemma clean_comps_sub: "c \<in> set (clean_comps r xs) \<Longrightarrow> c \<in> set xs"
proof -
  have push: "set (clean_push r acc c) \<subseteq> insert c (set acc)" for acc c
    by (auto split: if_splits list.splits)
  have "set (foldl (clean_push r) acc xs) \<subseteq> set acc \<union> set xs" for acc
  proof (induction xs arbitrary: acc)
    case (Cons c xs)
    show ?case using Cons.IH[of "clean_push r acc c"] push[of acc c] by (simp del: clean_push.simps) blast
  qed simp
  then show "c \<in> set (clean_comps r xs) \<Longrightarrow> c \<in> set xs" by (fastforce simp: clean_comps_def)
qed

text \<open>Joining an absolute root with a path below it.\<close>

lemma is_abs_append [simp]: "is_abs p \<Longrightarrow> is_abs (p @ q)"
  by (cases p) (auto simp: is_abs_def)

lemma Join_root:
  assumes "is_abs root" and "p \<noteq> []" and "\<forall>c\<in>set (comps p). plain c"
  shows "Join [root, p] = abs_path (clean_comps True (comps root) @ comps p)"
proof -
  have "root \<noteq> []" using assms(1) by (auto simp: is_abs_def)
  then show ?thesis
    using assms by (simp add: Join_def Clean_def comps_append_slash clean_comps_append)
qed

lemma Join_root_inject:
  assumes "is_abs root" "p \<noteq> []" "\<forall>c\<in>set (comps p). plain c" "q \<noteq> []" "\<forall>c\<in>set (comps q). plain c"
  shows "Join [root, p] = Join [root, q] \<longleftrightarrow> comps p = comps q"
proof -
  have "\<forall>c\<in>set (clean_comps True (comps root) @ comps x). c \<noteq> [] \<and> CHR ''/'' \<notin> set c" for x
    using comps_no_slash by (auto dest: clean_comps_sub)
  then show ?thesis using assms by (simp add: Join_root abs_path_inject)
qed

section \<open>Clean paths\<close>

text \<open>A path in the form the kernel reports it: absolute, no dot names, no doubled slashes.\<close>

definition clean_path :: "string \<Rightarrow> bool" where
  "clean_path p = (comps p \<noteq> [] \<and> list_all plain (comps p) \<and> p = abs_path (comps p))"

lemma plain_parts: "plain c \<Longrightarrow> c \<noteq> [] \<and> CHR ''/'' \<notin> set c"
  by (simp add: plain_def)

lemma abs_path_snoc: "abs_path (cs @ [c]) = (if cs = [] then [] else abs_path cs) @ CHR ''/'' # c"
  by (simp add: abs_path_def)

lemma comps_snoc:
  assumes "\<forall>x\<in>set cs. plain x" "plain c"
  shows "comps (abs_path (cs @ [c])) = cs @ [c]"
  by (rule comps_abs_path) (use assms plain_parts in auto)

lemma Base_snoc:
  assumes "\<forall>x\<in>set cs. plain x" "plain c"
  shows "Base (abs_path (cs @ [c])) = c"
  using comps_snoc[OF assms] by (simp add: Base_def abs_path_def)

lemma Dir_snoc:
  assumes "\<forall>x\<in>set cs. plain x" "plain c"
  shows "Dir (abs_path (cs @ [c])) = abs_path cs"
proof -
  let ?p = "concat (map (\<lambda>c. CHR ''/'' # c) cs)"
  have drop: "dropWhile (\<lambda>x. x \<noteq> CHR ''/'') (rev c @ CHR ''/'' # rev ?p) = CHR ''/'' # rev ?p"
    using plain_parts[OF assms(2)] by (subst dropWhile_append2) auto
  have cs: "comps ?p = cs"
  proof (cases "cs = []")
    case False
    then show ?thesis using comps_abs_path[of cs] assms(1) plain_parts by (simp add: abs_path_def)
  qed (simp add: comps_def)
  have "Dir (abs_path (cs @ [c])) = Clean (?p @ ''/'')"
    using drop by (simp add: Dir_def abs_path_def)
  also have "\<dots> = abs_path cs"
    using comps_append_slash[of ?p "[]"] clean_comps_plain[OF assms(1), of True] cs
    by (cases cs) (simp_all add: Clean_def is_abs_def comps_def)
  finally show ?thesis .
qed

lemma clean_path_snocE:
  assumes "clean_path p"
  obtains cs c where "p = abs_path (cs @ [c])" "\<forall>x\<in>set cs. plain x" "plain c" "Base p = c" "Dir p = abs_path cs"
proof -
  from assms have ne: "comps p \<noteq> []" and pl: "\<forall>x\<in>set (comps p). plain x" and p: "p = abs_path (comps p)"
    by (auto simp: clean_path_def list_all_iff)
  let ?cs = "butlast (comps p)" and ?c = "last (comps p)"
  have sn: "comps p = ?cs @ [?c]" using ne by simp
  have cs: "\<forall>x\<in>set ?cs. plain x" "plain ?c" using pl ne by (auto dest: in_set_butlastD)
  have q: "p = abs_path (?cs @ [?c])" using p sn by simp
  show thesis by (rule that[OF q cs]) (use q Base_snoc[OF cs] Dir_snoc[OF cs] in simp_all)
qed

lemma Join_plain:
  assumes "\<forall>x\<in>set cs. plain x" "plain c" "root = abs_path cs"
  shows "Join [root, c] = abs_path (cs @ [c])"
proof -
  have "comps root = cs" unfolding assms(3) by (rule comps_abs_path) (use assms(1) plain_parts in auto)
  moreover have "is_abs root" by (cases cs) (simp_all add: assms(3) abs_path_def is_abs_def)
  ultimately show ?thesis
    using Join_root[of root c] assms(1,2) plain_parts[OF assms(2)]
    by (simp add: comps_plain clean_comps_plain)
qed

end
