(* ===== verification/World.thy ===== *)
theory World
  imports DBus_Message GoPath "HOL-Library.List_Lexorder" "HOL-Library.Char_ord"
begin

text \<open>
  The world the program acts on and the calls it makes into it. The program's Go code is a state
  transformer on \<open>world\<close>: the file tree, the console, the terminal mode and the history of
  external actions. Everything outside the program is the parameter \<open>env\<close>: what a command
  prints and does to the file tree, which system calls fail, random bytes, the clock, the bus
  daemon and the HTTP and DNS services. An environment answers as a function of the history, so
  it may answer the same request differently at different times.

  A Go function is a value of type \<open>'a go\<close>: it takes the environment and the world and returns
  an outcome and the new world, or \<open>None\<close> when a loop in it has not ended within the fuel the
  environment carries.
\<close>

section \<open>Files\<close>

text \<open>A node has permission bits and an owner (uid, gid). The file tree is an association list from
  cleaned absolute paths to nodes; the root directory always exists. Symbolic links are nodes;
  the paths the program passes to the calls below do not run through a link.\<close>

type_synonym owner = "int \<times> int"

datatype node =
    NFile nat owner string
  | NDir nat owner
  | NLink string

type_synonym fs = "(string \<times> node) list"

datatype errno = ENOENT | ENOTDIR | EISDIR | EEXIST | ENOTEMPTY | EINVAL | EOther

datatype io_op =
    OpReadFile string
  | OpWriteFile string
  | OpMkdirAll string
  | OpMkdirTemp string
  | OpRemove string
  | OpRemoveAll string
  | OpCreate string
  | OpAppend string
  | OpStat string
  | OpLstat string
  | OpChmod string
  | OpChown string
  | OpLchown string
  | OpSymlink string string
  | OpGlob string string
  | OpWalkDir string
  | OpStatfs string

definition is_dir :: "fs \<Rightarrow> string \<Rightarrow> bool" where
  "is_dir f p = (p = ''/'' \<or> (case map_of f p of Some (NDir _ _) \<Rightarrow> True | _ \<Rightarrow> False))"

text \<open>The ancestors of a path and the path itself, outermost first.\<close>

fun prefixes_from :: "string list \<Rightarrow> string list \<Rightarrow> string list" where
  "prefixes_from acc [] = []"
| "prefixes_from acc (c # cs) = abs_path (acc @ [c]) # prefixes_from (acc @ [c]) cs"

definition path_prefixes :: "string \<Rightarrow> string list" where
  "path_prefixes p = prefixes_from [] (comps p)"

text \<open>\<open>os.MkdirAll\<close>: make every missing directory on the way; an existing file in the way is ENOTDIR.
  New nodes belong to the running process, which is root.\<close>

fun fs_mkdirs :: "nat \<Rightarrow> string list \<Rightarrow> fs \<Rightarrow> (errno, fs) outcome" where
  "fs_mkdirs mode [] f = Ok f"
| "fs_mkdirs mode (p # ps) f = (case map_of f p of
     None \<Rightarrow> fs_mkdirs mode ps (AList.update p (NDir mode (0, 0)) f)
   | Some (NDir _ _) \<Rightarrow> fs_mkdirs mode ps f
   | Some _ \<Rightarrow> Err ENOTDIR)"

definition fs_read :: "string \<Rightarrow> fs \<Rightarrow> (errno, string) outcome" where
  "fs_read p f = (case map_of f p of
     Some (NFile _ _ content) \<Rightarrow> Ok content
   | Some (NDir _ _) \<Rightarrow> Err EISDIR
   | Some (NLink _) \<Rightarrow> Err EINVAL
   | None \<Rightarrow> if p = ''/'' then Err EISDIR else Err ENOENT)"

text \<open>Opening for writing, with \<open>O_CREATE\<close>: an existing file keeps its mode and owner, a new one gets
  the mode asked for; \<open>g\<close> says what the writes make of the old content.\<close>

definition fs_put :: "string \<Rightarrow> nat \<Rightarrow> (string \<Rightarrow> string) \<Rightarrow> fs \<Rightarrow> (errno, fs) outcome" where
  "fs_put p mode g f = (case map_of f p of
     Some (NFile m own old) \<Rightarrow> Ok (AList.update p (NFile m own (g old)) f)
   | Some (NDir _ _) \<Rightarrow> Err EISDIR
   | Some (NLink _) \<Rightarrow> Err EINVAL
   | None \<Rightarrow>
       if p = ''/'' then Err EISDIR
       else if is_dir f (Dir p) then Ok (AList.update p (NFile mode (0, 0) (g [])) f)
       else Err ENOENT)"

definition fs_chmod :: "string \<Rightarrow> nat \<Rightarrow> fs \<Rightarrow> (errno, fs) outcome" where
  "fs_chmod p mode f = (case map_of f p of
     Some (NFile _ own c) \<Rightarrow> Ok (AList.update p (NFile mode own c) f)
   | Some (NDir _ own) \<Rightarrow> Ok (AList.update p (NDir mode own) f)
   | Some (NLink _) \<Rightarrow> Err EINVAL
   | None \<Rightarrow> Err ENOENT)"

definition fs_chown :: "string \<Rightarrow> owner \<Rightarrow> fs \<Rightarrow> (errno, fs) outcome" where
  "fs_chown p own f = (case map_of f p of
     Some (NFile m _ c) \<Rightarrow> Ok (AList.update p (NFile m own c) f)
   | Some (NDir m _) \<Rightarrow> Ok (AList.update p (NDir m own) f)
   | Some (NLink _) \<Rightarrow> Ok f
   | None \<Rightarrow> Err ENOENT)"

definition has_child :: "fs \<Rightarrow> string \<Rightarrow> bool" where
  "has_child f p = (\<exists>q\<in>fst ` set f. has_prefix q (p @ ''/''))"

definition fs_remove :: "string \<Rightarrow> fs \<Rightarrow> (errno, fs) outcome" where
  "fs_remove p f = (case map_of f p of
     None \<Rightarrow> Err ENOENT
   | Some (NDir _ _) \<Rightarrow> if has_child f p then Err ENOTEMPTY else Ok (AList.delete p f)
   | Some _ \<Rightarrow> Ok (AList.delete p f))"

definition fs_remove_all :: "string \<Rightarrow> fs \<Rightarrow> fs" where
  "fs_remove_all p f = filter (\<lambda>(q, _). q \<noteq> p \<and> \<not> has_prefix q (p @ ''/'')) f"

definition fs_symlink :: "string \<Rightarrow> string \<Rightarrow> fs \<Rightarrow> (errno, fs) outcome" where
  "fs_symlink target p f =
     (if p = ''/'' \<or> map_of f p \<noteq> None then Err EEXIST
      else if is_dir f (Dir p) then Ok (AList.update p (NLink target) f)
      else Err ENOENT)"

section \<open>Commands, requests and the history\<close>

text \<open>How a command ended: it could not be started, or it exited with a code (\<open>-1\<close> when a signal
  killed it).\<close>

record cmd_result =
  started :: bool
  exit_code :: int
  c_stdout :: string
  c_stderr :: string

record http_request =
  h_method :: string
  h_url :: string
  h_token :: string
  h_body :: "string option"

record http_response =
  h_status :: nat
  h_data :: string
  h_read_ok :: bool

datatype event =
    EIo io_op
  | ECmd "string list"
  | ERand nat
  | EClock
  | ESleep int
  | EHttp http_request
  | ELookup string
  | ETcp string nat
  | EMail string string string
  | EBusDial
  | EBusCall string string string string "gval list"
  | ETermios bool

text \<open>Console output: a line of text, or a line that ends in the text of an error value.\<close>

datatype 'e out_item = OText string | OErr string 'e

datatype gerr =
    Msg string
  | Wrap string gerr
  | ErrNotDone string
  | IoErr io_op errno
  | CmdErr "string list" cmd_result
  | BusErr call_err
  | JsonErr string
  | JoinErr "gerr list"

text \<open>\<open>errors.Is(err, config.ErrNotDone)\<close> looks through every wrapper.\<close>

fun is_not_done :: "gerr \<Rightarrow> bool" where
  "is_not_done (ErrNotDone _) = True"
| "is_not_done (Wrap _ e) = is_not_done e"
| "is_not_done (JoinErr es) = (\<exists>e\<in>set es. is_not_done e)"
| "is_not_done _ = False"

text \<open>The steps of handing a mail to a relay, at each of which it can fail.\<close>

datatype smtp_step = SDial | SHandshake | SMailFrom | SRcptTo | SData | SWrite | SClose

section \<open>The world and its environment\<close>

record world =
  w_fs :: fs
  w_stdin :: string
  w_console :: "gerr out_item list"
  w_echo :: bool
  w_trace :: "event list"

record env =
  e_exec :: "event list \<Rightarrow> fs \<Rightarrow> string list \<Rightarrow> string list \<Rightarrow> string option \<Rightarrow> cmd_result \<times> fs"
  e_io :: "event list \<Rightarrow> fs \<Rightarrow> io_op \<Rightarrow> fs option"
  e_temp :: "event list \<Rightarrow> string"
  e_rand :: "event list \<Rightarrow> nat \<Rightarrow> bytes option"
  e_clock :: "event list \<Rightarrow> int"
  e_http :: "event list \<Rightarrow> http_request \<Rightarrow> http_response option"
  e_lookup :: "event list \<Rightarrow> string \<Rightarrow> bool"
  e_tcp :: "event list \<Rightarrow> string \<Rightarrow> nat \<Rightarrow> bool"
  e_mail :: "event list \<Rightarrow> string \<Rightarrow> string \<Rightarrow> string \<Rightarrow> (smtp_step \<times> gerr) option"
  e_err :: "gerr \<Rightarrow> string"
  e_tty :: "event list \<Rightarrow> bool"
  e_bus_up :: "event list \<Rightarrow> bool"
  e_peer :: "event list \<Rightarrow> peer"
  e_uid :: int
  e_order :: "event list \<Rightarrow> string list \<Rightarrow> string list"
  e_statfs :: "event list \<Rightarrow> string \<Rightarrow> (64 word \<times> 64 word) option"
  e_fuel :: nat

type_synonym 'a go = "env \<Rightarrow> world \<Rightarrow> ((gerr, 'a) outcome \<times> world) option"

section \<open>Sequencing\<close>

definition ret :: "'a \<Rightarrow> 'a go" where
  "ret x = (\<lambda>env w. Some (Ok x, w))"

definition fail :: "gerr \<Rightarrow> 'a go" where
  "fail e = (\<lambda>env w. Some (Err e, w))"

definition panic :: "'a go" where
  "panic = (\<lambda>env w. Some (Panic, w))"

definition gbind :: "'a go \<Rightarrow> ('a \<Rightarrow> 'b go) \<Rightarrow> 'b go" where
  "gbind m f = (\<lambda>env w. case m env w of
     None \<Rightarrow> None
   | Some (Ok x, w') \<Rightarrow> f x env w'
   | Some (Err e, w') \<Rightarrow> Some (Err e, w')
   | Some (Panic, w') \<Rightarrow> Some (Panic, w'))"

text \<open>\<open>if err := m; err != nil \<dots>\<close>: the error as a value.\<close>

definition gtry :: "'a go \<Rightarrow> (gerr + 'a) go" where
  "gtry m = (\<lambda>env w. case m env w of
     None \<Rightarrow> None
   | Some (Ok x, w') \<Rightarrow> Some (Ok (Inr x), w')
   | Some (Err e, w') \<Rightarrow> Some (Ok (Inl e), w')
   | Some (Panic, w') \<Rightarrow> Some (Panic, w'))"

text \<open>\<open>fmt.Errorf("s: %w", err)\<close> on the error of a call.\<close>

definition gwrap :: "string \<Rightarrow> 'a go \<Rightarrow> 'a go" where
  "gwrap s m = (\<lambda>env w. map_option (\<lambda>(r, w'). (owrap (Wrap s) r, w')) (m env w))"

text \<open>\<open>defer d()\<close> around the rest of a function: \<open>d\<close> runs on every way out, its result is ignored.\<close>

definition gdefer :: "unit go \<Rightarrow> 'a go \<Rightarrow> 'a go" where
  "gdefer d m = (\<lambda>env w. case m env w of
     None \<Rightarrow> None
   | Some (r, w') \<Rightarrow> (case d env w' of
       None \<Rightarrow> None
     | Some (Panic, w'') \<Rightarrow> Some (Panic, w'')
     | Some (_, w'') \<Rightarrow> Some (r, w'')))"

text \<open>A \<open>for range\<close> loop that stops at the first error.\<close>

primrec gforeach :: "'a list \<Rightarrow> ('a \<Rightarrow> unit go) \<Rightarrow> unit go" where
  "gforeach [] f = ret ()"
| "gforeach (x # xs) f = gbind (f x) (\<lambda>_. gforeach xs f)"

text \<open>\<open>for k, v := range m\<close> on a map: the keys in an order the environment picks.\<close>

definition grange :: "(string \<times> 'a) list \<Rightarrow> (string \<times> 'a \<Rightarrow> unit go) \<Rightarrow> unit go" where
  "grange m f = (\<lambda>env w. gforeach
     (List.map_filter (\<lambda>k. map_option (Pair k) (map_of m k)) (e_order env (w_trace w) (map fst m))) f env w)"

text \<open>A loop that carries a value along.\<close>

primrec gfold :: "'a list \<Rightarrow> ('a \<Rightarrow> 's \<Rightarrow> 's go) \<Rightarrow> 's \<Rightarrow> 's go" where
  "gfold [] f s = ret s"
| "gfold (x # xs) f s = gbind (f x s) (gfold xs f)"

text \<open>The result of a computation without effects.\<close>

definition of_outcome :: "(gerr, 'a) outcome \<Rightarrow> 'a go" where
  "of_outcome r = (\<lambda>env w. Some (r, w))"

definition get_world :: "world go" where
  "get_world = (\<lambda>env w. Some (Ok w, w))"

definition get_env :: "env go" where
  "get_env = (\<lambda>env w. Some (Ok env, w))"

definition emit :: "event \<Rightarrow> unit go" where
  "emit ev = (\<lambda>env w. Some (Ok (), w\<lparr>w_trace := w_trace w @ [ev]\<rparr>))"

definition print_item :: "gerr out_item \<Rightarrow> unit go" where
  "print_item it = (\<lambda>env w. Some (Ok (), w\<lparr>w_console := w_console w @ [it]\<rparr>))"

abbreviation println :: "string \<Rightarrow> unit go" where
  "println s \<equiv> print_item (OText s)"

section \<open>System calls\<close>

text \<open>A system call on the file tree is recorded, then either fails because the environment says so
  (leaving behind whatever the environment says, unless the call only reads), or does what it does
  on the tree.\<close>

fun read_only :: "io_op \<Rightarrow> bool" where
  "read_only (OpReadFile _) = True"
| "read_only (OpStat _) = True"
| "read_only (OpLstat _) = True"
| "read_only (OpGlob _ _) = True"
| "read_only (OpWalkDir _) = True"
| "read_only (OpStatfs _) = True"
| "read_only _ = False"

definition io_call :: "io_op \<Rightarrow> (fs \<Rightarrow> (errno, 'a \<times> fs) outcome) \<Rightarrow> 'a go" where
  "io_call op g = (\<lambda>env w.
     let w1 = w\<lparr>w_trace := w_trace w @ [EIo op]\<rparr> in
     case e_io env (w_trace w) (w_fs w) op of
       Some f' \<Rightarrow> Some (Err (IoErr op EOther), w1\<lparr>w_fs := if read_only op then w_fs w else f'\<rparr>)
     | None \<Rightarrow> (case g (w_fs w) of
         Ok (x, f') \<Rightarrow> Some (Ok x, w1\<lparr>w_fs := f'\<rparr>)
       | Err e \<Rightarrow> Some (Err (IoErr op e), w1)
       | Panic \<Rightarrow> Some (Panic, w1)))"

abbreviation io_upd :: "io_op \<Rightarrow> (fs \<Rightarrow> (errno, fs) outcome) \<Rightarrow> unit go" where
  "io_upd op g \<equiv> io_call op (\<lambda>f. obind (g f) (\<lambda>f'. Ok ((), f')))"

definition os_ReadFile :: "string \<Rightarrow> string go" where
  "os_ReadFile p = io_call (OpReadFile p) (\<lambda>f. obind (fs_read p f) (\<lambda>c. Ok (c, f)))"

definition os_WriteFile :: "string \<Rightarrow> string \<Rightarrow> nat \<Rightarrow> unit go" where
  "os_WriteFile p content mode = io_upd (OpWriteFile p) (fs_put p mode (\<lambda>_. content))"

definition os_MkdirAll :: "string \<Rightarrow> nat \<Rightarrow> unit go" where
  "os_MkdirAll p mode = io_upd (OpMkdirAll p) (fs_mkdirs mode (path_prefixes p))"

definition os_Chmod :: "string \<Rightarrow> nat \<Rightarrow> unit go" where
  "os_Chmod p mode = io_upd (OpChmod p) (fs_chmod p mode)"

definition os_Chown :: "string \<Rightarrow> owner \<Rightarrow> unit go" where
  "os_Chown p own = io_upd (OpChown p) (fs_chown p own)"

text \<open>\<open>os.OpenFile\<close> with \<open>O_CREATE|O_WRONLY\<close> and nothing written: the file exists afterwards.\<close>

definition os_Touch :: "string \<Rightarrow> nat \<Rightarrow> unit go" where
  "os_Touch p mode = io_upd (OpCreate p) (fs_put p mode (\<lambda>old. old))"

definition os_AppendFile :: "string \<Rightarrow> string \<Rightarrow> nat \<Rightarrow> unit go" where
  "os_AppendFile p s mode = io_upd (OpAppend p) (fs_put p mode (\<lambda>old. old @ s))"

definition os_Remove :: "string \<Rightarrow> unit go" where
  "os_Remove p = io_upd (OpRemove p) (fs_remove p)"

definition os_RemoveAll :: "string \<Rightarrow> unit go" where
  "os_RemoveAll p = io_upd (OpRemoveAll p) (\<lambda>f. Ok (fs_remove_all p f))"

definition os_Symlink :: "string \<Rightarrow> string \<Rightarrow> unit go" where
  "os_Symlink target p = io_upd (OpSymlink target p) (fs_symlink target p)"

definition fs_exists :: "string \<Rightarrow> fs \<Rightarrow> bool" where
  "fs_exists p f = (p = ''/'' \<or> map_of f p \<noteq> None)"

definition os_Stat :: "string \<Rightarrow> unit go" where
  "os_Stat p = io_call (OpStat p) (\<lambda>f. if fs_exists p f then Ok ((), f) else Err ENOENT)"

definition os_Lstat :: "string \<Rightarrow> unit go" where
  "os_Lstat p = io_call (OpLstat p) (\<lambda>f. if fs_exists p f then Ok ((), f) else Err ENOENT)"

text \<open>\<open>os.MkdirTemp\<close>: a fresh directory whose name the environment picks.\<close>

definition os_MkdirTemp :: "string \<Rightarrow> string go" where
  "os_MkdirTemp pattern = gbind get_env (\<lambda>env. gbind get_world (\<lambda>w.
     let d = ''/tmp/'' @ pattern @ e_temp env (w_trace w) in
     io_call (OpMkdirTemp d) (\<lambda>f. obind (fs_mkdirs 448 (path_prefixes d) f) (\<lambda>f'. Ok (d, f')))))"

text \<open>\<open>filepath.Glob(dir/*suffix)\<close> for a literal directory and a literal suffix: the entries of the
  directory with that suffix, in lexical order. It ignores I/O errors.\<close>

definition fs_glob :: "string \<Rightarrow> string \<Rightarrow> fs \<Rightarrow> string list" where
  "fs_glob dir suffix f = sort (filter (\<lambda>p. Dir p = dir \<and> has_suffix (Base p) suffix) (map fst f))"

definition filepath_Glob :: "string \<Rightarrow> string \<Rightarrow> string list go" where
  "filepath_Glob dir suffix = io_call (OpGlob dir suffix) (\<lambda>f. Ok (fs_glob dir suffix f, f))"

text \<open>\<open>os.IsNotExist(err)\<close> on the error of a system call.\<close>

fun is_not_exist :: "gerr \<Rightarrow> bool" where
  "is_not_exist (IoErr _ ENOENT) = True"
| "is_not_exist _ = False"

section \<open>Console input\<close>

text \<open>\<open>bufio.Reader.ReadString('\n')\<close> on the console: up to and including the newline; at the end of
  the input it is an error and the rest is consumed.\<close>

fun read_line :: "string \<Rightarrow> (string \<times> string) option" where
  "read_line [] = None"
| "read_line (c # s) = (if c = CHR 0x0A then Some ([c], s) else
     (case read_line s of None \<Rightarrow> None | Some (l, r) \<Rightarrow> Some (c # l, r)))"

lemma read_line_shorter: "read_line s = Some (l, r) \<Longrightarrow> s = l @ r \<and> l \<noteq> []"
  by (induction s arbitrary: l) (auto split: if_splits option.splits)

definition read_string :: "string go" where
  "read_string = (\<lambda>env w. case read_line (w_stdin w) of
     None \<Rightarrow> Some (Err (Msg ''EOF''), w\<lparr>w_stdin := []\<rparr>)
   | Some (l, r) \<Rightarrow> Some (Ok l, w\<lparr>w_stdin := r\<rparr>))"

section \<open>Clock and randomness\<close>

definition time_Now :: "int go" where
  "time_Now = (\<lambda>env w. Some (Ok (e_clock env (w_trace w)), w\<lparr>w_trace := w_trace w @ [EClock]\<rparr>))"

definition rand_Read :: "nat \<Rightarrow> bytes go" where
  "rand_Read n = (\<lambda>env w.
     let w1 = w\<lparr>w_trace := w_trace w @ [ERand n]\<rparr> in
     case e_rand env (w_trace w) n of
       None \<Rightarrow> Some (Err (Msg ''rand''), w1)
     | Some bs \<Rightarrow> Some (Ok (take n (bs @ replicate n 0)), w1))"

section \<open>Rules\<close>

named_theorems go_simps \<open>sequencing with a first part that is known\<close>
named_theorems grows \<open>programs whose history only grows\<close>

lemma ret_run [go_simps]: "ret x env w = Some (Ok x, w)"
  by (simp add: ret_def)

lemma fail_run [go_simps]: "fail e env w = Some (Err e, w)"
  by (simp add: fail_def)

lemma of_outcome_run [go_simps]: "of_outcome r env w = Some (r, w)"
  by (simp add: of_outcome_def)

lemma panic_run [go_simps]: "panic env w = Some (Panic, w)"
  by (simp add: panic_def)

lemma gbind_Ok [go_simps]: "m env w = Some (Ok x, w') \<Longrightarrow> gbind m f env w = f x env w'"
  by (simp add: gbind_def)

lemma gbind_Err [go_simps]: "m env w = Some (Err e, w') \<Longrightarrow> gbind m f env w = Some (Err e, w')"
  by (simp add: gbind_def)

lemma gbind_Panic [go_simps]: "m env w = Some (Panic, w') \<Longrightarrow> gbind m f env w = Some (Panic, w')"
  by (simp add: gbind_def)

lemma gbind_None [go_simps]: "m env w = None \<Longrightarrow> gbind m f env w = None"
  by (simp add: gbind_def)

lemma gbind_SomeE:
  assumes "gbind m f env w = Some (r, w')"
  obtains (Ok) x w1 where "m env w = Some (Ok x, w1)" "f x env w1 = Some (r, w')"
  | (Err) e where "m env w = Some (Err e, w')" "r = Err e"
  | (Panic) "m env w = Some (Panic, w')" "r = Panic"
  using assms by (auto simp: gbind_def split: option.splits prod.splits outcome.splits)

lemma gbind_eq_Ok:
  "gbind m f env w = Some (Ok y, w') \<longleftrightarrow>
   (\<exists>x w1. m env w = Some (Ok x, w1) \<and> f x env w1 = Some (Ok y, w'))"
  by (auto simp: gbind_def split: option.splits prod.splits outcome.splits)

lemma gwrap_eq_Ok: "gwrap s m env w = Some (Ok y, w') \<longleftrightarrow> m env w = Some (Ok y, w')"
  by (auto simp: gwrap_def owrap_eq_Ok)

lemma gwrap_Ok [go_simps]: "m env w = Some (Ok y, w') \<Longrightarrow> gwrap s m env w = Some (Ok y, w')"
  by (simp add: gwrap_def)

lemma gwrap_Err [go_simps]: "m env w = Some (Err e, w') \<Longrightarrow> gwrap s m env w = Some (Err (Wrap s e), w')"
  by (simp add: gwrap_def)

lemma get_world_run [go_simps]: "get_world env w = Some (Ok w, w)"
  by (simp add: get_world_def)

lemma get_env_run [go_simps]: "get_env env w = Some (Ok env, w)"
  by (simp add: get_env_def)

lemma emit_run [go_simps]: "emit ev env w = Some (Ok (), w\<lparr>w_trace := w_trace w @ [ev]\<rparr>)"
  by (simp add: emit_def)

lemma print_item_run [go_simps]: "print_item it env w = Some (Ok (), w\<lparr>w_console := w_console w @ [it]\<rparr>)"
  by (simp add: print_item_def)

text \<open>An invariant of a program: it holds of every world the program ends in when it holds of the
  world it starts in, whatever the environment.\<close>

definition keeps :: "(world \<Rightarrow> world \<Rightarrow> bool) \<Rightarrow> 'a go \<Rightarrow> bool" where
  "keeps R m \<longleftrightarrow> (\<forall>env w r w'. m env w = Some (r, w') \<longrightarrow> R w w')"

locale world_order =
  fixes R :: "world \<Rightarrow> world \<Rightarrow> bool"
  assumes refl [simp]: "R w w"
    and trans: "R w w1 \<Longrightarrow> R w1 w2 \<Longrightarrow> R w w2"
begin

lemma keeps_ret [intro!, simp]: "keeps R (ret x)"
  by (simp add: keeps_def ret_def)

lemma keeps_fail [intro!, simp]: "keeps R (fail e)"
  by (simp add: keeps_def fail_def)

lemma keeps_of_outcome [intro!, simp]: "keeps R (of_outcome r)"
  by (simp add: keeps_def of_outcome_def)

lemma keeps_panic [intro!, simp]: "keeps R panic"
  by (simp add: keeps_def panic_def)

lemma keeps_get [intro!, simp]: "keeps R get_world" "keeps R get_env"
  by (simp_all add: keeps_def get_world_def get_env_def)

lemma keeps_bind [intro!]: "keeps R m \<Longrightarrow> (\<And>x. keeps R (f x)) \<Longrightarrow> keeps R (gbind m f)"
  unfolding keeps_def by (blast elim: gbind_SomeE intro: trans)

lemma keeps_wrap [intro!]: "keeps R m \<Longrightarrow> keeps R (gwrap s m)"
  by (auto simp: keeps_def gwrap_def)

lemma keeps_try [intro!]: "keeps R m \<Longrightarrow> keeps R (gtry m)"
  by (auto simp: keeps_def gtry_def split: option.splits prod.splits outcome.splits)

lemma keeps_defer [intro!]: "keeps R d \<Longrightarrow> keeps R m \<Longrightarrow> keeps R (gdefer d m)"
  unfolding keeps_def gdefer_def
  by (auto split: option.splits prod.splits outcome.splits) (blast intro: trans)+

lemma keeps_foreach [intro!]: "(\<And>x. keeps R (f x)) \<Longrightarrow> keeps R (gforeach xs f)"
  by (induction xs) auto

lemma keeps_fold [intro!]: "(\<And>x s. keeps R (f x s)) \<Longrightarrow> keeps R (gfold xs f s)"
  by (induction xs arbitrary: s) auto

lemma keeps_range [intro!]:
  assumes "\<And>x. keeps R (f x)"
  shows "keeps R (grange m f)"
proof -
  have "keeps R (gforeach xs f)" for xs by (rule keeps_foreach) (rule assms)
  then show ?thesis unfolding keeps_def grange_def by blast
qed

end

text \<open>The history of external actions is never rewritten.\<close>

definition longer :: "world \<Rightarrow> world \<Rightarrow> bool" where
  "longer w w' \<longleftrightarrow> (\<exists>t. w_trace w' = w_trace w @ t)"

interpretation lg: world_order longer
  by unfold_locales (auto simp: longer_def)

lemma io_call_grows [intro!, grows]: "keeps longer (io_call op g)"
  by (auto simp: keeps_def io_call_def longer_def Let_def split: option.splits outcome.splits)

section \<open>Facts about the file tree\<close>

lemma map_of_update [simp]: "map_of (AList.update k v f) = (map_of f)(k \<mapsto> v)"
  by (rule update_conv')

lemma io_call_Ok_iff:
  "io_call op g env w = Some (Ok x, w') \<longleftrightarrow>
   e_io env (w_trace w) (w_fs w) op = None \<and>
   (\<exists>f'. g (w_fs w) = Ok (x, f') \<and> w' = w\<lparr>w_trace := w_trace w @ [EIo op], w_fs := f'\<rparr>)"
  by (auto simp: io_call_def Let_def split: option.splits outcome.splits)

lemma io_upd_Ok_iff:
  "io_upd op g env w = Some (Ok x, w') \<longleftrightarrow>
   e_io env (w_trace w) (w_fs w) op = None \<and>
   (\<exists>f'. g (w_fs w) = Ok f' \<and> w' = w\<lparr>w_trace := w_trace w @ [EIo op], w_fs := f'\<rparr>)"
  by (auto simp: io_call_Ok_iff obind_eq_Ok)

lemma fs_mkdirs_Ok:
  "fs_mkdirs mode ps f = Ok f' \<Longrightarrow>
   (\<forall>p\<in>set ps. \<exists>m own. map_of f' p = Some (NDir m own)) \<and>
   (\<forall>p. map_of f p \<noteq> None \<or> p \<notin> set ps \<longrightarrow> map_of f' p = map_of f p)"
proof (induction mode ps f rule: fs_mkdirs.induct)
  case (2 mode p ps f)
  show ?case
  proof (cases "map_of f p")
    case None
    then have "fs_mkdirs mode ps (AList.update p (NDir mode (0, 0)) f) = Ok f'" using 2 by simp
    from 2(1)[OF None this] show ?thesis using None by (auto split: if_splits)
  next
    case (Some n)
    then obtain m own where n: "n = NDir m own" using 2 by (cases n) auto
    from 2(2)[OF Some n] 2(3) Some n show ?thesis by (auto)
  qed
qed simp

lemma fs_put_Ok:
  "fs_put p mode g f = Ok f' \<longleftrightarrow>
   (\<exists>m own old. map_of f p = Some (NFile m own old) \<and> f' = AList.update p (NFile m own (g old)) f) \<or>
   (map_of f p = None \<and> p \<noteq> ''/'' \<and> is_dir f (Dir p) \<and> f' = AList.update p (NFile mode (0, 0) (g [])) f)"
  by (auto simp: fs_put_def split: option.splits node.splits if_splits)

lemma fs_chmod_Ok_file:
  "map_of f p = Some (NFile m own c) \<Longrightarrow> fs_chmod p mode f = Ok f' \<longleftrightarrow> f' = AList.update p (NFile mode own c) f"
  by (auto simp: fs_chmod_def)

lemma gtry_Ok [go_simps]: "m env w = Some (Ok x, w') \<Longrightarrow> gtry m env w = Some (Ok (Inr x), w')"
  by (simp add: gtry_def)

lemma gtry_Err [go_simps]: "m env w = Some (Err e, w') \<Longrightarrow> gtry m env w = Some (Ok (Inl e), w')"
  by (simp add: gtry_def)

lemma os_ReadFile_Ok:
  assumes "e_io env (w_trace w) (w_fs w) (OpReadFile p) = None" "map_of (w_fs w) p = Some (NFile m own c)"
  shows "os_ReadFile p env w = Some (Ok c, w\<lparr>w_trace := w_trace w @ [EIo (OpReadFile p)]\<rparr>)"
  using assms by (simp add: os_ReadFile_def io_call_def fs_read_def Let_def)


section \<open>A quiet environment\<close>

text \<open>Every command succeeds and prints nothing, no call fails: the environment the examples run in.\<close>

definition quiet_env :: env where
  "quiet_env = \<lparr>e_exec = (\<lambda>_ f _ _ _. (\<lparr>started = True, exit_code = 0, c_stdout = [], c_stderr = []\<rparr>, f)),
     e_io = (\<lambda>_ _ _. None), e_temp = (\<lambda>_. ''1''), e_rand = (\<lambda>_ n. Some (replicate n 0)),
     e_clock = (\<lambda>_. 0), e_http = (\<lambda>_ _. None), e_lookup = (\<lambda>_ _. False), e_tcp = (\<lambda>_ _ _. True),
     e_mail = (\<lambda>_ _ _ _. None), e_err = (\<lambda>_. ''error''), e_tty = (\<lambda>_. False), e_bus_up = (\<lambda>_. False), e_peer = (\<lambda>_ _. None),
     e_uid = 0, e_order = (\<lambda>_ ks. ks), e_statfs = (\<lambda>_ _. None), e_fuel = 100\<rparr>"

definition empty_world :: world where
  "empty_world = \<lparr>w_fs = [], w_stdin = [], w_console = [], w_echo = True, w_trace = []\<rparr>"

section \<open>Files and loops\<close>

text \<open>What regular files hold.\<close>

definition file_at :: "fs \<Rightarrow> string \<Rightarrow> string option" where
  "file_at f p = (case map_of f p of Some (NFile _ _ c) \<Rightarrow> Some c | _ \<Rightarrow> None)"

lemma file_at_mkdirs: "fs_mkdirs mode ps f = Ok f' \<Longrightarrow> file_at f' = file_at f"
proof (induction mode ps f rule: fs_mkdirs.induct)
  case (2 mode p ps f)
  then show ?case by (cases "map_of f p") (auto simp: file_at_def fun_eq_iff split: node.splits if_splits)
qed simp

lemma file_at_put: "fs_put p mode (\<lambda>_. c) f = Ok f' \<Longrightarrow> file_at f' = (file_at f)(p \<mapsto> c)"
  by (auto simp: fs_put_Ok file_at_def fun_eq_iff)

lemma os_ReadFile_Ok_iff:
  "os_ReadFile p env w = Some (Ok c, w') \<longleftrightarrow> e_io env (w_trace w) (w_fs w) (OpReadFile p) = None \<and>
     file_at (w_fs w) p = Some c \<and> w' = w\<lparr>w_trace := w_trace w @ [EIo (OpReadFile p)]\<rparr>"
  by (auto simp: os_ReadFile_def io_call_Ok_iff obind_eq_Ok fs_read_def file_at_def split: option.splits node.splits if_splits)

lemma os_WriteFile_files: "os_WriteFile p c mode env w = Some (Ok x, w') \<Longrightarrow> file_at (w_fs w') = (file_at (w_fs w))(p \<mapsto> c)"
  by (auto simp: os_WriteFile_def io_upd_Ok_iff dest: file_at_put)

lemma os_MkdirAll_files: "os_MkdirAll p mode env w = Some (Ok x, w') \<Longrightarrow> file_at (w_fs w') = file_at (w_fs w)"
  by (auto simp: os_MkdirAll_def io_upd_Ok_iff dest: file_at_mkdirs)

lemma gforeach_Ok:
  "gforeach [] f env w = Some (Ok u, w') \<longleftrightarrow> w' = w"
  "gforeach (x # xs) f env w = Some (Ok u, w') \<longleftrightarrow> (\<exists>w1. f x env w = Some (Ok (), w1) \<and> gforeach xs f env w1 = Some (Ok u, w'))"
  by (auto simp: gbind_eq_Ok ret_def)

text \<open>A tree all of whose paths are clean.\<close>

definition clean_fs :: "fs \<Rightarrow> bool" where
  "clean_fs f = (\<forall>p\<in>fst ` set f. clean_path p)"

lemma prefixes_clean:
  "\<forall>c\<in>set acc. plain c \<Longrightarrow> \<forall>c\<in>set cs. plain c \<Longrightarrow> \<forall>p\<in>set (prefixes_from acc cs). clean_path p"
proof (induction acc cs rule: prefixes_from.induct)
  case (2 acc c cs)
  then have "clean_path (abs_path (acc @ [c]))" using comps_snoc[of acc c] by (auto simp: clean_path_def list_all_iff)
  then show ?case using 2 by auto
qed simp

lemma clean_fs_mkdirs:
  "fs_mkdirs mode ps f = Ok f' \<Longrightarrow> \<forall>p\<in>set ps. clean_path p \<Longrightarrow> clean_fs f \<Longrightarrow> clean_fs f'"
proof (induction mode ps f rule: fs_mkdirs.induct)
  case (2 mode p ps f)
  then show ?case by (cases "map_of f p") (auto simp: clean_fs_def dom_update split: node.splits)
qed simp

lemma os_MkdirAll_clean:
  assumes "os_MkdirAll (abs_path cs) mode env w = Some (Ok x, w')" "\<forall>c\<in>set cs. plain c" "clean_fs (w_fs w)"
  shows "clean_fs (w_fs w')"
proof -
  have "comps (abs_path cs) = cs" by (rule comps_abs_path) (use assms(2) plain_parts in auto)
  then have "\<forall>p\<in>set (path_prefixes (abs_path cs)). clean_path p"
    using prefixes_clean[of "[]" cs] assms(2) by (simp add: path_prefixes_def)
  then show ?thesis using assms clean_fs_mkdirs by (auto simp: os_MkdirAll_def io_upd_Ok_iff)
qed

lemma quiet_io: "io_call op g quiet_env w = (case g (w_fs w) of
     Ok (x, f') \<Rightarrow> Some (Ok x, w\<lparr>w_trace := w_trace w @ [EIo op], w_fs := f'\<rparr>)
   | Err e \<Rightarrow> Some (Err (IoErr op e), w\<lparr>w_trace := w_trace w @ [EIo op]\<rparr>)
   | Panic \<Rightarrow> Some (Panic, w\<lparr>w_trace := w_trace w @ [EIo op]\<rparr>))"
  by (simp add: io_call_def quiet_env_def Let_def)

lemma gbind_assoc: "gbind (gbind m f) g = gbind m (\<lambda>x. gbind (f x) g)"
  by (auto simp: gbind_def fun_eq_iff split: option.split prod.split outcome.split)

lemma gbind_ret: "gbind (ret x) f = f x"
  by (simp add: gbind_def ret_def fun_eq_iff)

lemma gforeach_append: "gforeach (xs @ ys) f = gbind (gforeach xs f) (\<lambda>_. gforeach ys f)"
  by (induction xs) (simp_all add: gbind_assoc gbind_ret)

lemma gforeach_map: "gforeach (map g xs) f = gforeach xs (\<lambda>x. f (g x))"
  by (induction xs) simp_all

lemma gforeach_one: "gforeach [x] f = f x"
  by (auto simp: gbind_def ret_def fun_eq_iff split: option.split prod.split outcome.split)

lemma io_call_trace: "io_call op g env w = Some (r, w') \<Longrightarrow> w_trace w' = w_trace w @ [EIo op]"
  by (auto simp: io_call_def Let_def split: option.splits outcome.splits)

lemma gwrap_eq_Err: "gwrap s m env w = Some (Err e, w') \<longleftrightarrow> (\<exists>e'. m env w = Some (Err e', w') \<and> e = Wrap s e')"
  by (cases "m env w") (auto simp: gwrap_def split: prod.splits elim: owrap.elims)

lemma gfold_Cons_run: "f x s env w = Some (Ok s1, w1) \<Longrightarrow> gfold (x # xs) f s env w = gfold xs f s1 env w1"
  by (simp add: gbind_def)

lemma gfold_total:
  assumes "\<And>x s w. \<exists>s' w'. f x s env w = Some (Ok s', w')"
  shows "\<exists>s' w'. gfold xs f s env w = Some (Ok s', w')"
proof (induction xs arbitrary: s w)
  case (Cons x xs)
  obtain s1 w1 where "f x s env w = Some (Ok s1, w1)" using assms by blast
  then show ?case using Cons.IH by (simp add: gbind_def)
qed (simp add: ret_def)

lemma keepsD: "keeps R m \<Longrightarrow> m env w = Some (r, w') \<Longrightarrow> R w w'"
  by (auto simp: keeps_def)

lemma mkdir_write_files:
  assumes "gbind (gwrap a (os_MkdirAll d m)) (\<lambda>_. gwrap b (os_WriteFile p c m')) env w = Some (Ok x, w')"
  shows "file_at (w_fs w') = (file_at (w_fs w))(p \<mapsto> c)"
  using assms by (auto simp: gbind_eq_Ok gwrap_eq_Ok os_MkdirAll_files os_WriteFile_files)

end
