(* ===== verification/Config.thy ===== *)
theory Config
  imports World Json
begin

text \<open>
  \<^verbatim>\<open>internal/config/config.go\<close>: the paths of the appliance's state, \<open>config.json\<close>, the stage
  markers and the secret generator.
\<close>

section \<open>Paths and the store\<close>

definition StateDir :: string where "StateDir = ''/var/lib/slfhst''"
definition ConfigDir :: string where "ConfigDir = ''/etc/slfhst''"
definition ConfigFile :: string where "ConfigFile = ConfigDir @ ''/config.json''"
definition TemplatesDir :: string where "TemplatesDir = ''/usr/share/slfhst/templates''"
definition DataDir :: string where "DataDir = ''/srv/data''"
definition ServiceUser :: string where "ServiceUser = ''svc''"
definition ServiceHomeDir :: string where "ServiceHomeDir = ''/home/svc''"

record store =
  Root :: string

definition store_path :: "store \<Rightarrow> string \<Rightarrow> string" where
  "store_path s p = (if Root s = [] then p else Join [Root s, p])"

section \<open>The configuration map\<close>

text \<open>A \<open>map[string]any\<close>: the nil map, or a map with its entries. Reading works on both; assigning to
  an entry of the nil map panics.\<close>

datatype cfg = NilMap | GoMap "(string \<times> json) list"

fun cfg_entries :: "cfg \<Rightarrow> (string \<times> json) list" where
  "cfg_entries NilMap = []"
| "cfg_entries (GoMap kvs) = kvs"

text \<open>\<open>v, _ := cfg[key].(string)\<close>: the empty string when the key is missing or is not a string.\<close>

definition cfg_str :: "cfg \<Rightarrow> string \<Rightarrow> string" where
  "cfg_str cfg key = (case map_of (cfg_entries cfg) key of Some (JStr v) \<Rightarrow> v | _ \<Rightarrow> [])"

definition cfg_has :: "cfg \<Rightarrow> string \<Rightarrow> bool" where
  "cfg_has cfg key = (map_of (cfg_entries cfg) key \<noteq> None)"

definition cfg_set :: "string \<Rightarrow> json \<Rightarrow> cfg \<Rightarrow> cfg go" where
  "cfg_set key v cfg = (case cfg of
     NilMap \<Rightarrow> panic
   | GoMap kvs \<Rightarrow> ret (GoMap (AList.update key v kvs)))"

section \<open>Loading and saving\<close>

text \<open>\<open>json.Unmarshal(data, &cfg)\<close> into a \<open>map[string]any\<close>: \<open>null\<close> gives the nil map, anything else
  that is not an object is an error.\<close>

definition cfg_of_json :: "json \<Rightarrow> cfg option" where
  "cfg_of_json j = (case j of JObj kvs \<Rightarrow> Some (GoMap kvs) | JNull \<Rightarrow> Some NilMap | _ \<Rightarrow> None)"

definition json_of_cfg :: "cfg \<Rightarrow> json" where
  "json_of_cfg cfg = (case cfg of NilMap \<Rightarrow> JNull | GoMap kvs \<Rightarrow> JObj kvs)"

definition Load :: "store \<Rightarrow> cfg go" where
  "Load s = gbind (gtry (os_ReadFile (store_path s ConfigFile))) (\<lambda>res. case res of
     Inl err \<Rightarrow> if is_not_exist err then ret (GoMap []) else fail (Wrap ''config: read'' err)
   | Inr data \<Rightarrow> (case Unmarshal data of
       None \<Rightarrow> fail (Wrap ''config: parse'' (JsonErr data))
     | Some j \<Rightarrow> (case cfg_of_json j of
         None \<Rightarrow> fail (Wrap ''config: parse'' (JsonErr data))
       | Some cfg \<Rightarrow> ret cfg)))"

definition Save :: "store \<Rightarrow> cfg \<Rightarrow> unit go" where
  "Save s cfg =
     gbind (gwrap ''config: mkdir'' (os_MkdirAll (store_path s ConfigDir) 0x1ED)) (\<lambda>_.
     let data = MarshalIndent_map (json_of_cfg cfg) @ [CHR 0x0A];
         path = store_path s ConfigFile in
     gbind (gwrap ''config: write'' (os_WriteFile path data 0x180)) (\<lambda>_.
     gwrap ''config: chmod'' (os_Chmod path 0x180)))"

text \<open>\<open>for k, v := range kv { cfg[k] = v }\<close>.\<close>

fun cfg_merge :: "(string \<times> json) list \<Rightarrow> cfg \<Rightarrow> cfg go" where
  "cfg_merge [] cfg = ret cfg"
| "cfg_merge ((k, v) # kvs) cfg = gbind (cfg_set k v cfg) (cfg_merge kvs)"

definition Update :: "store \<Rightarrow> (string \<times> json) list \<Rightarrow> unit go" where
  "Update s kv = gbind (Load s) (\<lambda>cfg. gbind (cfg_merge kv cfg) (Save s))"

section \<open>Markers\<close>

definition markerPath :: "store \<Rightarrow> string \<Rightarrow> string" where
  "markerPath s name = store_path s (Join [StateDir, name @ ''.done''])"

definition MarkDone :: "store \<Rightarrow> string \<Rightarrow> unit go" where
  "MarkDone s name =
     gbind (gwrap ''config: mkdir'' (os_MkdirAll (store_path s StateDir) 0x1ED)) (\<lambda>_.
     gwrap ''config: mark done'' (os_Touch (markerPath s name) 0x1A4))"

definition IsDone :: "store \<Rightarrow> string \<Rightarrow> bool go" where
  "IsDone s name = gbind (gtry (os_Stat (markerPath s name))) (\<lambda>res. ret (\<not> isl res))"

definition RequireDone :: "store \<Rightarrow> string \<Rightarrow> unit go" where
  "RequireDone s name = gbind (IsDone s name) (\<lambda>done. if done then ret () else fail (ErrNotDone name))"

section \<open>Secrets\<close>

text \<open>\<open>base64.RawURLEncoding.EncodeToString\<close>: no padding, \<open>-\<close> and \<open>_\<close> for the last two digits.\<close>

definition b64_alphabet :: string where
  "b64_alphabet = ''ABCDEFGHIJKLMNOPQRSTUVWXYZabcdefghijklmnopqrstuvwxyz0123456789-_''"

definition b64_digit :: "nat \<Rightarrow> char" where
  "b64_digit n = b64_alphabet ! n"

fun b64_encode :: "nat list \<Rightarrow> string" where
  "b64_encode (a # b # c # bs) =
     [b64_digit (a div 4), b64_digit (a mod 4 * 16 + b div 16),
      b64_digit (b mod 16 * 4 + c div 64), b64_digit (c mod 64)] @ b64_encode bs"
| "b64_encode [a, b] = [b64_digit (a div 4), b64_digit (a mod 4 * 16 + b div 16), b64_digit (b mod 16 * 4)]"
| "b64_encode [a] = [b64_digit (a div 4), b64_digit (a mod 4 * 16)]"
| "b64_encode [] = []"

definition GenSecret :: "int \<Rightarrow> string go" where
  "GenSecret nbytes =
     (let n = (if nbytes \<le> 0 then 24 else nat nbytes) in
      gbind (gwrap ''config: generate secret'' (rand_Read n)) (\<lambda>buf. ret (b64_encode (map unat buf))))"

section \<open>JSON of a configuration\<close>

lemma distinct_fst_sort: "distinct (map fst (sort_key fst l)) \<longleftrightarrow> distinct (map fst l)"
  by (simp add: distinct_map)

lemma map_fst_map_prod [simp]: "map fst (map (map_prod id g) l) = map fst l"
  by (induction l) auto

lemma valid_sort_json: "valid_json j \<Longrightarrow> valid_json (sort_json j)"
proof (induction j)
  case (JArr vs)
  then show ?case by (auto simp: list_all_iff)
next
  case (JObj kvs)
  have "valid_json (sort_json v)" if "(k, v) \<in> set kvs" for k v
    using JObj that by (fastforce simp: list_all_iff)
  moreover have "distinct (map fst (sort_key fst (map (map_prod id sort_json) kvs)))"
    using JObj.prems unfolding distinct_fst_sort by simp
  ultimately show ?case by (auto simp: list_all_iff)
qed auto

lemma map_of_sort_json:
  assumes "distinct (map fst kvs)"
  shows "map_of (sort_key fst (map (map_prod id sort_json) kvs)) k = map_option sort_json (map_of kvs k)"
proof -
  let ?l = "map (map_prod id sort_json) kvs"
  have d: "distinct (map fst ?l)" using assms by (simp del: map_map)
  then have "distinct (map fst (sort_key fst ?l))" unfolding distinct_fst_sort .
  then have "map_of (sort_key fst ?l) = map_of ?l"
    using d map_of_inject_set[of "sort_key fst ?l" ?l] by simp
  moreover have "map_of ?l k = map_option sort_json (map_of kvs k)" by (induction kvs) auto
  ultimately show ?thesis by simp
qed

text \<open>What is read back: the same entries, every map in key order.\<close>

fun sort_cfg :: "cfg \<Rightarrow> cfg" where
  "sort_cfg NilMap = NilMap"
| "sort_cfg (GoMap kvs) = GoMap (sort_key fst (map (map_prod id sort_json) kvs))"

lemma cfg_str_sort: "valid_json (json_of_cfg cfg) \<Longrightarrow> cfg_str (sort_cfg cfg) k = cfg_str cfg k"
  by (cases cfg) (auto simp: cfg_str_def json_of_cfg_def map_of_sort_json split: option.splits json.splits)

lemma cfg_has_sort: "valid_json (json_of_cfg cfg) \<Longrightarrow> cfg_has (sort_cfg cfg) k = cfg_has cfg k"
  by (cases cfg) (auto simp: cfg_has_def json_of_cfg_def map_of_sort_json)

lemma cfg_of_sorted: "cfg_of_json (sort_json (json_of_cfg cfg)) = Some (sort_cfg cfg)"
  by (cases cfg) (auto simp: json_of_cfg_def cfg_of_json_def)

definition cfg_text :: "cfg \<Rightarrow> string" where
  "cfg_text cfg = MarshalIndent_map (json_of_cfg cfg) @ [CHR 0x0A]"

lemma Unmarshal_cfg_text: "valid_json (json_of_cfg cfg) \<Longrightarrow> Unmarshal (cfg_text cfg) = Some (sort_json (json_of_cfg cfg))"
  unfolding cfg_text_def MarshalIndent_map_def
  by (intro Unmarshal_print valid_sort_json) (auto simp: json_ws_def)

section \<open>Saving, then loading\<close>

lemma Save_Ok:
  assumes "Save s cfg env w = Some (Ok (), w')"
  shows "\<exists>own. map_of (w_fs w') (store_path s ConfigFile) = Some (NFile 0x180 own (cfg_text cfg))"
proof -
  let ?p = "store_path s ConfigFile"
  from assms obtain f1 f2 f3 where put: "fs_put ?p 0x180 (\<lambda>_. cfg_text cfg) f1 = Ok f2"
    and ch: "fs_chmod ?p 0x180 f2 = Ok f3" and w': "w_fs w' = f3"
    by (auto simp: Save_def Let_def gbind_eq_Ok gwrap_eq_Ok os_WriteFile_def os_Chmod_def os_MkdirAll_def
        io_call_Ok_iff obind_eq_Ok cfg_text_def)
  from put obtain m own where "map_of f2 ?p = Some (NFile m own (cfg_text cfg))"
    by (auto simp: fs_put_Ok)
  then show ?thesis using ch w' by (auto simp: fs_chmod_Ok_file)
qed

lemma Load_file:
  assumes "e_io env (w_trace w) (w_fs w) (OpReadFile (store_path s ConfigFile)) = None"
    and "map_of (w_fs w) (store_path s ConfigFile) = Some (NFile m own (cfg_text cfg))"
    and "valid_json (json_of_cfg cfg)"
  shows "Load s env w = Some (Ok (sort_cfg cfg), w\<lparr>w_trace := w_trace w @ [EIo (OpReadFile (store_path s ConfigFile))]\<rparr>)"
  using assms
  by (simp add: Load_def go_simps gbind_def gtry_def os_ReadFile_Ok Unmarshal_cfg_text cfg_of_sorted)
section \<open>Marker paths\<close>

definition store_ok :: "store \<Rightarrow> bool" where
  "store_ok s = (Root s = [] \<or> is_abs (Root s))"

definition store_root :: "store \<Rightarrow> string list" where
  "store_root s = (if Root s = [] then [] else clean_comps True (comps (Root s)))"

lemma is_abs_abs_path: "is_abs (abs_path cs)"
  by (cases cs) (auto simp: is_abs_def abs_path_def)

lemma plain_comps_abs_path: "\<forall>c\<in>set cs. plain c \<Longrightarrow> comps (abs_path cs) = cs"
  by (rule comps_abs_path) (auto simp: plain_def)

lemma store_path_abs:
  assumes "store_ok s" "\<forall>c\<in>set cs. plain c"
  shows "store_path s (abs_path cs) = abs_path (store_root s @ cs)"
  using assms plain_comps_abs_path[OF assms(2)] is_abs_abs_path[of cs]
  by (auto simp: store_path_def store_root_def store_ok_def Join_root is_abs_def)

lemma store_root_comps: "c \<in> set (store_root s) \<Longrightarrow> c \<noteq> [] \<and> CHR ''/'' \<notin> set c"
  using comps_no_slash by (auto simp: store_root_def split: if_splits dest!: clean_comps_sub)

lemma StateDir_abs: "StateDir = abs_path [''var'', ''lib'', ''slfhst'']"
  by (simp add: StateDir_def abs_path_def)

lemma plain_state: "\<forall>c\<in>set [''var'', ''lib'', ''slfhst'']. plain c"
  by (simp add: plain_def)

lemma plain_marker: "CHR ''/'' \<notin> set name \<Longrightarrow> plain (name @ ''.done'')"
  by (auto simp: plain_def append_eq_Cons_conv)

lemma markerPath_abs:
  assumes "store_ok s" "CHR ''/'' \<notin> set name"
  shows "markerPath s name = abs_path (store_root s @ [''var'', ''lib'', ''slfhst'', name @ ''.done''])"
proof -
  have "comps (name @ ''.done'') = [name @ ''.done'']" using plain_marker[OF assms(2)] by (rule comps_plain)
  then have "Join [StateDir, name @ ''.done''] = abs_path [''var'', ''lib'', ''slfhst'', name @ ''.done'']"
    using Join_root[of StateDir "name @ ''.done''"] plain_marker[OF assms(2)] plain_comps_abs_path[OF plain_state]
      clean_comps_plain[OF plain_state] is_abs_abs_path
    by (simp add: StateDir_abs)
  then show ?thesis
    using store_path_abs[OF assms(1)] plain_state plain_marker[OF assms(2)] by (simp add: markerPath_def)
qed

lemma prefixes_from_len:
  "p \<in> set (prefixes_from acc cs) \<Longrightarrow> \<exists>k<length cs. p = abs_path (acc @ take (Suc k) cs)"
proof (induction acc cs rule: prefixes_from.induct)
  case (2 acc c cs)
  then show ?case by (fastforce intro: exI[of _ 0] exI[of _ "Suc _"])
qed simp

lemma marker_not_prefix:
  assumes "store_ok s" "CHR ''/'' \<notin> set name"
  shows "markerPath s name \<notin> set (path_prefixes (store_path s StateDir))"
proof
  let ?sd = "[''var'', ''lib'', ''slfhst'']"
  have ok: "\<forall>c\<in>set (store_root s @ ?sd). c \<noteq> [] \<and> CHR ''/'' \<notin> set c"
    using store_root_comps by auto
  have cs: "comps (store_path s StateDir) = store_root s @ ?sd"
    unfolding StateDir_abs store_path_abs[OF assms(1) plain_state] by (rule comps_abs_path[OF ok])
  assume "markerPath s name \<in> set (path_prefixes (store_path s StateDir))"
  then obtain k where "markerPath s name = abs_path (take (Suc k) (store_root s @ ?sd))"
    unfolding path_prefixes_def cs by (auto dest!: prefixes_from_len)
  then have "abs_path (store_root s @ [''var'', ''lib'', ''slfhst'', name @ ''.done'']) = abs_path (take (Suc k) (store_root s @ ?sd))"
    using markerPath_abs[OF assms] by simp
  moreover have "\<forall>c\<in>set (store_root s @ [''var'', ''lib'', ''slfhst'', name @ ''.done'']). c \<noteq> [] \<and> CHR ''/'' \<notin> set c"
    using store_root_comps assms(2) by auto
  moreover have "\<forall>c\<in>set (take (Suc k) (store_root s @ ?sd)). c \<noteq> [] \<and> CHR ''/'' \<notin> set c"
    using ok by (meson in_set_takeD)
  ultimately have "store_root s @ [''var'', ''lib'', ''slfhst'', name @ ''.done''] = take (Suc k) (store_root s @ ?sd)"
    by (simp only: abs_path_inject)
  then have "length (store_root s @ [''var'', ''lib'', ''slfhst'', name @ ''.done'']) = length (take (Suc k) (store_root s @ ?sd))"
    by (rule arg_cong)
  then show False by simp
qed

lemma markerPath_inject:
  assumes "store_ok s" "CHR ''/'' \<notin> set m" "CHR ''/'' \<notin> set n"
  shows "markerPath s m = markerPath s n \<longleftrightarrow> m = n"
proof -
  have "\<forall>c\<in>set (store_root s @ [''var'', ''lib'', ''slfhst'', x @ ''.done'']). c \<noteq> [] \<and> CHR ''/'' \<notin> set c"
    if "CHR ''/'' \<notin> set x" for x
    using store_root_comps that by auto
  then show ?thesis using assms by (simp add: markerPath_abs abs_path_inject)
qed

text \<open>What \<open>MarkDone\<close> does to the tree.\<close>

lemma MarkDone_Ok:
  assumes "MarkDone s name env w = Some (Ok (), w')"
  obtains m own c where "map_of (w_fs w') (markerPath s name) = Some (NFile m own c)"
    "\<And>p. p \<noteq> markerPath s name \<Longrightarrow> p \<notin> set (path_prefixes (store_path s StateDir)) \<Longrightarrow>
      map_of (w_fs w') p = map_of (w_fs w) p"
proof -
  let ?p = "markerPath s name"
  from assms obtain f1 f2 where mk: "fs_mkdirs 0x1ED (path_prefixes (store_path s StateDir)) (w_fs w) = Ok f1"
    and put: "fs_put ?p 0x1A4 (\<lambda>old. old) f1 = Ok f2" and w': "w_fs w' = f2"
    by (auto simp: MarkDone_def gbind_eq_Ok gwrap_eq_Ok os_Touch_def os_MkdirAll_def io_upd_Ok_iff)
  from put obtain m own c where "f2 = AList.update ?p (NFile m own c) f1" by (auto simp: fs_put_Ok)
  then show thesis using that fs_mkdirs_Ok[OF mk] w' by simp
qed

lemma os_Stat_run:
  "e_io env (w_trace w) (w_fs w) (OpStat p) = None \<Longrightarrow>
   os_Stat p env w = Some (if fs_exists p (w_fs w) then Ok () else Err (IoErr (OpStat p) ENOENT),
     w\<lparr>w_trace := w_trace w @ [EIo (OpStat p)]\<rparr>)"
  by (simp add: os_Stat_def io_call_def Let_def)

lemma IsDone_run:
  "e_io env (w_trace w) (w_fs w) (OpStat (markerPath s name)) = None \<Longrightarrow>
   IsDone s name env w = Some (Ok (fs_exists (markerPath s name) (w_fs w)),
     w\<lparr>w_trace := w_trace w @ [EIo (OpStat (markerPath s name))]\<rparr>)"
  by (simp add: IsDone_def gbind_def gtry_def os_Stat_run ret_def)

lemma MarkDone_marks:
  assumes "store_ok s" "CHR ''/'' \<notin> set name" "CHR ''/'' \<notin> set other"
    and "MarkDone s name env w = Some (Ok (), w')"
  shows "fs_exists (markerPath s other) (w_fs w') \<longleftrightarrow> other = name \<or> fs_exists (markerPath s other) (w_fs w)"
proof -
  obtain m own c where mk: "map_of (w_fs w') (markerPath s name) = Some (NFile m own c)"
    and fr: "\<And>p. p \<noteq> markerPath s name \<Longrightarrow> p \<notin> set (path_prefixes (store_path s StateDir)) \<Longrightarrow>
      map_of (w_fs w') p = map_of (w_fs w) p"
    using assms(4) by (rule MarkDone_Ok) blast
  then show ?thesis
    using markerPath_inject[OF assms(1,3,2)] marker_not_prefix[OF assms(1,3)]
    by (cases "other = name") (auto simp: fs_exists_def)
qed

section \<open>The stage gate\<close>

locale stage_gate =
  fixes require :: "string \<Rightarrow> unit go"
  assumes verdict: "require name env w = Some (r, w') \<Longrightarrow> r = Ok () \<or> (\<exists>e. r = Err e \<and> is_not_done e)"
    and read_only: "require name env w = Some (r, w') \<Longrightarrow>
      w_fs w' = w_fs w \<and> w_stdin w' = w_stdin w \<and> w_console w' = w_console w"
    and returns: "require name env w \<noteq> None"
begin

text \<open>A gated command that is not let through changes nothing and fails with the error the command
  line turns into a clean exit.\<close>

lemma gated:
  assumes "gbind (require name) (\<lambda>_. body) env w = Some (r, w')"
  shows "(\<exists>w1. require name env w = Some (Ok (), w1) \<and> body env w1 = Some (r, w') \<and> w_fs w1 = w_fs w) \<or>
    (\<exists>e. r = Err e \<and> is_not_done e \<and> w_fs w' = w_fs w \<and> w_stdin w' = w_stdin w \<and> w_console w' = w_console w)"
  using assms
proof (cases rule: gbind_SomeE)
  case (Ok x w1)
  then show ?thesis using read_only by auto
next
  case (Err e)
  then show ?thesis using verdict read_only by blast
next
  case Panic
  then show ?thesis using verdict by blast
qed

end

lemma os_Stat_cases:
  "\<exists>r. os_Stat p env w = Some (r, w\<lparr>w_trace := w_trace w @ [EIo (OpStat p)]\<rparr>) \<and> (r = Ok () \<or> (\<exists>e. r = Err e))"
  by (auto simp: os_Stat_def io_call_def Let_def split: option.splits if_splits)

interpretation gate: stage_gate "RequireDone s" for s
proof
  fix name env w r w'
  obtain r0 where r0: "os_Stat (markerPath s name) env w
      = Some (r0, w\<lparr>w_trace := w_trace w @ [EIo (OpStat (markerPath s name))]\<rparr>)" "r0 = Ok () \<or> (\<exists>e. r0 = Err e)"
    using os_Stat_cases by blast
  then have run: "\<exists>q. RequireDone s name env w = Some (q, w\<lparr>w_trace := w_trace w @ [EIo (OpStat (markerPath s name))]\<rparr>)
      \<and> (q = Ok () \<or> q = Err (ErrNotDone name))"
    by (auto simp: RequireDone_def IsDone_def gbind_def gtry_def ret_def fail_def)
  then show "RequireDone s name env w \<noteq> None" by auto
  assume "RequireDone s name env w = Some (r, w')"
  with run show "r = Ok () \<or> (\<exists>e. r = Err e \<and> is_not_done e)"
    and "w_fs w' = w_fs w \<and> w_stdin w' = w_stdin w \<and> w_console w' = w_console w" by auto
qed

section \<open>Secret strings\<close>

lemma b64_digit_inject: "m < 64 \<Longrightarrow> n < 64 \<Longrightarrow> b64_digit m = b64_digit n \<longleftrightarrow> m = n"
proof -
  have "distinct b64_alphabet" "length b64_alphabet = 64" by (simp_all add: b64_alphabet_def)
  then show "m < 64 \<Longrightarrow> n < 64 \<Longrightarrow> ?thesis" by (simp add: b64_digit_def nth_eq_iff_index_eq)
qed

lemma b64_digit_mem: "n < 64 \<Longrightarrow> b64_digit n \<in> set b64_alphabet"
  unfolding b64_digit_def by (rule nth_mem) (simp add: b64_alphabet_def)

lemma length_b64_encode: "length (b64_encode bs) = (4 * length bs + 2) div 3"
  by (induction bs rule: b64_encode.induct) auto

lemma b64_bounds:
  fixes a b c :: nat
  assumes "a < 256" "b < 256" "c < 256"
  shows "a div 4 < 64" "a mod 4 * 16 + b div 16 < 64" "b mod 16 * 4 + c div 64 < 64" "c mod 64 < 64"
    "a mod 4 * 16 < 64" "b mod 16 * 4 < 64"
  using assms by (auto simp: less_mult_imp_div_less)

lemma b64_encode_alphabet: "\<forall>b\<in>set bs. b < 256 \<Longrightarrow> set (b64_encode bs) \<subseteq> set b64_alphabet"
  by (induction bs rule: b64_encode.induct) (auto simp: b64_bounds intro!: b64_digit_mem)

lemma b64_group_inject:
  fixes a b c a' b' c' :: nat
  assumes "a div 4 = a' div 4" "a mod 4 * 16 + b div 16 = a' mod 4 * 16 + b' div 16"
    "b mod 16 * 4 + c div 64 = b' mod 16 * 4 + c' div 64" "c mod 64 = c' mod 64"
    "b < 256" "b' < 256" "c < 256" "c' < 256"
  shows "a = a' \<and> b = b' \<and> c = c'"
proof -
  have l: "b div 16 < 16" "b' div 16 < 16" "c div 64 < 4" "c' div 64 < 4"
    using assms(5-8) by (simp_all add: less_mult_imp_div_less)
  have d: "a mod 4 = (a mod 4 * 16 + b div 16) div 16" "a' mod 4 = (a' mod 4 * 16 + b' div 16) div 16"
    "b mod 16 = (b mod 16 * 4 + c div 64) div 4" "b' mod 16 = (b' mod 16 * 4 + c' div 64) div 4"
    using l by simp_all
  then have "a mod 4 = a' mod 4" "b mod 16 = b' mod 16" using assms(2,3) by metis+
  then show ?thesis using assms(1-4) by (metis add_left_cancel div_mod_decomp)
qed

lemma b64_digits_inject:
  fixes a b c a' b' c' :: nat
  assumes lt: "a < 256" "a' < 256" "b < 256" "b' < 256" "c < 256" "c' < 256"
    and eq: "b64_digit (a div 4) = b64_digit (a' div 4)"
      "b64_digit (a mod 4 * 16 + b div 16) = b64_digit (a' mod 4 * 16 + b' div 16)"
      "b64_digit (b mod 16 * 4 + c div 64) = b64_digit (b' mod 16 * 4 + c' div 64)"
      "b64_digit (c mod 64) = b64_digit (c' mod 64)"
  shows "a = a' \<and> b = b' \<and> c = c'"
proof (rule b64_group_inject)
  note bd = b64_bounds[OF lt(1,3,5)] b64_bounds[OF lt(2,4,6)]
  show "a div 4 = a' div 4" using eq(1) bd by (simp only: b64_digit_inject)
  show "a mod 4 * 16 + b div 16 = a' mod 4 * 16 + b' div 16" using eq(2) bd by (simp only: b64_digit_inject)
  show "b mod 16 * 4 + c div 64 = b' mod 16 * 4 + c' div 64" using eq(3) bd by (simp only: b64_digit_inject)
  show "c mod 64 = c' mod 64" using eq(4) bd by (simp only: b64_digit_inject)
qed (use lt in auto)

lemma b64_encode_inject:
  "\<forall>b\<in>set bs. b < 256 \<Longrightarrow> \<forall>b\<in>set cs. b < 256 \<Longrightarrow> length bs = length cs \<Longrightarrow>
   b64_encode bs = b64_encode cs \<Longrightarrow> bs = cs"
proof (induction bs arbitrary: cs rule: b64_encode.induct)
  case (1 a b c bs)
  then obtain a' b' c' cs' where cs: "cs = a' # b' # c' # cs'"
    by (metis length_Suc_conv)
  then have "a = a' \<and> b = b' \<and> c = c'"
    using 1(2,3,5) by (intro b64_digits_inject) simp_all
  moreover have "bs = cs'" using 1(2-5) cs by (intro 1(1)) simp_all
  ultimately show ?case by (simp add: cs)
next
  case (2 a b)
  then obtain a' b' where cs: "cs = [a', b']" by (metis length_0_conv length_Suc_conv)
  then have "a = a' \<and> b = b' \<and> (0 :: nat) = 0"
    using 2(1,2,4) by (intro b64_digits_inject) simp_all
  then show ?case by (simp add: cs)
next
  case (3 a)
  then obtain a' where cs: "cs = [a']" by (metis length_0_conv length_Suc_conv)
  then have "a = a' \<and> (0 :: nat) = 0 \<and> (0 :: nat) = 0"
    using 3(1,2,4) by (intro b64_digits_inject) simp_all
  then show ?case by (simp add: cs)
qed simp
lemma Load_trace: "Load s env w = Some (Ok cfg, w') \<Longrightarrow> w_trace w' = w_trace w @ [EIo (OpReadFile (store_path s ConfigFile))]"
proof -
  assume l: "Load s env w = Some (Ok cfg, w')"
  then obtain x w1 where x: "gtry (os_ReadFile (store_path s ConfigFile)) env w = Some (Ok x, w1)"
    and k: "(case x of Inl err \<Rightarrow> if is_not_exist err then ret (GoMap []) else fail (Wrap ''config: read'' err)
      | Inr data \<Rightarrow> (case Unmarshal data of
          None \<Rightarrow> fail (Wrap ''config: parse'' (JsonErr data))
        | Some j \<Rightarrow> (case cfg_of_json j of
            None \<Rightarrow> fail (Wrap ''config: parse'' (JsonErr data))
          | Some cfg \<Rightarrow> ret cfg))) env w1 = Some (Ok cfg, w')"
    unfolding Load_def gbind_eq_Ok by blast
  have "w' = w1" using k by (cases x) (auto simp: ret_def fail_def split: option.splits if_splits)
  with x have "gtry (os_ReadFile (store_path s ConfigFile)) env w = Some (Ok x, w')" by simp
  then show ?thesis
    unfolding os_ReadFile_def gtry_def by (auto split: option.splits outcome.splits dest: io_call_trace)
qed

lemma RequireDone_trace: "RequireDone s n env w = Some (r, w') \<Longrightarrow> w_trace w' = w_trace w @ [EIo (OpStat (markerPath s n))]"
  by (auto simp: RequireDone_def IsDone_def gbind_def gtry_def os_Stat_def io_call_def ret_def fail_def Let_def
      split: option.splits prod.splits outcome.splits if_splits)

section \<open>Properties\<close>



text \<open>C25: After a successful \<open>Save\<close> the file holds the new text with mode 0600, whatever mode it had.\<close>

theorem config_private:
  assumes "Save s cfg env w = Some (Ok (), w')"
  shows "\<exists>own. map_of (w_fs w') (store_path s ConfigFile)
    = Some (NFile 0x180 own (MarshalIndent_map (json_of_cfg cfg) @ [CHR 0x0A]))"
  using Save_Ok[OF assms] by (simp add: cfg_text_def)

theorem config_private_witness:
  "\<exists>w' own. Save \<lparr>Root = []\<rparr> (GoMap []) quiet_env
      (empty_world\<lparr>w_fs := [(ConfigFile, NFile 0x1FF (0, 0) ''old''), (''/etc'', NDir 0x1ED (0, 0)), (''/etc/slfhst'', NDir 0x1ED (0, 0))]\<rparr>)
      = Some (Ok (), w') \<and> map_of (w_fs w') ConfigFile = Some (NFile 0x180 own (''{}'' @ [CHR 0x0A]))"
proof -
  let ?w = "empty_world\<lparr>w_fs := [(ConfigFile, NFile 0x1FF (0, 0) ''old''), (''/etc'', NDir 0x1ED (0, 0)), (''/etc/slfhst'', NDir 0x1ED (0, 0))]\<rparr>"
  obtain w' where s: "Save \<lparr>Root = []\<rparr> (GoMap []) quiet_env ?w = Some (Ok (), w')"
    by (simp add: Save_def gbind_def gwrap_def os_MkdirAll_def os_WriteFile_def os_Chmod_def io_call_def
        quiet_env_def empty_world_def store_path_def Let_def path_prefixes_def comps_def ConfigFile_def ConfigDir_def
        fs_put_def fs_chmod_def abs_path_def)
  from config_private[OF s] s show ?thesis
    by (auto simp: store_path_def MarshalIndent_map_def json_of_cfg_def)
qed

text \<open>C26: Marking a stage done makes exactly that stage's marker appear: afterwards \<open>IsDone\<close> answers
  yes for it, and for any other stage what it would have answered before.\<close>

theorem marker_semantics:
  assumes "store_ok s" "CHR ''/'' \<notin> set name" "CHR ''/'' \<notin> set other"
    and "MarkDone s name env w = Some (Ok (), w')"
    and "e_io env (w_trace w') (w_fs w') (OpStat (markerPath s other)) = None"
  shows "\<exists>w''. IsDone s other env w'
    = Some (Ok (other = name \<or> fs_exists (markerPath s other) (w_fs w)), w'') \<and> w_fs w'' = w_fs w'"
  using IsDone_run[OF assms(5)] MarkDone_marks[OF assms(1-4)] by auto

theorem marker_semantics_witness:
  "\<exists>w' w''. MarkDone \<lparr>Root = ''/mnt/target''\<rparr> ''stage1'' quiet_env empty_world = Some (Ok (), w') \<and>
     IsDone \<lparr>Root = ''/mnt/target''\<rparr> ''stage2'' quiet_env w' = Some (Ok False, w'')"
proof -
  let ?s = "\<lparr>Root = ''/mnt/target''\<rparr>"
  obtain w' where m: "MarkDone ?s ''stage1'' quiet_env empty_world = Some (Ok (), w')"
    by (simp add: MarkDone_def gbind_def gwrap_def os_MkdirAll_def os_Touch_def io_call_def
        quiet_env_def empty_world_def markerPath_def store_path_def Let_def path_prefixes_def comps_def StateDir_def
        fs_put_def is_dir_def abs_path_def Dir_def Clean_def is_abs_def clean_comps_def Join_def)
  have "\<not> fs_exists (markerPath ?s ''stage2'') (w_fs empty_world)"
    by (simp add: fs_exists_def empty_world_def markerPath_abs store_ok_def is_abs_def abs_path_def)
  then show ?thesis
    using marker_semantics[OF _ _ _ m, of "''stage2''"] m by (auto simp: store_ok_def is_abs_def quiet_env_def)
qed

text \<open>C27: \<open>GenSecret\<close> asks for 24 random bytes unless told otherwise and returns them as a token of the
  URL-safe alphabet from which they can be recovered: no randomness is lost.\<close>

theorem secret_token:
  assumes "N = (if n \<le> 0 then 24 else nat n)" and "e_rand env (w_trace w) N = Some bs" and "length bs = N"
  shows "\<exists>t w'. GenSecret n env w = Some (Ok t, w') \<and> length t = (4 * N + 2) div 3 \<and> set t \<subseteq> set b64_alphabet \<and>
    (\<forall>bs'. length bs' = N \<and> b64_encode (map unat bs') = t \<longrightarrow> bs' = bs)"
proof -
  have lt: "\<forall>b\<in>set (map unat xs). b < 256" for xs :: bytes
    using unsigned_less[where 'a = nat and 'b = 8] by auto
  have inj: "bs' = bs" if "length bs' = N" "b64_encode (map unat bs') = b64_encode (map unat bs)" for bs'
  proof -
    have "map unat bs' = map unat bs" using that assms(3) by (intro b64_encode_inject lt) simp_all
    moreover have "inj (unat :: byte \<Rightarrow> nat)" by (rule injI) (rule unsigned_word_eqI)
    ultimately show ?thesis by (simp add: inj_map_eq_map)
  qed
  have "GenSecret n env w = Some (Ok (b64_encode (map unat bs)), w\<lparr>w_trace := w_trace w @ [ERand N]\<rparr>)"
    using assms by (simp add: GenSecret_def Let_def gbind_def gwrap_def rand_Read_def ret_def)
  then show ?thesis
    using inj lt[of bs] assms(3) b64_encode_alphabet[of "map unat bs"] by (auto simp: length_b64_encode)
qed

theorem secret_token_witness:
  "\<exists>t w'. GenSecret 0 quiet_env empty_world = Some (Ok t, w') \<and> length t = 32 \<and> set t \<subseteq> set b64_alphabet"
  using secret_token[of 24 0 quiet_env empty_world "replicate 24 0"] by (auto simp: quiet_env_def)

text \<open>A \<open>config.json\<close> that holds the JSON value \<open>null\<close> loads as the nil map, and then every update
  of the configuration panics.\<close>

theorem null_config_panics:
  assumes "e_io env (w_trace w) (w_fs w) (OpReadFile (store_path s ConfigFile)) = None"
    and "map_of (w_fs w) (store_path s ConfigFile) = Some (NFile m own ''null'')" and "kv \<noteq> []"
  shows "\<exists>w'. Update s kv env w = Some (Panic, w')"
proof -
  have "Unmarshal ''null'' = Some JNull" using Unmarshal_print[of JNull "[]" True 0] by simp
  then have "\<exists>w'. Load s env w = Some (Ok NilMap, w')"
    using assms(1,2) by (simp add: Load_def gbind_def gtry_def os_ReadFile_Ok cfg_of_json_def ret_def)
  then show ?thesis
    using assms(3) by (cases kv) (auto simp: Update_def gbind_def cfg_set_def panic_def)
qed

theorem null_config_panics_witness:
  "\<exists>w'. Update \<lparr>Root = []\<rparr> [(''domain'', JStr ''a.org'')] quiet_env
     (empty_world\<lparr>w_fs := [(ConfigFile, NFile 0x180 (0, 0) ''null'')]\<rparr>) = Some (Panic, w')"
  by (rule null_config_panics) (simp_all add: quiet_env_def store_path_def)

end
