(* ===== verification/Runx.thy ===== *)
theory Runx
  imports World
begin

text \<open>
  \<^verbatim>\<open>internal/runx/runx.go\<close>: the one place the program starts external commands, always from
  an argument vector.
\<close>

record options =
  AsUser :: string
  o_Root :: string
  Input :: "string option"
  Capture :: bool
  NoCheck :: bool
  Env :: "string list"

definition no_options :: options where
  "no_options = \<lparr>AsUser = [], o_Root = [], Input = None, Capture = False, NoCheck = False, Env = []\<rparr>"

record result =
  Stdout :: string
  Stderr :: string
  ExitCode :: int

definition buildArgv :: "string list \<Rightarrow> options \<Rightarrow> string list" where
  "buildArgv argv opts =
     (let full = (if AsUser opts \<noteq> [] then [''runuser'', ''-u'', AsUser opts, ''--''] @ argv else argv) in
      if o_Root opts \<noteq> [] then [''chroot'', o_Root opts] @ full else full)"

text \<open>Output reaches the result only when it is captured; otherwise it goes to the console, which is
  not read back. A command that could not be started is an error whatever the options say; one
  that exited with a code other than 0 is an error unless \<open>NoCheck\<close> is set.\<close>

definition Run :: "string list \<Rightarrow> options \<Rightarrow> result go" where
  "Run argv opts =
     (if argv = [] then fail (Msg ''runx: empty argv'')
      else (\<lambda>env w.
        let full = buildArgv argv opts;
            (c, f') = e_exec env (w_trace w) (w_fs w) full (Env opts) (Input opts);
            w' = w\<lparr>w_fs := f', w_trace := w_trace w @ [ECmd full]\<rparr>;
            res = \<lparr>Stdout = if Capture opts then c_stdout c else [],
                   Stderr = if Capture opts then c_stderr c else [],
                   ExitCode = if started c then exit_code c else 0\<rparr> in
        if started c \<and> (exit_code c = 0 \<or> NoCheck opts) then Some (Ok res, w')
        else Some (Err (CmdErr full c), w')))"

definition RunChecked :: "string list \<Rightarrow> options \<Rightarrow> string go" where
  "RunChecked argv opts = gbind (Run argv (opts\<lparr>Capture := True\<rparr>)) (\<lambda>res. ret (Stdout res))"

text \<open>Running a command for its effect only, its error wrapped.\<close>

definition run_step :: "string \<Rightarrow> string list \<Rightarrow> options \<Rightarrow> unit go" where
  "run_step msg argv opts = gbind (gwrap msg (Run argv opts)) (\<lambda>_. ret ())"

abbreviation captured :: options where
  "captured \<equiv> no_options\<lparr>Capture := True\<rparr>"

section \<open>Lemmas\<close>

lemma Run_grows [intro!, grows]: "keeps longer (Run argv opts)"
  by (auto simp: keeps_def Run_def longer_def fail_def Let_def split: prod.splits if_splits)

lemma Run_total: "Run argv opts env w \<noteq> None"
  by (auto simp: Run_def fail_def Let_def split: prod.splits)

lemma Run_no_panic: "Run argv opts env w \<noteq> Some (Panic, w')"
  by (auto simp: Run_def fail_def Let_def split: prod.splits)

lemma Run_Ok_iff:
  "Run argv opts env w = Some (Ok res, w') \<longleftrightarrow> argv \<noteq> [] \<and>
   (\<exists>c f'. e_exec env (w_trace w) (w_fs w) (buildArgv argv opts) (Env opts) (Input opts) = (c, f') \<and>
      started c \<and> (exit_code c = 0 \<or> NoCheck opts) \<and>
      w' = w\<lparr>w_fs := f', w_trace := w_trace w @ [ECmd (buildArgv argv opts)]\<rparr> \<and>
      res = \<lparr>Stdout = if Capture opts then c_stdout c else [],
             Stderr = if Capture opts then c_stderr c else [], ExitCode = exit_code c\<rparr>)"
  by (auto simp: Run_def fail_def Let_def split: prod.splits if_splits)

section \<open>Properties\<close>

text \<open>The command that is started is always the given arguments, unchanged and last, behind the
  wrappers the options ask for: \<open>chroot <root>\<close> outermost, then \<open>runuser -u <user> --\<close>.\<close>

theorem buildArgv_shape:
  "\<exists>pre. buildArgv argv opts = pre @ argv \<and>
    pre = (if o_Root opts = [] then [] else [''chroot'', o_Root opts])
        @ (if AsUser opts = [] then [] else [''runuser'', ''-u'', AsUser opts, ''--''])"
  by (simp add: buildArgv_def Let_def)

text \<open>\<open>Run\<close> records exactly one command in the history and succeeds exactly when the command was
  started and its exit code is acceptable; on success under \<open>NoCheck\<close> the caller sees the
  exit code.\<close>

theorem Run_outcome:
  assumes "argv \<noteq> []" and "e_exec env (w_trace w) (w_fs w) (buildArgv argv opts) (Env opts) (Input opts) = (c, f')"
  shows "\<exists>r. Run argv opts env w = Some (r, w\<lparr>w_fs := f', w_trace := w_trace w @ [ECmd (buildArgv argv opts)]\<rparr>) \<and>
    (is_ok r \<longleftrightarrow> started c \<and> (exit_code c = 0 \<or> NoCheck opts)) \<and>
    (\<forall>res. r = Ok res \<longrightarrow> ExitCode res = exit_code c \<and> (Capture opts \<longrightarrow> Stdout res = c_stdout c))"
  using assms by (auto simp: Run_def Let_def)

theorem Run_outcome_witness:
  "\<exists>r. Run [''true''] (no_options\<lparr>AsUser := ''svc'', o_Root := ''/mnt''\<rparr>) quiet_env empty_world
      = Some (r, empty_world\<lparr>w_trace := [ECmd [''chroot'', ''/mnt'', ''runuser'', ''-u'', ''svc'', ''--'', ''true'']]\<rparr>) \<and>
    is_ok r"
  using Run_outcome[of "[''true'']" quiet_env empty_world "no_options\<lparr>AsUser := ''svc'', o_Root := ''/mnt''\<rparr>"
    "\<lparr>started = True, exit_code = 0, c_stdout = [], c_stderr = []\<rparr>" "[]"]
  by (auto simp: quiet_env_def empty_world_def no_options_def buildArgv_def)

lemma run_step_Ok: "run_step msg argv opts env w = Some (Ok x, w') \<Longrightarrow> w_trace w' = w_trace w @ [ECmd (buildArgv argv opts)]"
  by (auto simp: run_step_def gbind_eq_Ok gwrap_eq_Ok ret_def Run_Ok_iff)

lemma quiet_run_step: "argv \<noteq> [] \<Longrightarrow> run_step msg argv opts quiet_env w
    = Some (Ok (), w\<lparr>w_trace := w_trace w @ [ECmd (buildArgv argv opts)]\<rparr>)"
  by (simp add: run_step_def gbind_def gwrap_def Run_def quiet_env_def ret_def Let_def)

lemma Run_try: "\<exists>r w'. gtry (Run argv opts) env w = Some (Ok r, w')"
proof -
  obtain q w' where r: "Run argv opts env w = Some (q, w')" using Run_total[of argv opts env w] by auto
  then show ?thesis using Run_no_panic[of argv opts env w] by (cases q) (auto simp: gtry_def)
qed

end
