(* ===== verification/Disks.thy ===== *)
theory Disks
  imports Config Runx "HOL-Library.Multiset"
begin

text \<open>
  \<^verbatim>\<open>internal/disks/disks.go\<close> and \<^verbatim>\<open>internal/disks/deploy.go\<close>: choosing the root and
  bulk disks, partitioning, mounting and populating them.
\<close>

section \<open>Block devices\<close>

record blockDevice =
  d_Name :: string
  d_Path :: string
  d_Size :: string
  d_Type :: string
  d_Rota :: bool
  d_RO :: bool
  d_PKName :: string

definition no_device :: blockDevice where
  "no_device = \<lparr>d_Name = [], d_Path = [], d_Size = [], d_Type = [], d_Rota = False, d_RO = False, d_PKName = []\<rparr>"

text \<open>\<open>lsblkBool.UnmarshalJSON\<close>: the text of the value without its quotes is \<open>1\<close> or \<open>true\<close>.\<close>

definition lsblkBool :: "json \<Rightarrow> bool" where
  "lsblkBool j = (case j of
     JBool b \<Rightarrow> b
   | JNum lit \<Rightarrow> lit = ''1''
   | JStr s \<Rightarrow> s = ''1'' \<or> s = ''true''
   | _ \<Rightarrow> False)"

text \<open>Decoding one member of a device object into the struct: keys match without regard to case, \<open>null\<close>
  leaves a field alone, a value of the wrong type is an error.\<close>

definition str_member :: "(string \<Rightarrow> blockDevice) \<Rightarrow> json \<Rightarrow> blockDevice \<Rightarrow> blockDevice option" where
  "str_member upd j d = (case j of JStr s \<Rightarrow> Some (upd s) | JNull \<Rightarrow> Some d | _ \<Rightarrow> None)"

definition device_member :: "string \<times> json \<Rightarrow> blockDevice \<Rightarrow> blockDevice option" where
  "device_member kv d = (case kv of (k, j) \<Rightarrow>
     let key = to_lower k in
     if key = ''name'' then str_member (\<lambda>s. d\<lparr>d_Name := s\<rparr>) j d
     else if key = ''path'' then str_member (\<lambda>s. d\<lparr>d_Path := s\<rparr>) j d
     else if key = ''type'' then str_member (\<lambda>s. d\<lparr>d_Type := s\<rparr>) j d
     else if key = ''pkname'' then str_member (\<lambda>s. d\<lparr>d_PKName := s\<rparr>) j d
     else if key = ''rota'' then Some (d\<lparr>d_Rota := lsblkBool j\<rparr>)
     else if key = ''ro'' then Some (d\<lparr>d_RO := lsblkBool j\<rparr>)
     else if key = ''size'' then
       (case j of
          JNum lit \<Rightarrow> Some (d\<lparr>d_Size := lit\<rparr>)
        | JStr s \<Rightarrow> if is_number s then Some (d\<lparr>d_Size := s\<rparr>) else None
        | JNull \<Rightarrow> Some d
        | _ \<Rightarrow> None)
     else Some d)"

definition decode_device :: "json \<Rightarrow> blockDevice option" where
  "decode_device j = (case j of
     JObj kvs \<Rightarrow> fold_option device_member kvs no_device
   | JNull \<Rightarrow> Some no_device
   | _ \<Rightarrow> None)"

text \<open>The \<open>blockdevices\<close> member of the output, its elements decoded with \<open>dec\<close>.\<close>

definition lsblk_devices :: "(json \<Rightarrow> 'a option) \<Rightarrow> json \<Rightarrow> 'a list option" where
  "lsblk_devices dec j = (case j of
     JObj kvs \<Rightarrow>
       (case map_of (rev (map (\<lambda>(k, v). (to_lower k, v)) kvs)) ''blockdevices'' of
          None \<Rightarrow> Some []
        | Some JNull \<Rightarrow> Some []
        | Some (JArr js) \<Rightarrow> map_option_list dec js
        | Some _ \<Rightarrow> None)
   | JNull \<Rightarrow> Some []
   | _ \<Rightarrow> None)"

definition listBlockDevices :: "string \<Rightarrow> blockDevice list go" where
  "listBlockDevices columns =
     gbind (gwrap ''disks: lsblk'' (RunChecked [''lsblk'', ''--list'', ''-J'', ''-b'', ''-o'', columns] no_options)) (\<lambda>out.
     case Option.bind (Unmarshal out) (lsblk_devices decode_device) of
       None \<Rightarrow> fail (Wrap ''disks: parse lsblk output'' (JsonErr out))
     | Some ds \<Rightarrow> ret ds)"

definition sizeOf :: "blockDevice \<Rightarrow> int" where
  "sizeOf d = ParseInt64 (d_Size d)"

section \<open>Selecting disks\<close>

definition bootDiskLabel :: string where "bootDiskLabel = ''SLFHST_INSTALL''"

text \<open>The loop of \<open>bootDiskName\<close>: the first device with the boot device's name decides.\<close>

definition bootDisk_in :: "blockDevice list \<Rightarrow> string \<Rightarrow> string option" where
  "bootDisk_in all bootName = map_option
     (\<lambda>d. if d_Type d = ''disk'' then d_Name d else d_PKName d)
     (find (\<lambda>d. d_Name d = bootName) all)"

definition bootDiskName :: "blockDevice list \<Rightarrow> string go" where
  "bootDiskName all =
     gbind (gwrap ''disks: could not identify the installer's own boot device''
              (RunChecked [''blkid'', ''-L'', bootDiskLabel] no_options)) (\<lambda>out.
     let bootName = Base (trim_space out) in
     case bootDisk_in all bootName of
       Some n \<Rightarrow> ret n
     | None \<Rightarrow> fail (Msg ''disks: boot device not found in lsblk output''))"

definition candidate :: "string \<Rightarrow> blockDevice \<Rightarrow> bool" where
  "candidate excludeName d = (d_Type d = ''disk'' \<and> 0 < sizeOf d \<and> \<not> d_RO d \<and>
     (excludeName = [] \<or> d_Name d \<noteq> excludeName))"

text \<open>\<open>sort.Slice\<close> leaves the order of equal elements open, so the sorter is a parameter: \<open>srt key xs\<close>
  is \<open>xs\<close> in ascending order of \<open>key\<close>. When no disk is non-rotational, \<open>pool\<close> and \<open>candidates\<close>
  are the same array, so sorting the one sorts the other.\<close>

type_synonym sorter = "(blockDevice \<Rightarrow> int) \<Rightarrow> blockDevice list \<Rightarrow> blockDevice list"

definition selectDisksFrom :: "sorter \<Rightarrow> blockDevice list \<Rightarrow> string \<Rightarrow> (gerr, string \<times> string) outcome" where
  "selectDisksFrom srt all excludeName =
     (let candidates = filter (candidate excludeName) all in
      if length candidates < 2 then Err (Msg ''disks: need at least 2 disks (root + bulk)'')
      else
      let nonRotational = filter (\<lambda>d. \<not> d_Rota d) candidates;
          pool = srt sizeOf (if nonRotational \<noteq> [] then nonRotational else candidates);
          candidates' = (if nonRotational \<noteq> [] then candidates else pool) in
      case pool of
        [] \<Rightarrow> Panic
      | root # _ \<Rightarrow>
        let rootDisk = d_Path root;
            others = srt (\<lambda>d. - sizeOf d) (filter (\<lambda>d. d_Path d \<noteq> rootDisk) candidates') in
        case others of
          [] \<Rightarrow> Panic
        | bulk # _ \<Rightarrow> Ok (rootDisk, d_Path bulk))"

definition SelectDisks :: "sorter \<Rightarrow> (string \<times> string) go" where
  "SelectDisks srt =
     gbind (listBlockDevices ''NAME,PATH,SIZE,TYPE,ROTA,RO,PKNAME'') (\<lambda>all.
     gbind (bootDiskName all) (\<lambda>excludeName.
     of_outcome (selectDisksFrom srt all excludeName)))"

section \<open>Partitioning the root disk\<close>

definition repart_line :: "string \<Rightarrow> string \<Rightarrow> string" where
  "repart_line key v = (if v = [] then [] else key @ ''='' @ v @ [CHR 0x0A])"

definition repartDefinition :: "string \<Rightarrow> string \<Rightarrow> string \<Rightarrow> string \<Rightarrow> string \<Rightarrow> string" where
  "repartDefinition partType mn mx label format =
     ''[Partition]'' @ [CHR 0x0A] @ ''Type='' @ partType @ [CHR 0x0A]
     @ repart_line ''SizeMinBytes'' mn @ repart_line ''SizeMaxBytes'' mx
     @ repart_line ''Format'' format @ repart_line ''Label'' label"

definition espSize :: string where "espSize = ''512M''"
definition usrSlotSize :: string where "usrSlotSize = ''3G''"
definition rootSize :: string where "rootSize = ''1G''"

definition repart_files :: "(string \<times> string) list" where
  "repart_files =
     [(''10-esp.conf'', repartDefinition ''esp'' espSize espSize [] ''vfat''),
      (''20-usr-a.conf'', repartDefinition ''usr'' usrSlotSize usrSlotSize ''_empty'' ''erofs''),
      (''21-usr-b.conf'', repartDefinition ''usr'' usrSlotSize usrSlotSize ''_empty'' ''erofs''),
      (''30-root.conf'', repartDefinition ''root'' rootSize rootSize ''slfhst-root'' ''ext4''),
      (''40-var.conf'', repartDefinition ''var'' ''256M'' [] ''slfhst-var'' ''ext4'')]"

definition PartitionRoot :: "string \<Rightarrow> unit go" where
  "PartitionRoot disk =
     gbind (gwrap ''disks: create repart definitions dir'' (os_MkdirTemp ''slfhst-repart-'')) (\<lambda>dir.
     gdefer (os_RemoveAll dir)
       (gbind (grange repart_files (\<lambda>(name, content).
          gwrap ''disks: write'' (os_WriteFile (Join [dir, name]) content 0x1A4))) (\<lambda>_.
        gbind (run_step ''disks: systemd-repart''
          [''systemd-repart'', ''--definitions='' @ dir, ''--dry-run=no'', ''--empty=force'', disk] captured) (\<lambda>_.
        gbind (run_step ''disks: partprobe'' [''partprobe'', disk] no_options) (\<lambda>_.
        run_step ''disks: udevadm settle'' [''udevadm'', ''settle''] no_options)))))"

section \<open>Finding partitions\<close>

text \<open>A device as a \<open>map[string]any\<close>.\<close>

definition decode_map :: "json \<Rightarrow> (string \<times> json) list option" where
  "decode_map j = (case j of JObj kvs \<Rightarrow> Some kvs | JNull \<Rightarrow> Some [] | _ \<Rightarrow> None)"

definition map_str :: "(string \<times> json) list \<Rightarrow> string \<Rightarrow> string" where
  "map_str m k = (case map_of m k of Some (JStr s) \<Rightarrow> s | _ \<Rightarrow> [])"

definition lsblk_maps :: "string \<Rightarrow> (string \<times> json) list list go" where
  "lsblk_maps columns =
     gbind (gwrap ''disks: lsblk'' (RunChecked [''lsblk'', ''--list'', ''-J'', ''-b'', ''-o'', columns] no_options)) (\<lambda>out.
     case Option.bind (Unmarshal out) (lsblk_devices decode_map) of
       None \<Rightarrow> fail (Wrap ''disks: parse lsblk output'' (JsonErr out))
     | Some ds \<Rightarrow> ret ds)"

definition findPartitionByLabel :: "string \<Rightarrow> string \<Rightarrow> string go" where
  "findPartitionByLabel disk label =
     gbind (lsblk_maps ''NAME,PATH,PKNAME,PARTLABEL'') (\<lambda>ds.
     case find (\<lambda>d. map_str d ''pkname'' = Base disk \<and> map_str d ''partlabel'' = label) ds of
       Some d \<Rightarrow> ret (map_str d ''path'')
     | None \<Rightarrow> fail (Msg ''disks: no partition labeled''))"

text \<open>\<open>partn.(float64)\<close> and \<open>int(partn) == n\<close>: a number whose value, cut to an integer, is \<open>n\<close>. Only plain
  integer literals are read as numbers here, which is what \<open>lsblk\<close> prints.\<close>

definition is_partn :: "(string \<times> json) list \<Rightarrow> nat \<Rightarrow> bool" where
  "is_partn d n = (case map_of d ''partn'' of Some (JNum lit) \<Rightarrow> signed_val lit = Some (int n) | _ \<Rightarrow> False)"

definition findPartitionByNumber :: "string \<Rightarrow> nat \<Rightarrow> string go" where
  "findPartitionByNumber disk n =
     gbind (lsblk_maps ''NAME,PATH,PKNAME,PARTN'') (\<lambda>ds.
     case find (\<lambda>d. map_str d ''pkname'' = Base disk \<and> is_partn d n) ds of
       Some d \<Rightarrow> ret (map_str d ''path'')
     | None \<Rightarrow> fail (Msg ''disks: no partition found''))"

section \<open>Mounting\<close>

definition CleanupMounts :: "string \<Rightarrow> unit go" where
  "CleanupMounts mountpoint = gforeach [''srv/data'', ''efi'', ''usr'', ''var'', []] (\<lambda>sub.
     gbind (gtry (Run [''umount'', Join [mountpoint, sub]] no_options)) (\<lambda>_. ret ()))"

definition MountRootAndVar :: "string \<Rightarrow> string \<Rightarrow> unit go" where
  "MountRootAndVar disk mountpoint =
     gbind (findPartitionByLabel disk ''slfhst-root'') (\<lambda>rootPart.
     gbind (findPartitionByLabel disk ''slfhst-var'') (\<lambda>varPart.
     gbind (gwrap ''disks: mkdir'' (os_MkdirAll mountpoint 0x1ED)) (\<lambda>_.
     gbind (run_step ''disks: mount'' [''mount'', rootPart, mountpoint] no_options) (\<lambda>_.
     let varMount = Join [mountpoint, ''var''] in
     gbind (gwrap ''disks: mkdir'' (os_MkdirAll varMount 0x1ED)) (\<lambda>_.
     run_step ''disks: mount'' [''mount'', varPart, varMount] no_options)))))"

definition fhs_links :: "(string \<times> string) list" where
  "fhs_links = [(''bin'', ''usr/bin''), (''sbin'', ''usr/sbin''), (''lib'', ''usr/lib''), (''lib64'', ''usr/lib64'')]"

definition ensure_link :: "string \<Rightarrow> string \<times> string \<Rightarrow> unit go" where
  "ensure_link mountpoint nt = (case nt of (name, target) \<Rightarrow>
     gbind (gtry (os_Lstat (Join [mountpoint, target]))) (\<lambda>r1.
     if isl r1 then ret ()
     else let path = Join [mountpoint, name] in
       gbind (gtry (os_Lstat path)) (\<lambda>r2.
       if \<not> isl r2 then ret ()
       else gwrap ''disks: symlink'' (os_Symlink target path))))"

definition EnsureFHSSymlinks :: "string \<Rightarrow> unit go" where
  "EnsureFHSSymlinks mountpoint = grange fhs_links (ensure_link mountpoint)"

section \<open>The bulk disk\<close>

definition PartitionBulk :: "string \<Rightarrow> string go" where
  "PartitionBulk disk =
     gbind (run_step ''disks: partition''
       [''parted'', ''--script'', disk, ''mklabel'', ''gpt'', ''mkpart'', ''primary'', ''xfs'', ''0%'', ''100%''] no_options) (\<lambda>_.
     gbind (run_step ''disks: partprobe'' [''partprobe'', disk] no_options) (\<lambda>_.
     gbind (run_step ''disks: udevadm settle'' [''udevadm'', ''settle''] no_options) (\<lambda>_.
     gbind (listBlockDevices ''NAME,PATH,PKNAME'') (\<lambda>all.
     let part = (case find (\<lambda>d. d_PKName d = Base disk) all of Some d \<Rightarrow> d_Path d | None \<Rightarrow> []) in
     if part = [] then fail (Msg ''disks: no partition found after partitioning'')
     else gbind (run_step ''disks: mkfs.xfs'' [''mkfs.xfs'', ''-f'', part] captured) (\<lambda>_. ret part)))))"

definition dataSubdirs :: "string list" where
  "dataSubdirs = [''stalwart'', ''vaultwarden'', ''garage'', ''traefik'', ''ente'']"

definition bulk_unit :: "string \<Rightarrow> string" where
  "bulk_unit uuid = unlines [''[Unit]'', ''Description=slfhst bulk data'', [], ''[Mount]'',
     ''What=/dev/disk/by-uuid/'' @ uuid, ''Where=/srv/data'', ''Type=xfs'', [], ''[Install]'',
     ''WantedBy=local-fs.target'']"

definition writeBulkMountUnit :: "string \<Rightarrow> string \<Rightarrow> unit go" where
  "writeBulkMountUnit root part =
     gbind (gwrap ''disks: blkid'' (RunChecked [''blkid'', ''-s'', ''UUID'', ''-o'', ''value'', part] no_options)) (\<lambda>out.
     let uuid = trim_space out; unitPath = Join [root, ''etc/systemd/system/srv-data.mount''] in
     gbind (gwrap ''disks: mkdir'' (os_MkdirAll (Dir unitPath) 0x1ED)) (\<lambda>_.
     gbind (gwrap ''disks: write'' (os_WriteFile unitPath (bulk_unit uuid) 0x1A4)) (\<lambda>_.
     let wantsDir = Join [root, ''etc/systemd/system/local-fs.target.wants''] in
     gbind (gwrap ''disks: mkdir'' (os_MkdirAll wantsDir 0x1ED)) (\<lambda>_.
     let linkPath = Join [wantsDir, ''srv-data.mount''] in
     gbind (gtry (os_Remove linkPath)) (\<lambda>_.
     gwrap ''disks: symlink'' (os_Symlink ''/etc/systemd/system/srv-data.mount'' linkPath))))))"

definition MountBulk :: "string \<Rightarrow> string \<Rightarrow> unit go" where
  "MountBulk root part =
     (let target = Join [root, ''srv/data''] in
      gbind (gwrap ''disks: mkdir'' (os_MkdirAll target 0x1ED)) (\<lambda>_.
      gbind (run_step ''disks: mount'' [''mount'', part, target] no_options) (\<lambda>_.
      gbind (gforeach dataSubdirs (\<lambda>name. gwrap ''disks: mkdir'' (os_MkdirAll (Join [target, name]) 0x1ED))) (\<lambda>_.
      writeBulkMountUnit root part))))"

section \<open>Deploying the appliance\<close>

definition espPartNum :: nat where "espPartNum = 1"
definition usrAPartNum :: nat where "usrAPartNum = 2"

definition ddCopy :: "string \<Rightarrow> string \<Rightarrow> unit go" where
  "ddCopy src dst = gbind (Run [''dd'', ''if='' @ src, ''of='' @ dst, ''bs=4M'', ''conv=fsync''] captured) (\<lambda>_. ret ())"

definition DeployUsrContent :: "string \<Rightarrow> string \<Rightarrow> string \<Rightarrow> unit go" where
  "DeployUsrContent disk usrRawPath version =
     gbind (findPartitionByNumber disk usrAPartNum) (\<lambda>part.
     gbind (gwrap ''disks: write usr'' (ddCopy usrRawPath part)) (\<lambda>_.
     run_step ''disks: relabel partition''
       [''parted'', ''--script'', disk, ''name'', show_nat usrAPartNum, ''slfhst_'' @ version] no_options))"

definition MountUsr :: "string \<Rightarrow> string \<Rightarrow> unit go" where
  "MountUsr disk mountpoint =
     gbind (findPartitionByNumber disk usrAPartNum) (\<lambda>part.
     let usrMount = Join [mountpoint, ''usr''] in
     gbind (gwrap ''disks: mkdir'' (os_MkdirAll usrMount 0x1ED)) (\<lambda>_.
     run_step ''disks: mount'' [''mount'', ''-o'', ''ro'', part, usrMount] no_options))"

definition MountESP :: "string \<Rightarrow> string \<Rightarrow> string go" where
  "MountESP disk mountpoint =
     gbind (findPartitionByNumber disk espPartNum) (\<lambda>part.
     let espMount = Join [mountpoint, ''efi''] in
     gbind (gwrap ''disks: mkdir'' (os_MkdirAll espMount 0x1ED)) (\<lambda>_.
     gbind (run_step ''disks: mount ESP'' [''mount'', part, espMount] no_options) (\<lambda>_. ret espMount)))"

text \<open>\<open>copyFile\<close>: the source must open, then the destination is created or truncated, then the
  content is copied (nothing is left of it when both are the same file).\<close>

definition copyFile :: "string \<Rightarrow> string \<Rightarrow> unit go" where
  "copyFile src dst =
     gbind (os_Stat src) (\<lambda>_.
     gbind (os_WriteFile dst [] 0x1B6) (\<lambda>_.
     gbind (os_ReadFile src) (\<lambda>data. os_WriteFile dst data 0x1B6)))"

definition DeployUKI :: "string \<Rightarrow> string \<Rightarrow> string \<Rightarrow> unit go" where
  "DeployUKI espPath efiSrcPath version =
     (let destDir = Join [espPath, ''EFI'', ''Linux''] in
      gbind (gwrap ''disks: mkdir'' (os_MkdirAll destDir 0x1ED)) (\<lambda>_.
      gwrap ''disks: copy'' (copyFile efiSrcPath (Join [destDir, ''slfhst_'' @ version @ ''.efi'']))))"

definition InstallBootloader :: "string \<Rightarrow> unit go" where
  "InstallBootloader espPath = run_step ''disks: bootctl install'' [''bootctl'', ''--esp-path='' @ espPath, ''install''] captured"

definition ApplyPresets :: "string \<Rightarrow> unit go" where
  "ApplyPresets mountpoint = run_step ''disks: systemctl preset-all'' [''systemctl'', ''preset-all'', ''--root='' @ mountpoint] captured"

definition SetDefaultTarget :: "string \<Rightarrow> unit go" where
  "SetDefaultTarget mountpoint = run_step ''disks: systemctl set-default''
     [''systemctl'', ''set-default'', ''multi-user.target'', ''--root='' @ mountpoint] captured"

section \<open>What sorting promises\<close>

locale sort_slice =
  fixes srt :: sorter
  assumes mset_srt: "mset (srt k xs) = mset xs"
    and sorted_srt: "sorted (map k (srt k xs))"
begin

lemma set_srt: "set (srt k xs) = set xs"
  using mset_srt by (metis set_mset_mset)

lemma srt_Nil: "srt k xs = [] \<longleftrightarrow> xs = []"
  by (metis mset_srt mset_zero_iff)

lemma first_least: "srt k xs = y # ys \<Longrightarrow> y \<in> set xs \<and> (\<forall>x\<in>set xs. k y \<le> k x)"
  using sorted_srt[of k xs] set_srt[of k xs] by auto

text \<open>The shape of the selection: the sorted pool, then the sorted rest.\<close>

lemma selection_shape:
  fixes all ex
  obtains c pool0 c' where "c = filter (candidate ex) all"
    "set pool0 \<subseteq> set c" "c \<noteq> [] \<Longrightarrow> pool0 \<noteq> []" "set c' = set c"
    "\<And>d d'. d \<in> set pool0 \<Longrightarrow> d' \<in> set c \<Longrightarrow> (d_Rota d' \<longrightarrow> d_Rota d) \<Longrightarrow> d' \<in> set pool0"
    "\<And>d d'. d \<in> set pool0 \<Longrightarrow> d_Rota d \<Longrightarrow> d' \<in> set c \<Longrightarrow> d_Rota d'"
    "selectDisksFrom srt all ex = (if length c < 2 then Err (Msg ''disks: need at least 2 disks (root + bulk)'')
      else case srt sizeOf pool0 of [] \<Rightarrow> Panic | root # _ \<Rightarrow>
        (case srt (\<lambda>d. - sizeOf d) (filter (\<lambda>d. d_Path d \<noteq> d_Path root) c') of
           [] \<Rightarrow> Panic | bulk # _ \<Rightarrow> Ok (d_Path root, d_Path bulk)))"
proof -
  define c where "c = filter (candidate ex) all"
  define n where "n = filter (\<lambda>d. \<not> d_Rota d) c"
  define pool0 where "pool0 = (if n \<noteq> [] then n else c)"
  define c' where "c' = (if n \<noteq> [] then c else srt sizeOf pool0)"
  have sel: "selectDisksFrom srt all ex = (if length c < 2 then Err (Msg ''disks: need at least 2 disks (root + bulk)'')
      else case srt sizeOf pool0 of [] \<Rightarrow> Panic | root # _ \<Rightarrow>
        (case srt (\<lambda>d. - sizeOf d) (filter (\<lambda>d. d_Path d \<noteq> d_Path root) c') of
           [] \<Rightarrow> Panic | bulk # _ \<Rightarrow> Ok (d_Path root, d_Path bulk)))"
    unfolding selectDisksFrom_def Let_def c'_def pool0_def n_def c_def ..
  have n: "set n = {d \<in> set c. \<not> d_Rota d}" by (simp add: n_def)
  have empty: "n = [] \<Longrightarrow> d \<in> set c \<Longrightarrow> d_Rota d" for d by (simp add: n_def filter_empty_conv)
  have c': "set c' = set c" using set_srt by (simp add: c'_def pool0_def)
  show thesis
    by (rule that[OF c_def _ _ c' _ _ sel]) (use n empty in \<open>auto simp: pool0_def split: if_splits\<close>)
qed

text \<open>The disks that are chosen.\<close>

lemma selected:
  assumes "selectDisksFrom srt all ex = Ok (rootDisk, bulkDisk)"
  shows "\<exists>dr db. dr \<in> set all \<and> candidate ex dr \<and> d_Path dr = rootDisk \<and>
    db \<in> set all \<and> candidate ex db \<and> d_Path db = bulkDisk \<and> rootDisk \<noteq> bulkDisk \<and>
    (\<forall>d\<in>set all. candidate ex d \<and> (d_Rota d \<longrightarrow> d_Rota dr) \<longrightarrow> sizeOf dr \<le> sizeOf d) \<and>
    (d_Rota dr \<longrightarrow> (\<forall>d\<in>set all. candidate ex d \<longrightarrow> d_Rota d)) \<and>
    (\<forall>d\<in>set all. candidate ex d \<and> d_Path d \<noteq> rootDisk \<longrightarrow> sizeOf d \<le> sizeOf db)"
proof -
  obtain c pool0 c' where c: "c = filter (candidate ex) all" and sub: "set pool0 \<subseteq> set c"
    and ne: "c \<noteq> [] \<Longrightarrow> pool0 \<noteq> []" and c': "set c' = set c"
    and better: "\<And>d d'. d \<in> set pool0 \<Longrightarrow> d' \<in> set c \<Longrightarrow> (d_Rota d' \<longrightarrow> d_Rota d) \<Longrightarrow> d' \<in> set pool0"
    and rota: "\<And>d d'. d \<in> set pool0 \<Longrightarrow> d_Rota d \<Longrightarrow> d' \<in> set c \<Longrightarrow> d_Rota d'"
    and sel: "selectDisksFrom srt all ex = (if length c < 2 then Err (Msg ''disks: need at least 2 disks (root + bulk)'')
      else case srt sizeOf pool0 of [] \<Rightarrow> Panic | root # _ \<Rightarrow>
        (case srt (\<lambda>d. - sizeOf d) (filter (\<lambda>d. d_Path d \<noteq> d_Path root) c') of
           [] \<Rightarrow> Panic | bulk # _ \<Rightarrow> Ok (d_Path root, d_Path bulk)))"
    by (rule selection_shape[of ex all]) (rule that)
  from assms sel obtain dr ps db os where p: "srt sizeOf pool0 = dr # ps"
    and o: "srt (\<lambda>d. - sizeOf d) (filter (\<lambda>d. d_Path d \<noteq> d_Path dr) c') = db # os"
    and rb: "rootDisk = d_Path dr" "bulkDisk = d_Path db"
    by (auto split: if_splits list.splits)
  have lr: "dr \<in> set pool0" "\<And>d. d \<in> set pool0 \<Longrightarrow> sizeOf dr \<le> sizeOf d" using first_least[OF p] by auto
  have lb: "db \<in> set c" "d_Path db \<noteq> d_Path dr"
    "\<And>d. d \<in> set c \<Longrightarrow> d_Path d \<noteq> d_Path dr \<Longrightarrow> sizeOf d \<le> sizeOf db"
    using first_least[OF o] c' by auto
  have mem: "x \<in> set c \<longleftrightarrow> x \<in> set all \<and> candidate ex x" for x by (simp add: c)
  have small: "\<forall>d\<in>set all. candidate ex d \<and> (d_Rota d \<longrightarrow> d_Rota dr) \<longrightarrow> sizeOf dr \<le> sizeOf d"
    using lr better[OF lr(1)] mem by blast
  have ssd: "d_Rota dr \<longrightarrow> (\<forall>d\<in>set all. candidate ex d \<longrightarrow> d_Rota d)"
    using rota[OF lr(1)] mem by blast
  have large: "\<forall>d\<in>set all. candidate ex d \<and> d_Path d \<noteq> d_Path dr \<longrightarrow> sizeOf d \<le> sizeOf db"
    using lb(3) mem by blast
  have dr: "dr \<in> set all" "candidate ex dr" using mem[of dr] subsetD[OF sub lr(1)] by simp_all
  have db: "db \<in> set all" "candidate ex db" using mem[of db] lb(1) by simp_all
  show ?thesis unfolding rb
    by (intro exI[of _ dr] exI[of _ db] conjI dr db small ssd large refl lb(2)[symmetric])
qed

lemma no_panic:
  assumes "inj_on d_Path (set (filter (candidate ex) all))" "distinct (filter (candidate ex) all)"
  shows "selectDisksFrom srt all ex \<noteq> Panic"
proof
  obtain c pool0 c' where c: "c = filter (candidate ex) all" and sub: "set pool0 \<subseteq> set c"
    and ne: "c \<noteq> [] \<Longrightarrow> pool0 \<noteq> []" and c': "set c' = set c"
    and better: "\<And>d d'. d \<in> set pool0 \<Longrightarrow> d' \<in> set c \<Longrightarrow> (d_Rota d' \<longrightarrow> d_Rota d) \<Longrightarrow> d' \<in> set pool0"
    and rota: "\<And>d d'. d \<in> set pool0 \<Longrightarrow> d_Rota d \<Longrightarrow> d' \<in> set c \<Longrightarrow> d_Rota d'"
    and sel: "selectDisksFrom srt all ex = (if length c < 2 then Err (Msg ''disks: need at least 2 disks (root + bulk)'')
      else case srt sizeOf pool0 of [] \<Rightarrow> Panic | root # _ \<Rightarrow>
        (case srt (\<lambda>d. - sizeOf d) (filter (\<lambda>d. d_Path d \<noteq> d_Path root) c') of
           [] \<Rightarrow> Panic | bulk # _ \<Rightarrow> Ok (d_Path root, d_Path bulk)))"
    by (rule selection_shape[of ex all]) (rule that)
  assume a: "selectDisksFrom srt all ex = Panic"
  have two: "\<not> length c < 2"
  proof
    assume "length c < 2"
    then show False using a unfolding sel by simp
  qed
  then have "c \<noteq> []" by (cases c) simp_all
  then obtain dr ps where p: "srt sizeOf pool0 = dr # ps"
    using ne srt_Nil[of sizeOf pool0] by (cases "srt sizeOf pool0") simp_all
  have "srt (\<lambda>d. - sizeOf d) (filter (\<lambda>d. d_Path d \<noteq> d_Path dr) c') = []"
    using a two unfolding sel p
    by (cases "srt (\<lambda>d. - sizeOf d) (filter (\<lambda>d. d_Path d \<noteq> d_Path dr) c')") simp_all
  then have "\<forall>d\<in>set c. d_Path d = d_Path dr" unfolding srt_Nil c'[symmetric] by (simp add: filter_empty_conv)
  moreover have "dr \<in> set c" using first_least[OF p] subsetD[OF sub] by blast
  ultimately have "set c \<subseteq> {dr}" using inj_onD[OF assms(1)[folded c]] by blast
  then have "card (set c) \<le> card {dr}" by (intro card_mono) auto
  then show False using two distinct_card[OF assms(2)[folded c]] by simp
qed

end

interpretation stable: sort_slice sort_key
  by unfold_locales simp_all

section \<open>Properties\<close>

text \<open>C7: Whenever disks are selected, root and bulk are two different writable whole disks of
  non-zero size, neither is the installer's own boot device, root is the smallest among the
  non-rotational candidates (among all when every candidate is rotational) and bulk the
  largest of the rest, however ties are broken by the sort.\<close>

theorem disk_selection:
  assumes "sort_slice srt" and "selectDisksFrom srt all ex = Ok (rootDisk, bulkDisk)"
  shows "\<exists>dr db. dr \<in> set all \<and> candidate ex dr \<and> d_Path dr = rootDisk \<and>
    db \<in> set all \<and> candidate ex db \<and> d_Path db = bulkDisk \<and> rootDisk \<noteq> bulkDisk \<and>
    (\<forall>d\<in>set all. candidate ex d \<and> (d_Rota d \<longrightarrow> d_Rota dr) \<longrightarrow> sizeOf dr \<le> sizeOf d) \<and>
    (d_Rota dr \<longrightarrow> (\<forall>d\<in>set all. candidate ex d \<longrightarrow> d_Rota d)) \<and>
    (\<forall>d\<in>set all. candidate ex d \<and> d_Path d \<noteq> rootDisk \<longrightarrow> sizeOf d \<le> sizeOf db)"
  using assms by (rule sort_slice.selected)

definition demo_disks :: "blockDevice list" where
  "demo_disks =
    [\<lparr>d_Name = ''sda'', d_Path = ''/dev/sda'', d_Size = ''900'', d_Type = ''disk'', d_Rota = True, d_RO = False, d_PKName = []\<rparr>,
     \<lparr>d_Name = ''sdb'', d_Path = ''/dev/sdb'', d_Size = ''100'', d_Type = ''disk'', d_Rota = False, d_RO = False, d_PKName = []\<rparr>,
     \<lparr>d_Name = ''sdc'', d_Path = ''/dev/sdc'', d_Size = ''5'', d_Type = ''disk'', d_Rota = False, d_RO = False, d_PKName = []\<rparr>,
     \<lparr>d_Name = ''sdd'', d_Path = ''/dev/sdd'', d_Size = ''1'', d_Type = ''disk'', d_Rota = False, d_RO = True, d_PKName = []\<rparr>]"

lemma demo_selection: "selectDisksFrom sort_key demo_disks ''sdc'' = Ok (''/dev/sdb'', ''/dev/sda'')"
  by (simp add: selectDisksFrom_def demo_disks_def candidate_def sizeOf_def ParseInt64_def signed_val_def
      digits_val_def is_digit_def less_eq_char_def Let_def)

theorem disk_selection_witness:
  "\<exists>dr db. dr \<in> set demo_disks \<and> candidate ''sdc'' dr \<and> d_Path dr = ''/dev/sdb'' \<and>
     db \<in> set demo_disks \<and> candidate ''sdc'' db \<and> d_Path db = ''/dev/sda''"
  using disk_selection[OF stable.sort_slice_axioms demo_selection] by blast

text \<open>With candidates that differ and have different paths, the selection never panics: it
  returns two disks or says that there are too few.\<close>

theorem disk_selection_total:
  assumes "sort_slice srt" and "inj_on d_Path (set (filter (candidate ex) all))"
    and "distinct (filter (candidate ex) all)"
  shows "if length (filter (candidate ex) all) < 2 then \<exists>e. selectDisksFrom srt all ex = Err e
    else \<exists>r. selectDisksFrom srt all ex = Ok r"
proof -
  have np: "selectDisksFrom srt all ex \<noteq> Panic" using sort_slice.no_panic assms by blast
  show ?thesis
  proof (cases "length (filter (candidate ex) all) < 2")
    case True
    then show ?thesis by (simp add: selectDisksFrom_def)
  next
    case False
    then have "\<exists>r. selectDisksFrom srt all ex = Ok r \<or> selectDisksFrom srt all ex = Panic"
      unfolding selectDisksFrom_def Let_def by (simp split: list.split)
    then show ?thesis using np False by auto
  qed
qed

theorem disk_selection_total_witness:
  "\<exists>r. selectDisksFrom sort_key demo_disks ''sdc'' = Ok r"
  using disk_selection_total[OF stable.sort_slice_axioms, of "''sdc''" demo_disks]
  by (simp add: demo_disks_def candidate_def sizeOf_def ParseInt64_def signed_val_def
      digits_val_def is_digit_def less_eq_char_def inj_on_def)

end
