(* ===== verification/Prompt.thy ===== *)
theory Prompt
  imports World
begin

text \<open>
  \<^verbatim>\<open>internal/prompt/prompt.go\<close> and \<^verbatim>\<open>internal/prompt/password_linux.go\<close>: asking at
  the console, with and without echo.
\<close>

section \<open>Asking with echo\<close>

record ask_options =
  Default :: string
  Validate :: "(string \<Rightarrow> bool) option"
  Normalize :: "(string \<Rightarrow> string) option"
  Optional :: bool

definition plain_ask :: ask_options where
  "plain_ask = \<lparr>Default = [], Validate = None, Normalize = None, Optional = False\<rparr>"

text \<open>The value one line of input stands for: trimmed, the default when blank, then normalised.\<close>

definition ask_value :: "ask_options \<Rightarrow> string \<Rightarrow> string" where
  "ask_value opts line =
     (let v0 = trim_space line; v1 = (if v0 = [] then Default opts else v0) in
      if v1 = [] then v1 else (case Normalize opts of None \<Rightarrow> v1 | Some n \<Rightarrow> n v1))"

text \<open>What the loop does with a line: return a value, or say why not and ask again.\<close>

datatype verdict = Answer string | Again string

definition ask_verdict :: "ask_options \<Rightarrow> string \<Rightarrow> verdict" where
  "ask_verdict opts line =
     (let value = ask_value opts line in
      if value = [] then (if Optional opts then Answer [] else Again ''a value is required'')
      else (case Validate opts of
        Some p \<Rightarrow> if \<not> p value then Again ''invalid value, try again'' else Answer value
      | None \<Rightarrow> Answer value))"

text \<open>The loop, on the unread console input: every round consumes a line, so it ends.\<close>

function ask_loop :: "ask_options \<Rightarrow> string \<Rightarrow> string \<Rightarrow> gerr out_item list
    \<Rightarrow> (gerr, string) outcome \<times> string \<times> gerr out_item list" where
  "ask_loop opts display inp con =
     (let con1 = con @ [OText (display @ '': '')] in
      case read_line inp of
        None \<Rightarrow> (Err (Wrap ''prompt: read input'' (Msg ''EOF'')), [], con1)
      | Some (line, rest) \<Rightarrow> (case ask_verdict opts line of
          Answer v \<Rightarrow> (Ok v, rest, con1)
        | Again why \<Rightarrow> ask_loop opts display rest (con1 @ [OText why])))"
  by pat_completeness auto
termination
  by (relation "measure (\<lambda>(opts, display, inp, con). length inp)") (auto dest: read_line_shorter)

declare ask_loop.simps [simp del]

definition Ask :: "string \<Rightarrow> ask_options \<Rightarrow> string go" where
  "Ask label opts = (\<lambda>env w.
     let display = (if Default opts \<noteq> [] then label @ '' ['' @ Default opts @ '']'' else label) in
     case ask_loop opts display (w_stdin w) (w_console w) of
       (r, inp, con) \<Rightarrow> Some (r, w\<lparr>w_stdin := inp, w_console := con\<rparr>))"

definition Banner :: "string \<Rightarrow> unit go" where
  "Banner text = (let line = replicate 70 (CHR ''='') in
     gbind (println line) (\<lambda>_. gbind (println text) (\<lambda>_. println line)))"

section \<open>Asking without echo\<close>

fun trimNewline :: "string \<Rightarrow> string" where
  "trimNewline s = rev (dropWhile (\<lambda>c. c = CHR 0x0A \<or> c = CHR 0x0D) (rev s))"

text \<open>\<open>ioctl(fd, TCSETS, \<dots>)\<close> sets whether the terminal echoes; the environment may refuse.\<close>

definition set_echo :: "bool \<Rightarrow> unit go" where
  "set_echo b = (\<lambda>env w.
     let w1 = w\<lparr>w_trace := w_trace w @ [ETermios b]\<rparr> in
     if e_tty env (w_trace w) then Some (Err (Msg ''ioctl''), w1)
     else Some (Ok (), w1\<lparr>w_echo := b\<rparr>))"

definition get_echo :: "bool go" where
  "get_echo = (\<lambda>env w.
     if e_tty env (w_trace w) then Some (Err (Msg ''ioctl''), w) else Some (Ok (w_echo w), w))"

definition AskSecret :: "string \<Rightarrow> string go" where
  "AskSecret label =
     gbind (println (label @ '': '')) (\<lambda>_.
     gbind (gwrap ''prompt: get terminal state'' get_echo) (\<lambda>old.
     gbind (gwrap ''prompt: disable terminal echo'' (set_echo False)) (\<lambda>_.
     gdefer (set_echo old)
       (gbind (gtry read_string) (\<lambda>res.
        gbind (println []) (\<lambda>_.
        case res of
          Inl err \<Rightarrow> fail (Wrap ''prompt: read secret'' err)
        | Inr line \<Rightarrow> ret (trimNewline line)))))))"

section \<open>Lemmas\<close>

lemma ask_verdict_Answer:
  "ask_verdict opts line = Answer v \<Longrightarrow> (v = [] \<and> Optional opts) \<or>
    (v \<noteq> [] \<and> (\<forall>p. Validate opts = Some p \<longrightarrow> p v))"
  by (auto simp: ask_verdict_def Let_def split: if_splits option.splits)

text \<open>The first line that gives an answer is the one that counts.\<close>

lemma ask_loop_result:
  "ask_loop opts display inp con = (r, rest, con') \<Longrightarrow>
   (\<exists>v pre line. r = Ok v \<and> inp = pre @ line @ rest \<and> ask_verdict opts line = Answer v) \<or>
   (r = Err (Wrap ''prompt: read input'' (Msg ''EOF'')) \<and> rest = [])"
proof (induction opts display inp con rule: ask_loop.induct)
  case (1 opts display inp con)
  show ?case
  proof (cases "read_line inp")
    case None
    then show ?thesis using 1(2) by (simp add: ask_loop.simps[of opts display inp])
  next
    case (Some lr)
    obtain line r1 where lr: "lr = (line, r1)" by (cases lr)
    have inp: "inp = line @ r1" using read_line_shorter Some lr by blast
    show ?thesis
    proof (cases "ask_verdict opts line")
      case (Answer v)
      then have "r = Ok v" "rest = r1" using 1(2) Some lr by (simp_all add: ask_loop.simps[of opts display inp])
      then show ?thesis using inp Answer by (metis append_Nil)
    next
      case (Again why)
      then have "ask_loop opts display r1 ((con @ [OText (display @ '': '')]) @ [OText why]) = (r, rest, con')"
        using 1(2) Some lr by (simp add: ask_loop.simps[of opts display inp])
      from 1(1)[OF refl Some lr[symmetric] Again this] show ?thesis using inp by (metis append_assoc)
    qed
  qed
qed

lemma trimNewline_no_newline: "trimNewline s = [] \<or> last (trimNewline s) \<notin> {CHR 0x0A, CHR 0x0D}"
proof (cases "trimNewline s = []")
  case False
  let ?d = "dropWhile (\<lambda>c. c = CHR 0x0A \<or> c = CHR 0x0D) (rev s)"
  have "?d \<noteq> []" using False by simp
  then have "\<not> (hd ?d = CHR 0x0A \<or> hd ?d = CHR 0x0D)" by (rule hd_dropWhile)
  then show ?thesis using \<open>?d \<noteq> []\<close> by (simp add: last_rev)
qed simp

section \<open>Properties\<close>

text \<open>C28: \<open>Ask\<close> always comes back; when it returns a value, the value is blank only if blank is
  allowed, and a value that is not blank has passed the caller's check. It touches nothing but
  the console.\<close>

theorem Ask_valid:
  "\<exists>r w'. Ask label opts env w = Some (r, w') \<and> r \<noteq> Panic \<and>
    (\<forall>v. r = Ok v \<longrightarrow> (v = [] \<longrightarrow> Optional opts) \<and> (\<forall>p. v \<noteq> [] \<and> Validate opts = Some p \<longrightarrow> p v)) \<and>
    w_fs w' = w_fs w \<and> w_trace w' = w_trace w \<and> w_echo w' = w_echo w"
proof -
  let ?d = "if Default opts \<noteq> [] then label @ '' ['' @ Default opts @ '']'' else label"
  obtain r inp con where l: "ask_loop opts ?d (w_stdin w) (w_console w) = (r, inp, con)"
    by (metis prod_cases3)
  then have "Ask label opts env w = Some (r, w\<lparr>w_stdin := inp, w_console := con\<rparr>)"
    unfolding Ask_def Let_def by (simp only: l) simp
  then show ?thesis using ask_loop_result[OF l] by (auto dest: ask_verdict_Answer)
qed

theorem Ask_valid_witness:
  "\<exists>r w'. Ask ''Domain'' (plain_ask\<lparr>Validate := Some (\<lambda>v. v = ''a.org'')\<rparr>) quiet_env
      (empty_world\<lparr>w_stdin := ''b'' @ [CHR 0x0A] @ '' a.org '' @ [CHR 0x0A]\<rparr>) = Some (r, w') \<and>
    r = Ok ''a.org'' \<and> w_trace w' = []"
proof -
  let ?o = "plain_ask\<lparr>Validate := Some (\<lambda>v. v = ''a.org'')\<rparr>"
  let ?w = "empty_world\<lparr>w_stdin := ''b'' @ [CHR 0x0A] @ '' a.org '' @ [CHR 0x0A]\<rparr>"
  obtain r w' where a: "Ask ''Domain'' ?o quiet_env ?w = Some (r, w')" "w_trace w' = w_trace ?w"
    using Ask_valid[of "''Domain''" ?o quiet_env ?w] by blast
  have "ask_loop ?o ''Domain'' ([CHR ''b'', CHR 0x0A] @ '' a.org '' @ [CHR 0x0A]) []
      = (Ok ''a.org'', [], [OText ''Domain: '', OText ''invalid value, try again'', OText ''Domain: ''])"
    by (simp add: ask_loop.simps ask_verdict_def ask_value_def plain_ask_def trim_space_def is_space_def)
  then have "r = Ok ''a.org''" using a(1) by (simp add: Ask_def plain_ask_def empty_world_def)
  then show ?thesis using a by (simp add: empty_world_def)
qed



end
