(* ===== verification/Commands.thy ===== *)
theory Commands
  imports Runx Prompt Config
begin

text \<open>
  Which commands a run starts: the projection of the history on its commands, and the calls that
  leave it alone.
\<close>

fun cmd_of :: "event \<Rightarrow> string list option" where
  "cmd_of (ECmd argv) = Some argv"
| "cmd_of _ = None"

definition commands :: "world \<Rightarrow> string list list" where
  "commands w = List.map_filter cmd_of (w_trace w)"

definition no_cmd :: "world \<Rightarrow> world \<Rightarrow> bool" where
  "no_cmd w w' \<longleftrightarrow> commands w' = commands w"

interpretation nc: world_order no_cmd
  by unfold_locales (auto simp: no_cmd_def)

lemma commands_snoc [simp]:
  "commands (w\<lparr>w_trace := t @ [ev]\<rparr>) = List.map_filter cmd_of t @ (case cmd_of ev of Some a \<Rightarrow> [a] | None \<Rightarrow> [])"
  by (auto simp: commands_def map_filter_def split: option.split)

lemma commands_other [simp]:
  "commands (w\<lparr>w_fs := f\<rparr>) = commands w" "commands (w\<lparr>w_console := c\<rparr>) = commands w"
  "commands (w\<lparr>w_stdin := i\<rparr>) = commands w" "commands (w\<lparr>w_echo := b\<rparr>) = commands w"
  by (simp_all add: commands_def)

named_theorems no_cmds \<open>programs that start no command\<close>

lemma no_cmd_io [intro!, no_cmds]: "keeps no_cmd (io_call op g)"
  by (auto simp: keeps_def io_call_def no_cmd_def commands_def Let_def map_filter_def split: option.splits outcome.splits if_splits)

lemma no_cmd_files [intro!, no_cmds]:
  "keeps no_cmd (os_ReadFile p)" "keeps no_cmd (os_WriteFile p c m)" "keeps no_cmd (os_MkdirAll p m)"
  "keeps no_cmd (os_Chmod p m)" "keeps no_cmd (os_Chown p own)" "keeps no_cmd (os_Touch p m)"
  "keeps no_cmd (os_AppendFile p c m)" "keeps no_cmd (os_Remove p)" "keeps no_cmd (os_RemoveAll p)"
  "keeps no_cmd (os_Symlink t p)" "keeps no_cmd (os_Stat p)" "keeps no_cmd (os_Lstat p)"
  "keeps no_cmd (filepath_Glob d s)"
  by (auto simp: os_ReadFile_def os_WriteFile_def os_MkdirAll_def os_Chmod_def os_Chown_def os_Touch_def os_AppendFile_def
    os_Remove_def os_RemoveAll_def os_Symlink_def os_Stat_def os_Lstat_def filepath_Glob_def)

lemma no_cmd_temp [intro!, no_cmds]: "keeps no_cmd (os_MkdirTemp pat)"
  unfolding os_MkdirTemp_def Let_def by (intro nc.keeps_bind nc.keeps_get no_cmd_io)

lemma no_cmd_print [intro!, no_cmds]: "keeps no_cmd (print_item it)"
  by (auto simp: keeps_def print_item_def no_cmd_def)

lemma no_cmd_rand [intro!, no_cmds]: "keeps no_cmd (rand_Read n)"
  by (auto simp: keeps_def rand_Read_def no_cmd_def commands_def map_filter_def Let_def split: option.splits)

lemma no_cmd_Ask [intro!, no_cmds]: "keeps no_cmd (Ask lab opts)"
  by (auto simp: keeps_def Ask_def no_cmd_def Let_def split: prod.splits)

lemma no_cmd_Banner [intro!, no_cmds]: "keeps no_cmd (Banner s)"
  by (auto simp: Banner_def Let_def)

lemma no_cmd_echo [intro!, no_cmds]: "keeps no_cmd (set_echo b)" "keeps no_cmd get_echo"
  by (auto simp: keeps_def set_echo_def get_echo_def no_cmd_def commands_def map_filter_def Let_def)

lemma no_cmd_read [intro!, no_cmds]: "keeps no_cmd read_string"
  by (auto simp: keeps_def read_string_def no_cmd_def split: option.splits)

lemma no_cmd_AskSecret [intro!, no_cmds]: "keeps no_cmd (AskSecret lab)"
  unfolding AskSecret_def by (intro nc.keeps_bind nc.keeps_defer nc.keeps_wrap nc.keeps_try no_cmd_print no_cmd_echo no_cmd_read) (auto split: sum.split)

lemma no_cmd_config [intro!, no_cmds]:
  "keeps no_cmd (Load s)" "keeps no_cmd (Save s cfg)" "keeps no_cmd (MarkDone s n)" "keeps no_cmd (IsDone s n)"
  "keeps no_cmd (RequireDone s n)" "keeps no_cmd (GenSecret k)" "keeps no_cmd (cfg_set k1 v cfg)"
  by (auto simp: Load_def Save_def MarkDone_def IsDone_def RequireDone_def GenSecret_def cfg_set_def Let_def
    split: sum.split option.split cfg.split)

lemma no_cmd_merge [intro!, no_cmds]: "keeps no_cmd (cfg_merge kvs cfg)"
  by (induction kvs cfg rule: cfg_merge.induct) auto

lemma no_cmd_Update [intro!, no_cmds]: "keeps no_cmd (Update s kvs)"
  by (auto simp: Update_def)

lemma Run_commands: "Run argv opts env w = Some (r, w') \<Longrightarrow> argv \<noteq> [] \<Longrightarrow> commands w' = commands w @ [buildArgv argv opts]"
  by (auto simp: Run_def commands_def map_filter_def Let_def split: prod.splits if_splits)

lemma run_step_commands:
  "run_step msg argv opts env w = Some (Ok x, w') \<Longrightarrow> argv \<noteq> [] \<Longrightarrow> commands w' = commands w @ [buildArgv argv opts]"
  by (auto simp: run_step_def gbind_eq_Ok gwrap_eq_Ok ret_def dest!: Run_commands)

lemma no_cmdD: "keeps no_cmd m \<Longrightarrow> m env w = Some (r, w') \<Longrightarrow> commands w' = commands w"
  by (auto simp: keeps_def no_cmd_def)

text \<open>What an answer of \<open>Ask\<close> satisfies.\<close>

lemma Ask_Ok:
  assumes "Ask lab opts env w = Some (Ok v, w')"
  shows "(v = [] \<longrightarrow> Optional opts) \<and> (\<forall>p. v \<noteq> [] \<and> Validate opts = Some p \<longrightarrow> p v)"
proof -
  let ?d = "if Default opts \<noteq> [] then lab @ '' ['' @ Default opts @ '']'' else lab"
  obtain inp con where l: "ask_loop opts ?d (w_stdin w) (w_console w) = (Ok v, inp, con)"
    using assms unfolding Ask_def Let_def by (auto split: prod.splits)
  from ask_loop_result[OF l] show ?thesis by (auto dest: ask_verdict_Answer)
qed

text \<open>A computation that comes back without a panic.\<close>

definition settles :: "env \<Rightarrow> 'a go \<Rightarrow> bool" where
  "settles env m = (\<forall>w. \<exists>r w'. m env w = Some (r, w') \<and> r \<noteq> Panic)"

lemma settles_io: "(\<And>f. g f \<noteq> Panic) \<Longrightarrow> settles env (io_call op g)"
  by (auto simp: settles_def io_call_def Let_def split: option.split outcome.split)

lemma settles_bind: "settles env m \<Longrightarrow> (\<And>x. settles env (f x)) \<Longrightarrow> settles env (gbind m f)"
  unfolding settles_def
proof
  fix w
  assume m: "\<forall>w. \<exists>r w'. m env w = Some (r, w') \<and> r \<noteq> Panic" and f: "\<And>x. \<forall>w. \<exists>r w'. f x env w = Some (r, w') \<and> r \<noteq> Panic"
  from m obtain r w1 where r: "m env w = Some (r, w1)" "r \<noteq> Panic" by blast
  then show "\<exists>r w'. gbind m f env w = Some (r, w') \<and> r \<noteq> Panic"
    using f by (cases r) (auto simp: gbind_def)
qed

lemma settles_wrap: "settles env m \<Longrightarrow> settles env (gwrap s m)"
  unfolding settles_def gwrap_def by (metis (no_types, lifting) case_prod_conv option.map(2) owrap_eq_Panic)

lemma settles_ret [simp]: "settles env (ret x)"
  by (simp add: settles_def ret_def)

lemma settles_run_step: "settles env (run_step msg argv opts)"
  unfolding run_step_def
proof (intro settles_bind settles_wrap)
  show "settles env (Run argv opts)"
    unfolding settles_def using Run_total Run_no_panic by (metis option.exhaust surj_pair)
qed simp

lemma fs_put_no_panic: "fs_put p m g f \<noteq> Panic"
  by (auto simp: fs_put_def split: option.split node.split)

lemma settles_write: "settles env (os_WriteFile p c m)"
  unfolding os_WriteFile_def by (rule settles_io) (auto simp: obind_eq_Panic fs_put_no_panic)

lemma settles_fail [simp]: "settles env (fail e)"
  by (simp add: settles_def fail_def)

lemma settles_of_outcome: "r \<noteq> Panic \<Longrightarrow> settles env (of_outcome r)"
  by (simp add: settles_def of_outcome_def)

lemma settles_get [simp]: "settles env get_world" "settles env get_env"
  by (simp_all add: settles_def get_world_def get_env_def)

lemma settles_print [simp]: "settles env (print_item it)"
  by (simp add: settles_def print_item_def)

lemma settles_try: "settles env m \<Longrightarrow> settles env (gtry m)"
  unfolding settles_def
proof
  fix w
  assume "\<forall>w. \<exists>r w'. m env w = Some (r, w') \<and> r \<noteq> Panic"
  then obtain r w1 where "m env w = Some (r, w1)" "r \<noteq> Panic" by blast
  then show "\<exists>r w'. gtry m env w = Some (r, w') \<and> r \<noteq> Panic" by (cases r) (auto simp: gtry_def)
qed

lemma settles_Run: "settles env (Run argv opts)"
  unfolding settles_def using Run_total Run_no_panic by (metis option.exhaust surj_pair)

lemma settles_RunChecked: "settles env (RunChecked argv opts)"
  unfolding RunChecked_def by (intro settles_bind settles_Run) simp

lemma fs_read_no_panic: "fs_read p f \<noteq> Panic"
  by (auto simp: fs_read_def split: option.split node.split)

lemma fs_mkdirs_no_panic: "fs_mkdirs m ps f \<noteq> Panic"
  by (induction m ps f rule: fs_mkdirs.induct) (auto split: option.split node.split)

lemma settles_read: "settles env (os_ReadFile p)"
  unfolding os_ReadFile_def by (rule settles_io) (auto simp: obind_eq_Panic fs_read_no_panic)

lemma settles_mkdir: "settles env (os_MkdirAll p m)"
  unfolding os_MkdirAll_def by (rule settles_io) (auto simp: obind_eq_Panic fs_mkdirs_no_panic)

lemma settles_stat: "settles env (os_Stat p)"
  unfolding os_Stat_def by (rule settles_io) auto

lemma settles_Load: "settles env (Load s)"
  unfolding Load_def by (intro settles_bind settles_try settles_read) (auto split: sum.split option.split)

lemma settles_RequireDone: "settles env (RequireDone s n)"
  unfolding RequireDone_def IsDone_def by (intro settles_bind settles_try settles_stat) auto

lemmas settles_intros = settles_bind settles_wrap settles_try settles_Run settles_RunChecked settles_run_step settles_read settles_write
  settles_mkdir settles_Load settles_RequireDone

text \<open>All commands a run adds satisfy a predicate.\<close>

definition cmds_in :: "(string list \<Rightarrow> bool) \<Rightarrow> world \<Rightarrow> world \<Rightarrow> bool" where
  "cmds_in P w w' = (\<exists>cs. commands w' = commands w @ cs \<and> list_all P cs)"

lemma cmds_in_order: "world_order (cmds_in P)"
  by unfold_locales (fastforce simp: cmds_in_def)+

interpretation ci: world_order "cmds_in P" for P
  by (rule cmds_in_order)

named_theorems cmds_in_rules \<open>what a run needs so that its commands satisfy a predicate\<close>

lemma ci_no_cmd: "keeps no_cmd m \<Longrightarrow> keeps (cmds_in P) m"
  by (auto simp: keeps_def no_cmd_def cmds_in_def)

lemma ci_Run [cmds_in_rules]: "P (buildArgv argv opts) \<Longrightarrow> keeps (cmds_in P) (Run argv opts)"
  unfolding keeps_def cmds_in_def
proof (intro allI impI)
  fix env w r w'
  assume P: "P (buildArgv argv opts)" and r: "Run argv opts env w = Some (r, w')"
  show "\<exists>cs. commands w' = commands w @ cs \<and> list_all P cs"
  proof (cases "argv = []")
    case True
    then show ?thesis using r by (auto simp: Run_def fail_def)
  next
    case False
    then show ?thesis using Run_commands[OF r] P by (intro exI[of _ "[buildArgv argv opts]"]) simp
  qed
qed

lemma buildArgv_Capture [simp]: "buildArgv argv (opts\<lparr>Capture := b\<rparr>) = buildArgv argv opts"
  by (simp add: buildArgv_def)

lemma ci_RunChecked [cmds_in_rules]: "P (buildArgv argv opts) \<Longrightarrow> keeps (cmds_in P) (RunChecked argv opts)"
  unfolding RunChecked_def by (intro ci.keeps_bind ci.keeps_ret ci_Run) simp

lemma ci_run_step [cmds_in_rules]: "P (buildArgv argv opts) \<Longrightarrow> keeps (cmds_in P) (run_step msg argv opts)"
  unfolding run_step_def by (intro ci.keeps_bind ci.keeps_wrap ci.keeps_ret ci_Run)

lemmas ci_seq = ci.keeps_bind ci.keeps_wrap ci.keeps_try ci.keeps_defer ci.keeps_foreach ci.keeps_fold ci.keeps_range ci.keeps_ret
  ci.keeps_fail ci.keeps_of_outcome ci.keeps_get

lemma cmds_in_weaken: "cmds_in P w w' \<Longrightarrow> (\<And>c. P c \<Longrightarrow> Q c) \<Longrightarrow> cmds_in Q w w'"
  by (auto simp: cmds_in_def list_all_iff)

end
