(* ===== verification/Users.thy ===== *)
theory Users
  imports Commands
begin

text \<open>
  \<^verbatim>\<open>internal/users/users.go\<close>: the administrator's and the service account, made on the mounted
  target with \<open>systemd-sysusers\<close>, their home directories, the authorized key and the ownership of
  the service data.
\<close>

section \<open>Names\<close>

definition usersDataSubdirs :: "string list" where
  "usersDataSubdirs = [''stalwart'', ''vaultwarden'', ''garage'', ''traefik'', ''ente'']"

definition is_lower :: "char \<Rightarrow> bool" where
  "is_lower c = (CHR ''a'' \<le> c \<and> c \<le> CHR ''z'')"

text \<open>\<^verbatim>\<open>^[a-z_][a-z0-9_-]{0,31}$\<close>\<close>

definition validUsernameRE :: "string \<Rightarrow> bool" where
  "validUsernameRE s = (case s of
     [] \<Rightarrow> False
   | c # cs \<Rightarrow> (is_lower c \<or> c = CHR ''_'') \<and> length cs \<le> 31 \<and>
       list_all (\<lambda>d. is_lower d \<or> is_digit d \<or> d = CHR ''_'' \<or> d = CHR ''-'') cs)"

section \<open>Accounts\<close>

definition sysusers_conf :: "string \<Rightarrow> string" where
  "sysusers_conf adminUser = unlines
     [''u '' @ ServiceUser @ '' - '' @ [CHR 0x22] @ ''slfhst service user'' @ [CHR 0x22] @ '' '' @ ServiceHomeDir @ '' /usr/sbin/nologin'',
      ''u '' @ adminUser @ '' - '' @ [CHR 0x22] @ ''slfhst admin'' @ [CHR 0x22] @ '' /home/'' @ adminUser @ '' /bin/bash'',
      ''u root 0 '' @ [CHR 0x22] @ ''Super User'' @ [CHR 0x22] @ '' /root /bin/bash'',
      ''m '' @ adminUser @ '' wheel'']"

definition writeSysusersConf :: "string \<Rightarrow> string \<Rightarrow> unit go" where
  "writeSysusersConf root adminUser =
     (let path = Join [root, ''etc/sysusers.d/slfhst.conf''] in
      gbind (gwrap ''users: mkdir'' (os_MkdirAll (Dir path) 0x1ED)) (\<lambda>_.
      gwrap ''users: write'' (os_WriteFile path (sysusers_conf adminUser) 0x1A4)))"

definition cred_path :: "string \<Rightarrow> string \<Rightarrow> string" where
  "cred_path credDir adminUser = Join [credDir, ''passwd.plaintext-password.'' @ adminUser]"

definition runSysusers :: "string \<Rightarrow> string \<Rightarrow> string \<Rightarrow> unit go" where
  "runSysusers root adminUser password =
     gbind (gwrap ''users: create credentials dir'' (os_MkdirTemp ''slfhst-creds-'')) (\<lambda>credDir.
     gdefer (os_RemoveAll credDir)
       (gbind (gwrap ''users: write password credential'' (os_WriteFile (cred_path credDir adminUser) password 0x100)) (\<lambda>_.
        run_step ''users: systemd-sysusers'' [''systemd-sysusers'', ''--root='' @ root]
          (captured\<lparr>Env := [''CREDENTIALS_DIRECTORY='' @ credDir]\<rparr>))))"

definition SetRootPassword :: "string \<Rightarrow> string \<Rightarrow> unit go" where
  "SetRootPassword root password = run_step ''users: chpasswd --root'' [''chpasswd'', ''--root'', root]
     (captured\<lparr>Input := Some (''root:'' @ password @ [CHR 0x0A])\<rparr>)"

text \<open>The loop of \<open>lookupUser\<close> over the lines of \<open>etc/passwd\<close>. A line too long for the scanner ends it
  like the end of the file.\<close>

fun passwd_entry :: "string \<Rightarrow> string list \<Rightarrow> (gerr, int \<times> int) outcome" where
  "passwd_entry username [] = Err (Msg ''users: user not found'')"
| "passwd_entry username (l # ls) =
     (if 65536 \<le> length l then Err (Msg ''users: user not found'')
      else
      let fields = split_on (CHR '':'') (drop_cr l) in
      if length fields < 4 \<or> fields ! 0 \<noteq> username then passwd_entry username ls
      else (case (Atoi (fields ! 2), Atoi (fields ! 3)) of
          (Some uid, Some gid) \<Rightarrow> Ok (uid, gid)
        | _ \<Rightarrow> Err (Msg ''users: malformed passwd entry'')))"

definition lookupUser :: "string \<Rightarrow> string \<Rightarrow> (int \<times> int) go" where
  "lookupUser root username =
     gbind (gwrap ''users: open'' (os_ReadFile (Join [root, ''etc/passwd'']))) (\<lambda>data.
     of_outcome (passwd_entry username (raw_lines data)))"

section \<open>Ownership of a tree\<close>

text \<open>\<open>filepath.WalkDir\<close> visits a directory before what is in it and the entries of a directory in
  lexical order: the order of the paths by their components. It reads a directory right after
  visiting it, which may fail.\<close>

definition below :: "string \<Rightarrow> string \<Rightarrow> bool" where
  "below root p = (p = root \<or> has_prefix p (root @ ''/''))"

definition fs_walk :: "string \<Rightarrow> fs \<Rightarrow> string list" where
  "fs_walk root f = sort_key comps (remdups (filter (below root) (map fst f)))"

definition read_dir :: "string \<Rightarrow> unit go" where
  "read_dir p = gbind get_world (\<lambda>w.
     if is_dir (w_fs w) p then io_call (OpWalkDir p) (\<lambda>f. Ok ((), f)) else ret ())"

definition os_Lchown :: "string \<Rightarrow> owner \<Rightarrow> unit go" where
  "os_Lchown p own = io_upd (OpLchown p) (fs_chown p own)"

definition recursiveChown :: "string \<Rightarrow> owner \<Rightarrow> unit go" where
  "recursiveChown root own =
     gbind (os_Lstat root) (\<lambda>_.
     gbind get_world (\<lambda>w.
     gforeach (fs_walk root (w_fs w)) (\<lambda>p. gbind (os_Lchown p own) (\<lambda>_. read_dir p))))"

section \<open>Directories and keys\<close>

text \<open>Opening, writing and closing the key file are one call here, with one wrapper for its error.\<close>

definition writeAuthorizedKeys :: "string \<Rightarrow> string \<Rightarrow> owner \<Rightarrow> string \<Rightarrow> unit go" where
  "writeAuthorizedKeys root username own pubkey0 =
     (let pubkey = trim_space pubkey0; sshDir = Join [root, ''home'', username, ''.ssh''];
          akPath = Join [sshDir, ''authorized_keys''] in
      gbind (gwrap ''users: mkdir'' (os_MkdirAll sshDir 0x1C0)) (\<lambda>_.
      gbind (gtry (os_ReadFile akPath)) (\<lambda>res.
      let existing = (case res of Inl _ \<Rightarrow> [] | Inr data \<Rightarrow> data) in
      gbind (if contains existing pubkey then ret ()
             else gwrap ''users: open, write or close'' (os_AppendFile akPath (pubkey @ [CHR 0x0A]) 0x180)) (\<lambda>_.
      gbind (os_Chmod akPath 0x180) (\<lambda>_.
      gbind (gwrap ''users: chown'' (os_Chown sshDir own)) (\<lambda>_.
      gwrap ''users: chown'' (os_Chown akPath own)))))))"

definition ensureHomeDir :: "string \<Rightarrow> string \<Rightarrow> owner \<Rightarrow> unit go" where
  "ensureHomeDir root username own =
     (let home = Join [root, ''home'', username] in
      gbind (gwrap ''users: mkdir'' (os_MkdirAll home 0x1ED)) (\<lambda>_.
      gwrap ''users: chown'' (os_Chown home own)))"

definition ensureContainerStorageDir :: "string \<Rightarrow> owner \<Rightarrow> unit go" where
  "ensureContainerStorageDir root own =
     (let dir = Join [root, ''var/lib/containers''] in
      gbind (gwrap ''users: mkdir'' (os_MkdirAll dir 0x1ED)) (\<lambda>_. recursiveChown dir own))"

definition storage_conf :: "int \<Rightarrow> string" where
  "storage_conf svcUID = unlines
     [''[storage]'', ''driver = '' @ [CHR 0x22] @ ''overlay'' @ [CHR 0x22],
      ''graphroot = '' @ [CHR 0x22] @ ''/var/lib/containers/storage'' @ [CHR 0x22],
      ''runroot = '' @ [CHR 0x22] @ ''/run/user/'' @ show_int svcUID @ ''/containers'' @ [CHR 0x22]]"

definition writeRootlessStorageConf :: "string \<Rightarrow> owner \<Rightarrow> unit go" where
  "writeRootlessStorageConf root own =
     (let dir = Join [root, ''home'', ServiceUser, ''.config/containers'']; path = Join [dir, ''storage.conf''] in
      gbind (gwrap ''users: mkdir'' (os_MkdirAll dir 0x1ED)) (\<lambda>_.
      gbind (gwrap ''users: write'' (os_WriteFile path (storage_conf (fst own)) 0x1A4)) (\<lambda>_.
      recursiveChown (Join [root, ''home'', ServiceUser, ''.config'']) own)))"

definition enableLinger :: "string \<Rightarrow> unit go" where
  "enableLinger root =
     (let dir = Join [root, ''var/lib/systemd/linger''] in
      gbind (gwrap ''users: mkdir'' (os_MkdirAll dir 0x1ED)) (\<lambda>_.
      gwrap ''users: touch'' (os_Touch (Join [dir, ServiceUser]) 0x1A4)))"

definition chownDataDirs :: "string \<Rightarrow> owner \<Rightarrow> unit go" where
  "chownDataDirs root own = gforeach usersDataSubdirs (\<lambda>name.
     let dir = Join [root, DataDir, name] in
     gbind (gtry (os_Stat dir)) (\<lambda>res. if isl res then ret () else recursiveChown dir own))"

definition admin_name :: "cfg \<Rightarrow> string" where
  "admin_name cfg = (let u = cfg_str cfg ''admin_user'' in if u = [] then ''admin'' else u)"

definition Create :: "string \<Rightarrow> cfg \<Rightarrow> unit go" where
  "Create root cfg =
     (let adminUser = admin_name cfg; password = cfg_str cfg ''admin_password''; pubkey = cfg_str cfg ''admin_pubkey'' in
      if \<not> validUsernameRE adminUser then fail (Msg ''users: invalid admin_user'')
      else if password = [] then fail (Msg ''users: no admin_password in config.json'')
      else
        gbind (writeSysusersConf root adminUser) (\<lambda>_.
        gbind (runSysusers root adminUser password) (\<lambda>_.
        gbind (lookupUser root adminUser) (\<lambda>admin.
        gbind (lookupUser root ServiceUser) (\<lambda>svc.
        gbind (ensureHomeDir root adminUser admin) (\<lambda>_.
        gbind (ensureHomeDir root ServiceUser svc) (\<lambda>_.
        gbind (if pubkey \<noteq> [] then writeAuthorizedKeys root adminUser admin pubkey else ret ()) (\<lambda>_.
        gbind (ensureContainerStorageDir root svc) (\<lambda>_.
        gbind (writeRootlessStorageConf root svc) (\<lambda>_.
        gbind (enableLinger root) (\<lambda>_.
        gbind (SetRootPassword root password) (\<lambda>_.
        chownDataDirs root svc))))))))))))"

section \<open>Lemmas\<close>

fun with_owner :: "owner \<Rightarrow> node \<Rightarrow> node" where
  "with_owner own (NFile m _ c) = NFile m own c"
| "with_owner own (NDir m _) = NDir m own"
| "with_owner own (NLink t) = NLink t"

lemma with_owner_idem [simp]: "with_owner own (with_owner own n) = with_owner own n"
  by (cases n) auto

lemma fs_chown_Ok:
  "fs_chown p own f = Ok f' \<Longrightarrow> map_of f p \<noteq> None \<and> map_of f' = (\<lambda>q. if q = p then map_option (with_owner own) (map_of f q) else map_of f q)"
  by (auto simp: fs_chown_def fun_eq_iff split: option.splits node.splits)

lemma read_dir_fs: "read_dir p env w = Some (Ok x, w') \<Longrightarrow> w_fs w' = w_fs w"
  by (auto simp: read_dir_def gbind_def get_world_def io_call_Ok_iff ret_def split: if_splits)

lemma os_Lchown_fs:
  "os_Lchown p own env w = Some (Ok x, w') \<Longrightarrow>
   map_of (w_fs w') = (\<lambda>q. if q = p then map_option (with_owner own) (map_of (w_fs w) q) else map_of (w_fs w) q)"
  by (auto simp: os_Lchown_def io_upd_Ok_iff dest: fs_chown_Ok)

lemma chown_each:
  "gforeach ps (\<lambda>p. gbind (os_Lchown p own) (\<lambda>_. read_dir p)) env w = Some (Ok u, w') \<Longrightarrow>
   map_of (w_fs w') = (\<lambda>q. if q \<in> set ps then map_option (with_owner own) (map_of (w_fs w) q) else map_of (w_fs w) q)"
proof (induction ps arbitrary: w)
  case Nil
  then show ?case by (simp add: ret_def)
next
  case (Cons p ps)
  then obtain w1 w2 where s: "os_Lchown p own env w = Some (Ok (), w1)" "read_dir p env w1 = Some (Ok (), w2)"
    "gforeach ps (\<lambda>p. gbind (os_Lchown p own) (\<lambda>_. read_dir p)) env w2 = Some (Ok u, w')"
    by (auto simp: gbind_eq_Ok)
  have "map_of (w_fs w') q = (if q \<in> set (p # ps) then map_option (with_owner own) (map_of (w_fs w) q) else map_of (w_fs w) q)" for q
    using Cons.IH[OF s(3)] by (cases "map_of (w_fs w) q") (auto simp: read_dir_fs[OF s(2)] os_Lchown_fs[OF s(1)])
  then show ?case by blast
qed

lemma set_fs_walk: "set (fs_walk root f) = {p \<in> dom (map_of f). below root p}"
  by (auto simp: fs_walk_def dom_map_of_conv_image_fst)

lemma no_cmd_users [intro!, no_cmds]:
  "keeps no_cmd (writeSysusersConf root u)" "keeps no_cmd (lookupUser root u)" "keeps no_cmd (ensureHomeDir root u own)"
  "keeps no_cmd (writeAuthorizedKeys root u own k)" "keeps no_cmd (enableLinger root)"
  by (auto simp: writeSysusersConf_def lookupUser_def ensureHomeDir_def writeAuthorizedKeys_def enableLinger_def Let_def)

lemma no_cmd_chown [intro!, no_cmds]: "keeps no_cmd (recursiveChown d own)"
  unfolding recursiveChown_def read_dir_def os_Lchown_def by auto

lemma no_cmd_trees [intro!, no_cmds]:
  "keeps no_cmd (ensureContainerStorageDir root own)" "keeps no_cmd (writeRootlessStorageConf root own)" "keeps no_cmd (chownDataDirs root own)"
  by (auto simp: ensureContainerStorageDir_def writeRootlessStorageConf_def chownDataDirs_def Let_def)

section \<open>Properties\<close>



lemma fs_remove_all_below: "below d p \<Longrightarrow> map_of (fs_remove_all d f) p = None"
  by (auto simp: fs_remove_all_def below_def map_of_eq_None_iff)

lemma gdefer_run:
  assumes "m env w = Some (r, w1)" "d env w1 = Some (Ok (), w2)"
  shows "gdefer d m env w = Some (r, w2)"
  using assms by (simp add: gdefer_def)

lemma os_RemoveAll_run:
  assumes "\<forall>tr f. e_io env tr f (OpRemoveAll d) = None"
  shows "os_RemoveAll d env w = Some (Ok (), w\<lparr>w_trace := w_trace w @ [EIo (OpRemoveAll d)], w_fs := fs_remove_all d (w_fs w)\<rparr>)"
  using assms by (simp add: os_RemoveAll_def io_call_def Let_def)




lemma os_Chown_owner: "os_Chown p own env w = Some (Ok x, w') \<Longrightarrow>
   map_of (w_fs w') = (\<lambda>q. if q = p then map_option (with_owner own) (map_of (w_fs w) q) else map_of (w_fs w) q)"
  by (auto simp: os_Chown_def io_upd_Ok_iff dest: fs_chown_Ok)

lemma os_Chmod_file: "os_Chmod p m env w = Some (Ok x, w') \<Longrightarrow> map_of (w_fs w) p = Some (NFile m0 own c) \<Longrightarrow>
   map_of (w_fs w') p = Some (NFile m own c)"
  by (auto simp: os_Chmod_def io_upd_Ok_iff fs_chmod_Ok_file)

lemma os_ReadFile_try:
  "gtry (os_ReadFile p) env w = Some (Ok res, w') \<Longrightarrow> w_fs w' = w_fs w \<and> (\<forall>data. res = Inr data \<longrightarrow> file_at (w_fs w) p = Some data)"
  by (auto simp: os_ReadFile_def gtry_def io_call_def fs_read_def file_at_def Let_def
    split: option.splits prod.splits outcome.splits node.splits if_splits)

text \<open>The key file after reading it and appending the key if it is missing.\<close>

lemma append_key:
  assumes "gtry (os_ReadFile p) env w = Some (Ok res, w1)" and "key \<noteq> []"
    and "(if contains (case res of Inl _ \<Rightarrow> [] | Inr data \<Rightarrow> data) key then ret ()
          else gwrap msg (os_AppendFile p (key @ [CHR 0x0A]) 0x180)) env w1 = Some (Ok (), w2)"
  shows "\<exists>m own t more. map_of (w_fs w2) p = Some (NFile m own t) \<and> contains t key \<and>
     t = (case file_at (w_fs w) p of Some old \<Rightarrow> old | None \<Rightarrow> []) @ more"
proof (cases "contains (case res of Inl _ \<Rightarrow> [] | Inr data \<Rightarrow> data) key")
  case True
  then obtain data where d: "res = Inr data" "contains data key" using assms(2) by (cases res) auto
  then have "file_at (w_fs w) p = Some data" using os_ReadFile_try[OF assms(1)] by blast
  moreover have "w_fs w2 = w_fs w" using assms(3) True os_ReadFile_try[OF assms(1)] by (simp add: ret_def)
  ultimately show ?thesis using d by (auto simp: file_at_def split: option.splits node.splits)
next
  case False
  then have "fs_put p 0x180 (\<lambda>old. old @ key @ [CHR 0x0A]) (w_fs w) = Ok (w_fs w2)"
    using assms(3) os_ReadFile_try[OF assms(1)] by (auto simp: gwrap_eq_Ok os_AppendFile_def io_upd_Ok_iff)
  moreover have "contains (old @ key @ [CHR 0x0A]) key" for old by (auto simp: contains_iff)
  moreover have "contains (key @ [CHR 0x0A]) key" unfolding contains_iff by (metis append_Nil)
  ultimately show ?thesis by (auto simp: fs_put_Ok file_at_def)
qed

text \<open>C33: When \<open>writeAuthorizedKeys\<close> succeeds, the account's \<open>authorized_keys\<close> belongs to the account, has
  mode 0600 and contains the trimmed key; what it held before is still there in front.\<close>

theorem authorized_keys_written:
  assumes "writeAuthorizedKeys root u own key env w = Some (Ok (), w')" and "trim_space key \<noteq> []"
  shows "\<exists>t more. map_of (w_fs w') (Join [Join [root, ''home'', u, ''.ssh''], ''authorized_keys'']) = Some (NFile 0x180 own t) \<and>
     contains t (trim_space key) \<and>
     t = (case file_at (w_fs w) (Join [Join [root, ''home'', u, ''.ssh''], ''authorized_keys'']) of Some old \<Rightarrow> old | None \<Rightarrow> []) @ more"
proof -
  let ?d = "Join [root, ''home'', u, ''.ssh'']"
  let ?p = "Join [?d, ''authorized_keys'']"
  obtain w1 w2 w3 w4 w5 res where s: "os_MkdirAll ?d 0x1C0 env w = Some (Ok (), w1)" "gtry (os_ReadFile ?p) env w1 = Some (Ok res, w2)"
    "(if contains (case res of Inl _ \<Rightarrow> [] | Inr data \<Rightarrow> data) (trim_space key) then ret ()
      else gwrap ''users: open, write or close'' (os_AppendFile ?p (trim_space key @ [CHR 0x0A]) 0x180)) env w2 = Some (Ok (), w3)"
    "os_Chmod ?p 0x180 env w3 = Some (Ok (), w4)" "os_Chown ?d own env w4 = Some (Ok (), w5)" "os_Chown ?p own env w5 = Some (Ok (), w')"
    using assms(1) unfolding writeAuthorizedKeys_def Let_def gbind_eq_Ok gwrap_eq_Ok by auto
  obtain m o1 t more where t: "map_of (w_fs w3) ?p = Some (NFile m o1 t)" "contains t (trim_space key)"
    "t = (case file_at (w_fs w1) ?p of Some old \<Rightarrow> old | None \<Rightarrow> []) @ more"
    using append_key[OF s(2) assms(2) s(3)] by blast
  have "\<exists>o2. map_of (w_fs w5) ?p = Some (NFile 0x180 o2 t)"
    using os_Chmod_file[OF s(4) t(1)] os_Chown_owner[OF s(5)] by auto
  then have "map_of (w_fs w') ?p = Some (NFile 0x180 own t)" using os_Chown_owner[OF s(6)] by auto
  then show ?thesis using t(2,3) os_MkdirAll_files[OF s(1)] by auto
qed

lemma ak_demo_paths:
  "Join [''/m'', ''home'', ''admin'', ''.ssh''] = ''/m/home/admin/.ssh''"
  "Join [''/m/home/admin/.ssh'', ''authorized_keys''] = ''/m/home/admin/.ssh/authorized_keys''"
  by (simp_all add: Join_def Clean_def is_abs_def comps_def clean_comps_def abs_path_def)

definition ak_world :: "string \<Rightarrow> world" where
  "ak_world old = empty_world\<lparr>w_fs := [(''/m'', NDir 0 (0, 0)), (''/m/home'', NDir 0 (0, 0)), (''/m/home/admin'', NDir 0 (0, 0)),
     (''/m/home/admin/.ssh'', NDir 0 (0, 0)), (''/m/home/admin/.ssh/authorized_keys'', NFile 0 (0, 0) old)]\<rparr>"

lemma ak_run:
  "\<exists>w'. writeAuthorizedKeys ''/m'' ''admin'' (7, 8) ''ssh-rsa K'' quiet_env (ak_world old) = Some (Ok (), w') \<and>
     file_at (w_fs w') ''/m/home/admin/.ssh/authorized_keys'' =
       Some (if contains old ''ssh-rsa K'' then old else old @ ''ssh-rsa K'' @ [CHR 0x0A])"
proof -
  have t: "trim_space ''ssh-rsa K'' = ''ssh-rsa K''" by (simp add: trim_space_def is_space_def)
  have p: "path_prefixes ''/m/home/admin/.ssh'' = [''/m'', ''/m/home'', ''/m/home/admin'', ''/m/home/admin/.ssh'']"
    by (simp add: path_prefixes_def comps_def abs_path_def)
  show ?thesis
    by (simp add: writeAuthorizedKeys_def t ak_demo_paths Let_def gbind_def gwrap_def gtry_def os_MkdirAll_def os_ReadFile_def p quiet_io
      os_AppendFile_def os_Chmod_def os_Chown_def fs_read_def fs_put_def fs_chmod_def fs_chown_def ak_world_def empty_world_def ret_def file_at_def)
qed

theorem authorized_keys_written_witness:
  "\<exists>w' t. writeAuthorizedKeys ''/m'' ''admin'' (7, 8) ''ssh-rsa K'' quiet_env (ak_world ''x'') = Some (Ok (), w') \<and>
     map_of (w_fs w') ''/m/home/admin/.ssh/authorized_keys'' = Some (NFile 0x180 (7, 8) t) \<and> contains t ''ssh-rsa K''"
proof -
  obtain w' where r: "writeAuthorizedKeys ''/m'' ''admin'' (7, 8) ''ssh-rsa K'' quiet_env (ak_world ''x'') = Some (Ok (), w')"
    using ak_run by blast
  have t: "trim_space ''ssh-rsa K'' = ''ssh-rsa K''" by (simp add: trim_space_def is_space_def)
  show ?thesis using authorized_keys_written[OF r] r unfolding t ak_demo_paths by auto
qed

text \<open>A key that is in the file only as part of a comment counts as present: it is not added.\<close>

theorem commented_key_not_added:
  "\<exists>w'. writeAuthorizedKeys ''/m'' ''admin'' (7, 8) ''ssh-rsa K'' quiet_env (ak_world (CHR 0x23 # ''ssh-rsa K'')) = Some (Ok (), w') \<and>
     file_at (w_fs w') ''/m/home/admin/.ssh/authorized_keys'' = Some (CHR 0x23 # ''ssh-rsa K'')"
  using ak_run[of "CHR 0x23 # ''ssh-rsa K''"] by simp

text \<open>The name of the service account is a valid administrator name; the account is then put into the
  group \<open>wheel\<close>.\<close>

theorem service_account_can_be_admin:
  "validUsernameRE ServiceUser \<and> contains (sysusers_conf ServiceUser) ''m svc wheel''"
proof -
  have "contains (concat (map (\<lambda>l. l @ [CHR 0x0A]) ls) @ ''m svc wheel'' @ [CHR 0x0A]) ''m svc wheel''" for ls
    unfolding contains_iff by blast
  from this[of "butlast (map (\<lambda>x. x) _)"] show ?thesis
    by (simp add: validUsernameRE_def ServiceUser_def is_lower_def less_eq_char_def sysusers_conf_def unlines_def ServiceHomeDir_def)
qed

text \<open>A successful run of \<open>Create\<close> has started two commands, neither with the password among its arguments.\<close>

lemma runSysusers_commands:
  assumes "runSysusers root u pw env w = Some (Ok (), w')"
  shows "commands w' = commands w @ [[''systemd-sysusers'', ''--root='' @ root]]"
proof -
  obtain d w1 where t: "os_MkdirTemp ''slfhst-creds-'' env w = Some (Ok d, w1)"
    and g: "gdefer (os_RemoveAll d) (gbind (gwrap ''users: write password credential'' (os_WriteFile (cred_path d u) pw 0x100)) (\<lambda>_.
        run_step ''users: systemd-sysusers'' [''systemd-sysusers'', ''--root='' @ root]
          (captured\<lparr>Env := [''CREDENTIALS_DIRECTORY='' @ d]\<rparr>))) env w1 = Some (Ok (), w')"
    using assms unfolding runSysusers_def gbind_eq_Ok gwrap_eq_Ok by blast
  from g obtain w2 w3 q where s: "os_WriteFile (cred_path d u) pw 0x100 env w1 = Some (Ok (), w2)"
    "run_step ''users: systemd-sysusers'' [''systemd-sysusers'', ''--root='' @ root]
          (captured\<lparr>Env := [''CREDENTIALS_DIRECTORY='' @ d]\<rparr>) env w2 = Some (Ok (), w3)"
    "os_RemoveAll d env w3 = Some (q, w')"
    by (auto simp: gdefer_def gbind_eq_Ok gwrap_eq_Ok split: option.splits prod.splits outcome.splits)
  have "commands w1 = commands w" by (rule no_cmdD[OF no_cmd_temp t])
  moreover have "commands w2 = commands w1" by (rule no_cmdD[OF no_cmd_files(2) s(1)])
  moreover have "commands w' = commands w3" by (rule no_cmdD[OF no_cmd_files(9) s(3)])
  ultimately show ?thesis using run_step_commands[OF s(2)] by (simp add: buildArgv_def no_options_def)
qed

lemma Create_commands:
  assumes "Create root cfg env w = Some (Ok (), w')"
  shows "commands w' = commands w @ [[''systemd-sysusers'', ''--root='' @ root], [''chpasswd'', ''--root'', root]]"
proof -
  let ?u = "admin_name cfg" and ?pw = "cfg_str cfg ''admin_password''" and ?key = "cfg_str cfg ''admin_pubkey''"
  have g: "validUsernameRE ?u" "?pw \<noteq> []" using assms by (auto simp: Create_def Let_def fail_def split: if_splits)
  obtain w1 w2 w3 w4 w5 w6 w7 w8 w9 w10 w11 admin svc where s: "writeSysusersConf root ?u env w = Some (Ok (), w1)"
    "runSysusers root ?u ?pw env w1 = Some (Ok (), w2)" "lookupUser root ?u env w2 = Some (Ok admin, w3)"
    "lookupUser root ServiceUser env w3 = Some (Ok svc, w4)" "ensureHomeDir root ?u admin env w4 = Some (Ok (), w5)"
    "ensureHomeDir root ServiceUser svc env w5 = Some (Ok (), w6)"
    "(if ?key \<noteq> [] then writeAuthorizedKeys root ?u admin ?key else ret ()) env w6 = Some (Ok (), w7)"
    "ensureContainerStorageDir root svc env w7 = Some (Ok (), w8)" "writeRootlessStorageConf root svc env w8 = Some (Ok (), w9)"
    "enableLinger root env w9 = Some (Ok (), w10)" "SetRootPassword root ?pw env w10 = Some (Ok (), w11)"
    "chownDataDirs root svc env w11 = Some (Ok (), w')"
    using assms g unfolding Create_def Let_def by (auto simp: gbind_eq_Ok)
  have "commands w7 = commands w6" using s(7) no_cmdD[OF no_cmd_users(4)] by (auto simp: ret_def split: if_splits)
  moreover have "commands w1 = commands w" "commands w3 = commands w2" "commands w4 = commands w3" "commands w5 = commands w4"
    "commands w6 = commands w5" "commands w10 = commands w9"
    using no_cmdD[OF no_cmd_users(1) s(1)] no_cmdD[OF no_cmd_users(2) s(3)] no_cmdD[OF no_cmd_users(2) s(4)]
      no_cmdD[OF no_cmd_users(3) s(5)] no_cmdD[OF no_cmd_users(3) s(6)] no_cmdD[OF no_cmd_users(5) s(10)] by auto
  moreover have "commands w8 = commands w7" "commands w9 = commands w8" "commands w' = commands w11"
    using no_cmdD[OF no_cmd_trees(1) s(8)] no_cmdD[OF no_cmd_trees(2) s(9)] no_cmdD[OF no_cmd_trees(3) s(12)] by auto
  moreover have "commands w11 = commands w10 @ [[''chpasswd'', ''--root'', root]]"
    using run_step_commands[OF s(11)[unfolded SetRootPassword_def]] by (simp add: buildArgv_def no_options_def)
  ultimately show ?thesis using runSysusers_commands[OF s(2)] by simp
qed

end
