(* ===== verification/Wizard.thy ===== *)
theory Wizard
  imports Commands
begin

text \<open>
  \<^verbatim>\<open>internal/wizard/wizard.go\<close>: the questions of the installer and of \<open>slfhst setup\<close>, and the
  configuration they leave behind.
\<close>

section \<open>Checks on the answers\<close>

text \<open>What \<^verbatim>\<open>\s\<close> matches: tab, newline, form feed, carriage return and space.\<close>

definition re_space :: "char \<Rightarrow> bool" where
  "re_space c = (c \<in> set [CHR 0x09, CHR 0x0A, CHR 0x0C, CHR 0x0D, CHR 0x20])"

definition starts_nonspace :: "string \<Rightarrow> bool" where
  "starts_nonspace s = (case s of [] \<Rightarrow> False | c # _ \<Rightarrow> \<not> re_space c)"

text \<open>\<^verbatim>\<open>^(ssh-ed25519|ssh-rsa|ecdsa-sha2-\S+) \S+\<close>\<close>

definition validPubkeyRE :: "string \<Rightarrow> bool" where
  "validPubkeyRE s =
     ((has_prefix s ''ssh-ed25519 '' \<and> starts_nonspace (drop 12 s)) \<or>
      (has_prefix s ''ssh-rsa '' \<and> starts_nonspace (drop 8 s)) \<or>
      (has_prefix s ''ecdsa-sha2-'' \<and> starts_nonspace (drop 11 s) \<and>
        (case dropWhile (\<lambda>c. \<not> re_space c) (drop 11 s) of
           CHR 0x20 # r \<Rightarrow> starts_nonspace r
         | _ \<Rightarrow> False)))"

text \<open>\<^verbatim>\<open>^[^@\s]+@[^@\s]+\.[^@\s]+$\<close>: the part after the \<open>@\<close> has a dot that is neither first nor last.\<close>

definition validEmailRE :: "string \<Rightarrow> bool" where
  "validEmailRE s = (\<not> list_ex re_space s \<and> (case split_on (CHR 0x40) s of
     [l, d] \<Rightarrow> l \<noteq> [] \<and> 3 \<le> length d \<and> CHR ''.'' \<in> set (tl (butlast d))
   | _ \<Rightarrow> False))"

definition re_lower :: "char \<Rightarrow> bool" where
  "re_lower c = (CHR ''a'' \<le> c \<and> c \<le> CHR ''z'')"

text \<open>\<^verbatim>\<open>^([a-z0-9-]+\.)+[a-z]{2,}$\<close>\<close>

definition validDomainRE :: "string \<Rightarrow> bool" where
  "validDomainRE s = (let ls = split_on (CHR ''.'') s in
     2 \<le> length ls \<and> list_all (\<lambda>l. l \<noteq> [] \<and> list_all (\<lambda>c. re_lower c \<or> is_digit c \<or> c = CHR ''-'') l) (butlast ls) \<and>
     2 \<le> length (last ls) \<and> list_all re_lower (last ls))"

definition secretKeys :: "string list" where
  "secretKeys = [''vaultwarden_admin_token'', ''postgres_password'', ''garage_rpc_secret'', ''garage_admin_token'', ''stalwart_admin_password'']"

definition fileSecretKeys :: "string list" where
  "fileSecretKeys = [''ente_encryption_key'', ''ente_encryption_hash_key'', ''ente_jwt_secret'']"

section \<open>Asking until it fits\<close>

text \<open>Every round reads a line of console input, so both loops end.\<close>

lemma read_string_consumes: "read_string env w = Some (Ok l, w') \<Longrightarrow> length (w_stdin w') < length (w_stdin w)"
  by (auto simp: read_string_def split: option.splits dest!: read_line_shorter)

lemma set_echo_stdin: "set_echo b env w = Some (r, w') \<Longrightarrow> w_stdin w' = w_stdin w"
  by (auto simp: set_echo_def Let_def split: if_splits)

lemma AskSecret_consumes:
  assumes "AskSecret lab env w = Some (Ok v, w')"
  shows "length (w_stdin w') < length (w_stdin w)"
proof -
  let ?body = "gbind (gtry read_string) (\<lambda>res. gbind (println []) (\<lambda>_.
        case res of Inl err \<Rightarrow> fail (Wrap ''prompt: read secret'' err) | Inr line \<Rightarrow> ret (trimNewline line)))"
  obtain old w1 w2 w3 where s: "println (lab @ '': '') env w = Some (Ok (), w1)" "get_echo env w1 = Some (Ok old, w2)"
    "set_echo False env w2 = Some (Ok (), w3)" and g: "gdefer (set_echo old) ?body env w3 = Some (Ok v, w')"
    using assms unfolding AskSecret_def gbind_eq_Ok gwrap_eq_Ok by auto
  obtain w4 q where b: "?body env w3 = Some (Ok v, w4)" "set_echo old env w4 = Some (q, w')"
    using g by (auto simp: gdefer_def split: option.splits prod.splits outcome.splits)
  from b(1) obtain res w5 w6 where r: "gtry read_string env w3 = Some (Ok res, w5)" "println [] env w5 = Some (Ok (), w6)"
    "(case res of Inl err \<Rightarrow> fail (Wrap ''prompt: read secret'' err) | Inr line \<Rightarrow> ret (trimNewline line)) env w6 = Some (Ok v, w4)"
    unfolding gbind_eq_Ok by auto
  then obtain line where "read_string env w3 = Some (Ok line, w5)" "w4 = w6"
    by (cases res) (auto simp: gtry_def fail_def ret_def split: option.splits prod.splits outcome.splits)
  then have "length (w_stdin w5) < length (w_stdin w3)" "w4 = w6" using read_string_consumes by auto
  moreover have "w_stdin w1 = w_stdin w" "w_stdin w2 = w_stdin w1" "w_stdin w6 = w_stdin w5"
    using s r(2) by (auto simp: print_item_def get_echo_def split: if_splits)
  ultimately show ?thesis using set_echo_stdin[OF s(3)] set_echo_stdin[OF b(2)] by simp
qed

function ask_token :: "env \<Rightarrow> world \<Rightarrow> ((gerr, string) outcome \<times> world) option" where
  "ask_token env w = (case AskSecret ''Cloudflare API token'' env w of
     Some (Ok v, w') \<Rightarrow> if v = [] then ask_token env w' else Some (Ok v, w')
   | other \<Rightarrow> other)"
  by pat_completeness auto
termination
  by (relation "measure (\<lambda>(env, w). length (w_stdin w))") (auto dest: AskSecret_consumes)

function askPassword :: "env \<Rightarrow> world \<Rightarrow> ((gerr, string) outcome \<times> world) option" where
  "askPassword env w = (case AskSecret ''Password'' env w of
     Some (Ok password, w1) \<Rightarrow>
       if password = [] then
         gbind (GenSecret 12) (\<lambda>generated.
         gbind (println (''Generated admin password (write this down, shown once): '' @ generated)) (\<lambda>_.
         ret generated)) env w1
       else (case AskSecret ''Confirm'' env w1 of
         Some (Ok confirm, w2) \<Rightarrow>
           if confirm = password then Some (Ok password, w2)
           else askPassword env (w2\<lparr>w_console := w_console w2 @ [OText ''passwords didn't match, try again'']\<rparr>)
       | other \<Rightarrow> other)
   | other \<Rightarrow> other)"
  by pat_completeness auto
termination
  by (relation "measure (\<lambda>(env, w). length (w_stdin w))") (auto dest!: AskSecret_consumes)

declare ask_token.simps [simp del] askPassword.simps [simp del]

section \<open>The two interviews\<close>

definition writeHostname :: "string \<Rightarrow> string \<Rightarrow> unit go" where
  "writeHostname root hostname =
     (let path = Join [root, ''etc/hostname''] in
      gbind (gwrap ''wizard: mkdir'' (os_MkdirAll (Dir path) 0x1ED)) (\<lambda>_.
      gwrap ''wizard: write'' (os_WriteFile path (hostname @ [CHR 0x0A]) 0x1A4)))"

definition RunPreBoot :: "store \<Rightarrow> cfg go" where
  "RunPreBoot s =
     gbind (Banner ''slfhst installer setup'') (\<lambda>_.
     gbind (Ask ''Hostname (short, e.g. box1)'' plain_ask) (\<lambda>hostname.
     gbind (Ask ''Admin username'' (plain_ask\<lparr>Default := ''admin''\<rparr>)) (\<lambda>adminUser.
     gbind (Ask ''Admin SSH public key (paste the full line, blank to skip)''
       (plain_ask\<lparr>Optional := True, Validate := Some validPubkeyRE\<rparr>)) (\<lambda>pubkey.
     gbind (println []) (\<lambda>_.
     gbind (println ''Admin account password (used to SSH in after reboot).'') (\<lambda>_.
     gbind (println ''Blank = auto-generate and print once.'') (\<lambda>_.
     gbind askPassword (\<lambda>adminPassword.
     gbind (Load s) (\<lambda>cfg0.
     gbind (cfg_merge [(''hostname'', JStr hostname), (''admin_user'', JStr adminUser), (''admin_pubkey'', JStr pubkey),
       (''admin_password'', JStr adminPassword)] cfg0) (\<lambda>cfg.
     gbind (Save s cfg) (\<lambda>_.
     gbind (writeHostname (Root s) hostname) (\<lambda>_.
     gbind (Banner ''Setup captured.'') (\<lambda>_.
     ret cfg)))))))))))))"

definition spaced :: "string \<Rightarrow> string" where
  "spaced key = map (\<lambda>c. if c = CHR ''_'' then CHR '' '' else c) key"

definition ask_secret_key :: "string \<Rightarrow> cfg \<Rightarrow> cfg go" where
  "ask_secret_key key cfg =
     gbind (Ask (spaced key @ '' (blank = auto-generate)'') (plain_ask\<lparr>Optional := True\<rparr>)) (\<lambda>v.
     gbind (if v = [] then GenSecret 0 else ret v) (\<lambda>v'.
     cfg_set key (JStr v') cfg))"

definition file_secret_key :: "string \<Rightarrow> cfg \<Rightarrow> cfg go" where
  "file_secret_key key cfg =
     (if cfg_has cfg key then ret cfg else gbind (GenSecret 0) (\<lambda>v. cfg_set key (JStr v) cfg))"

definition RunPostBoot :: "store \<Rightarrow> cfg go" where
  "RunPostBoot s =
     gbind (Load s) (\<lambda>cfg0.
     if cfg_str cfg0 ''domain'' \<noteq> [] then ret cfg0
     else
       gbind (Banner ''slfhst setup'') (\<lambda>_.
       gbind (Ask ''Domain (must already be on Cloudflare)'' (plain_ask\<lparr>Validate := Some validDomainRE\<rparr>)) (\<lambda>domain.
       gbind (Ask ''Email address for alerts (delivered via this box's own mail server)''
         (plain_ask\<lparr>Validate := Some validEmailRE\<rparr>)) (\<lambda>alertEmail.
       gbind (println []) (\<lambda>_.
       gbind (println ''Cloudflare API token (Zone:DNS Edit scope for the domain above).'') (\<lambda>_.
       gbind (println ''Input is hidden.'') (\<lambda>_.
       gbind ask_token (\<lambda>cfToken.
       gbind (cfg_merge [(''domain'', JStr domain), (''alert_email'', JStr alertEmail), (''cloudflare_api_token'', JStr cfToken)] cfg0) (\<lambda>cfg1.
       gbind (println []) (\<lambda>_.
       gbind (println ''Per-service secrets: leave blank to auto-generate (recommended).'') (\<lambda>_.
       gbind (gfold secretKeys ask_secret_key cfg1) (\<lambda>cfg2.
       gbind (gfold fileSecretKeys file_secret_key cfg2) (\<lambda>cfg.
       gbind (Save s cfg) (\<lambda>_.
       gbind (Banner ''Setup captured.'') (\<lambda>_.
       ret cfg)))))))))))))))"

section \<open>Lemmas\<close>

abbreviation lookup :: "cfg \<Rightarrow> string \<Rightarrow> json option" where
  "lookup cfg \<equiv> map_of (cfg_entries cfg)"

lemma ask_token_nonempty: "ask_token env w = Some (Ok v, w') \<Longrightarrow> v \<noteq> []"
proof (induction env w rule: ask_token.induct)
  case (1 env w)
  show ?case
  proof (cases "AskSecret ''Cloudflare API token'' env w")
    case None
    then show ?thesis using 1(2) by (simp add: ask_token.simps[of env w])
  next
    case (Some q)
    obtain r w1 where q: "q = (r, w1)" by (cases q)
    show ?thesis
    proof (cases r)
      case (Ok t)
      then show ?thesis using 1(1)[OF Some q[symmetric] Ok] 1(2) Some q
        by (cases "t = []") (auto simp: ask_token.simps[of env w])
    qed (use 1(2) Some q in \<open>auto simp: ask_token.simps[of env w]\<close>)
  qed
qed

lemma GenSecret_Ok: "GenSecret 0 env w = Some (Ok t, w') \<Longrightarrow> t \<noteq> []"
  by (auto simp: GenSecret_def gbind_eq_Ok gwrap_eq_Ok ret_def rand_Read_def Let_def split: option.splits
    dest!: arg_cong[where f = length] simp: length_b64_encode)

lemma cfg_set_Ok: "cfg_set k v cfg env w = Some (Ok cfg', w') \<Longrightarrow> lookup cfg' = (lookup cfg)(k \<mapsto> v) \<and> w' = w"
  by (cases cfg) (auto simp: cfg_set_def panic_def ret_def)

lemma cfg_merge_Ok: "cfg_merge kvs cfg env w = Some (Ok cfg', w') \<Longrightarrow> lookup cfg' = foldl (\<lambda>m (k, v). m(k \<mapsto> v)) (lookup cfg) kvs \<and> w' = w"
proof (induction kvs cfg arbitrary: w rule: cfg_merge.induct)
  case (2 k v kvs cfg)
  then obtain c1 w1 where "cfg_set k v cfg env w = Some (Ok c1, w1)" "cfg_merge kvs c1 env w1 = Some (Ok cfg', w')"
    by (auto simp: gbind_eq_Ok)
  then show ?case using 2(1)[of c1 w1] cfg_set_Ok[of k v cfg env w c1 w1] by auto
qed (simp add: ret_def)

lemma ask_secret_key_Ok:
  assumes "ask_secret_key key cfg env w = Some (Ok cfg', w')"
  shows "\<exists>v. v \<noteq> [] \<and> lookup cfg' = (lookup cfg)(key \<mapsto> JStr v)"
proof -
  obtain v v' w1 w2 where s: "(if v = [] then GenSecret 0 else ret v) env w1 = Some (Ok v', w2)" "cfg_set key (JStr v') cfg env w2 = Some (Ok cfg', w')"
    using assms by (auto simp: ask_secret_key_def gbind_eq_Ok)
  have "v' \<noteq> []" using s(1) by (auto simp: ret_def dest: GenSecret_Ok split: if_splits)
  then show ?thesis using cfg_set_Ok[OF s(2)] by auto
qed

lemma file_secret_key_Ok:
  assumes "file_secret_key key cfg env w = Some (Ok cfg', w')"
  shows "cfg_has cfg' key \<and> (\<forall>k. k \<noteq> key \<or> cfg_has cfg k \<longrightarrow> lookup cfg' k = lookup cfg k)"
proof (cases "cfg_has cfg key")
  case True
  then show ?thesis using assms by (simp add: file_secret_key_def ret_def)
next
  case False
  then obtain v w1 where "cfg_set key (JStr v) cfg env w1 = Some (Ok cfg', w')"
    using assms by (auto simp: file_secret_key_def gbind_eq_Ok)
  then show ?thesis using False cfg_set_Ok[of key "JStr v" cfg env w1 cfg' w'] by (auto simp: cfg_has_def)
qed

lemma secretKeys_Ok:
  "gfold ks ask_secret_key cfg env w = Some (Ok cfg', w') \<Longrightarrow>
   (\<forall>k\<in>set ks. cfg_str cfg' k \<noteq> []) \<and> (\<forall>k. k \<notin> set ks \<longrightarrow> lookup cfg' k = lookup cfg k)"
proof (induction ks arbitrary: cfg w)
  case (Cons k ks)
  then obtain c1 w1 where s: "ask_secret_key k cfg env w = Some (Ok c1, w1)" "gfold ks ask_secret_key c1 env w1 = Some (Ok cfg', w')"
    by (auto simp: gbind_eq_Ok)
  obtain v where "v \<noteq> []" "lookup c1 = (lookup cfg)(k \<mapsto> JStr v)" using ask_secret_key_Ok[OF s(1)] by blast
  then show ?case using Cons.IH[OF s(2)] by (cases "k \<in> set ks") (auto simp: cfg_str_def)
qed (simp add: ret_def)

lemma fileSecretKeys_Ok:
  "gfold ks file_secret_key cfg env w = Some (Ok cfg', w') \<Longrightarrow>
   (\<forall>k\<in>set ks. cfg_has cfg' k) \<and> (\<forall>k. k \<notin> set ks \<or> cfg_has cfg k \<longrightarrow> lookup cfg' k = lookup cfg k)"
proof (induction ks arbitrary: cfg w)
  case (Cons k ks)
  then obtain c1 w1 where s: "file_secret_key k cfg env w = Some (Ok c1, w1)" "gfold ks file_secret_key c1 env w1 = Some (Ok cfg', w')"
    by (auto simp: gbind_eq_Ok)
  note a = file_secret_key_Ok[OF s(1)] and b = Cons.IH[OF s(2)]
  have "cfg_has c1 q" if "cfg_has cfg q" for q using a that by (auto simp: cfg_has_def)
  moreover have "cfg_has cfg' k" using a b by (metis cfg_has_def)
  moreover have "lookup cfg' q = lookup cfg q" if q: "q \<notin> set (k # ks) \<or> cfg_has cfg q" for q
  proof -
    have "lookup c1 q = lookup cfg q" using a q by (metis list.set_intros(1))
    moreover have "q \<notin> set ks \<or> cfg_has c1 q" using q a by (metis cfg_has_def list.set_intros(2))
    ultimately show ?thesis using b by metis
  qed
  ultimately show ?case using b by auto
qed (simp add: ret_def)

section \<open>Properties\<close>

text \<open>The entries the later steps of the setup read as strings.\<close>

definition cfg_ready :: "cfg \<Rightarrow> bool" where
  "cfg_ready cfg = (validDomainRE (cfg_str cfg ''domain'') \<and> validEmailRE (cfg_str cfg ''alert_email'') \<and>
     cfg_str cfg ''cloudflare_api_token'' \<noteq> [] \<and> list_all (\<lambda>k. cfg_str cfg k \<noteq> []) secretKeys \<and>
     list_all (cfg_has cfg) fileSecretKeys)"


text \<open>A concrete interview.\<close>

definition same_io :: "world \<Rightarrow> world \<Rightarrow> bool" where
  "same_io w w' = (w_stdin w' = w_stdin w \<and> w_fs w' = w_fs w)"

lemma Ask_line:
  assumes "read_line (w_stdin w) = Some (l, r)" "ask_verdict opts l = Answer v"
  shows "\<exists>w'. Ask lab opts env w = Some (Ok v, w') \<and> w_stdin w' = r \<and> w_fs w' = w_fs w"
  using assms by (simp add: Ask_def Let_def ask_loop.simps)

lemma print_same: "\<exists>w'. print_item it env w = Some (Ok (), w') \<and> same_io w w'"
  by (simp add: print_item_def same_io_def)

lemma Banner_same: "\<exists>w'. Banner s env w = Some (Ok (), w') \<and> same_io w w'"
  by (simp add: Banner_def Let_def gbind_def print_item_def same_io_def)

lemma AskSecret_line:
  assumes "read_line (w_stdin w) = Some (l, r)"
  shows "\<exists>w'. AskSecret lab quiet_env w = Some (Ok (trimNewline l), w') \<and> w_stdin w' = r \<and> w_fs w' = w_fs w"
  using assms by (simp add: AskSecret_def gbind_def gwrap_def gtry_def gdefer_def get_echo_def set_echo_def
    print_item_def read_string_def ret_def Let_def quiet_env_def)

lemma ask_token_line:
  assumes "read_line (w_stdin w) = Some (l, r)" "trimNewline l \<noteq> []"
  shows "\<exists>w'. ask_token quiet_env w = Some (Ok (trimNewline l), w') \<and> w_stdin w' = r \<and> w_fs w' = w_fs w"
  using AskSecret_line[OF assms(1), of "''Cloudflare API token''"] assms(2) by (auto simp: ask_token.simps[of quiet_env w])

lemma GenSecret_quiet: "\<exists>t w'. GenSecret k quiet_env w = Some (Ok t, w') \<and> w_fs w' = w_fs w \<and> w_stdin w' = w_stdin w"
  by (simp add: GenSecret_def gbind_def gwrap_def rand_Read_def quiet_env_def ret_def Let_def)

lemma secretKeys_quiet:
  "w_stdin w = replicate (length ks) (CHR 0x0A) \<Longrightarrow>
   \<exists>kvs' w'. gfold ks ask_secret_key (GoMap kvs) quiet_env w = Some (Ok (GoMap kvs'), w') \<and> w_fs w' = w_fs w"
proof (induction ks arbitrary: kvs w)
  case (Cons k ks)
  let ?o = "plain_ask\<lparr>Optional := True\<rparr>"
  have r: "read_line (w_stdin w) = Some ([CHR 0x0A], replicate (length ks) (CHR 0x0A))" using Cons.prems by simp
  have v: "ask_verdict ?o [CHR 0x0A] = Answer []" by (simp add: ask_verdict_def ask_value_def plain_ask_def trim_space_def is_space_def)
  obtain w1 where a: "Ask (spaced k @ '' (blank = auto-generate)'') ?o quiet_env w = Some (Ok [], w1)"
      "w_stdin w1 = replicate (length ks) (CHR 0x0A)" "w_fs w1 = w_fs w"
    using Ask_line[OF r v] by blast
  obtain t w2 where g: "GenSecret 0 quiet_env w1 = Some (Ok t, w2)" "w_fs w2 = w_fs w1" "w_stdin w2 = w_stdin w1"
    using GenSecret_quiet by blast
  have "ask_secret_key k (GoMap kvs) quiet_env w = Some (Ok (GoMap (AList.update k (JStr t) kvs)), w2)"
    using a g by (simp add: ask_secret_key_def gbind_def cfg_set_def ret_def)
  then show ?case using Cons.IH[of w2] g a by (simp add: gbind_def)
qed (simp add: ret_def)

lemma fileSecretKeys_quiet:
  "\<exists>kvs' w'. gfold ks file_secret_key (GoMap kvs) quiet_env w = Some (Ok (GoMap kvs'), w') \<and> w_fs w' = w_fs w"
proof (induction ks arbitrary: kvs w)
  case (Cons k ks)
  obtain t w2 where g: "GenSecret 0 quiet_env w = Some (Ok t, w2)" "w_fs w2 = w_fs w" using GenSecret_quiet by blast
  show ?case
  proof (cases "cfg_has (GoMap kvs) k")
    case True
    then show ?thesis using Cons.IH by (simp add: file_secret_key_def gbind_def ret_def)
  next
    case False
    then have "file_secret_key k (GoMap kvs) quiet_env w = Some (Ok (GoMap (AList.update k (JStr t) kvs)), w2)"
      using g by (simp add: file_secret_key_def gbind_def cfg_set_def ret_def)
    then show ?thesis using Cons.IH[of _ w2] g by (simp add: gbind_def)
  qed
qed (simp add: ret_def)

lemma Save_quiet: "w_fs w = [] \<Longrightarrow> \<exists>w'. Save \<lparr>Root = []\<rparr> cfg quiet_env w = Some (Ok (), w')"
  by (simp add: Save_def store_path_def ConfigDir_def ConfigFile_def Let_def gbind_def gwrap_def os_MkdirAll_def os_WriteFile_def os_Chmod_def
    quiet_io path_prefixes_def comps_def abs_path_def fs_put_def fs_chmod_def is_dir_def Dir_def Clean_def clean_comps_def is_abs_def)

definition setup_answers :: string where
  "setup_answers = unlines [''a.org'', ''x@a.org'', ''tok''] @ replicate 5 (CHR 0x0A)"

lemma setup_interview: "\<exists>cfg w'. RunPostBoot \<lparr>Root = []\<rparr> quiet_env (empty_world\<lparr>w_stdin := setup_answers\<rparr>) = Some (Ok cfg, w')"
proof -
  let ?nl = "[CHR 0x0A]" and ?w = "empty_world\<lparr>w_stdin := setup_answers\<rparr>"
  let ?r2 = "''tok'' @ ?nl @ replicate 5 (CHR 0x0A)"
  let ?r1 = "''x@a.org'' @ ?nl @ ?r2"
  obtain w0 where ld: "Load \<lparr>Root = []\<rparr> quiet_env ?w = Some (Ok (GoMap []), w0)" "w_stdin w0 = setup_answers" "w_fs w0 = []"
    by (simp add: Load_def gbind_def gtry_def os_ReadFile_def quiet_io fs_read_def store_path_def ConfigFile_def ConfigDir_def
      empty_world_def ret_def)
  obtain w1 where b: "Banner ''slfhst setup'' quiet_env w0 = Some (Ok (), w1)" "same_io w0 w1" using Banner_same by blast
  have "read_line (w_stdin w1) = Some (''a.org'' @ ?nl, ?r1)" using ld(2) b(2) by (simp add: setup_answers_def unlines_def same_io_def)
  moreover have "ask_verdict (plain_ask\<lparr>Validate := Some validDomainRE\<rparr>) (''a.org'' @ ?nl) = Answer ''a.org''"
    by (simp add: ask_verdict_def ask_value_def plain_ask_def trim_space_def is_space_def validDomainRE_def re_lower_def Let_def less_eq_char_def)
  ultimately obtain w2 where d: "Ask ''Domain (must already be on Cloudflare)'' (plain_ask\<lparr>Validate := Some validDomainRE\<rparr>) quiet_env w1
      = Some (Ok ''a.org'', w2)" "w_stdin w2 = ?r1" "w_fs w2 = w_fs w1"
    using Ask_line by blast
  have "read_line (w_stdin w2) = Some (''x@a.org'' @ ?nl, ?r2)" using d(2) by simp
  moreover have "ask_verdict (plain_ask\<lparr>Validate := Some validEmailRE\<rparr>) (''x@a.org'' @ ?nl) = Answer ''x@a.org''"
    by (simp add: ask_verdict_def ask_value_def plain_ask_def trim_space_def is_space_def validEmailRE_def re_space_def Let_def)
  ultimately obtain w3 where e: "Ask ''Email address for alerts (delivered via this box's own mail server)''
      (plain_ask\<lparr>Validate := Some validEmailRE\<rparr>) quiet_env w2 = Some (Ok ''x@a.org'', w3)" "w_stdin w3 = ?r2" "w_fs w3 = w_fs w2"
    using Ask_line by blast
  obtain p1 p2 p3 where p: "println [] quiet_env w3 = Some (Ok (), p1)"
    "println ''Cloudflare API token (Zone:DNS Edit scope for the domain above).'' quiet_env p1 = Some (Ok (), p2)"
    "println ''Input is hidden.'' quiet_env p2 = Some (Ok (), p3)" and ps: "same_io w3 p1" "same_io p1 p2" "same_io p2 p3"
    using print_same by metis
  have "read_line (w_stdin p3) = Some (''tok'' @ ?nl, replicate 5 (CHR 0x0A))" using ps e(2) by (simp add: same_io_def)
  moreover have "trimNewline (''tok'' @ ?nl) = ''tok''" by simp
  ultimately obtain w5 where t: "ask_token quiet_env p3 = Some (Ok ''tok'', w5)" "w_stdin w5 = replicate 5 (CHR 0x0A)" "w_fs w5 = w_fs p3"
    using ask_token_line by (metis list.distinct(1))
  obtain q1 q2 where q: "println [] quiet_env w5 = Some (Ok (), q1)"
    "println ''Per-service secrets: leave blank to auto-generate (recommended).'' quiet_env q1 = Some (Ok (), q2)"
    and qs: "same_io w5 q1" "same_io q1 q2"
    using print_same by metis
  let ?c = "AList.update ''cloudflare_api_token'' (JStr ''tok'') (AList.update ''alert_email'' (JStr ''x@a.org'') (AList.update ''domain'' (JStr ''a.org'') []))"
  have "length secretKeys = 5" by (simp add: secretKeys_def)
  then have "w_stdin q2 = replicate (length secretKeys) (CHR 0x0A)" using t(2) qs by (simp add: same_io_def)
  then obtain k1 w7 where s1: "gfold secretKeys ask_secret_key (GoMap ?c) quiet_env q2 = Some (Ok (GoMap k1), w7)" "w_fs w7 = w_fs q2"
    using secretKeys_quiet by blast
  obtain k2 w8 where s2: "gfold fileSecretKeys file_secret_key (GoMap k1) quiet_env w7 = Some (Ok (GoMap k2), w8)" "w_fs w8 = w_fs w7"
    using fileSecretKeys_quiet by blast
  have "w_fs w8 = []" using s1(2) s2(2) t(3) ld(3) b(2) d(3) e(3) ps qs by (simp add: same_io_def)
  then obtain w9 where sv: "Save \<lparr>Root = []\<rparr> (GoMap k2) quiet_env w8 = Some (Ok (), w9)" using Save_quiet by blast
  obtain w10 where b9: "Banner ''Setup captured.'' quiet_env w9 = Some (Ok (), w10)" using Banner_same by blast
  have m: "cfg_merge [(''domain'', JStr ''a.org''), (''alert_email'', JStr ''x@a.org''), (''cloudflare_api_token'', JStr ''tok'')]
      (GoMap []) quiet_env w5 = Some (Ok (GoMap ?c), w5)"
    by (simp add: cfg_set_def gbind_def ret_def)
  show ?thesis
    unfolding RunPostBoot_def gbind_def ld(1) option.case prod.case outcome.case
    by (simp add: b(1) d(1) e(1) p t(1) m q s1(1) s2(1) sv b9 ret_def cfg_str_def del: cfg_merge.simps update.simps)
qed


end
