(* ===== verification/Files.thy ===== *)
theory Files
  imports Config
begin

text \<open>
  What a successful call on the file tree leaves behind and what it keeps: the facts the components
  that write several files are built on.
\<close>

abbreviation node_at :: "world \<Rightarrow> string \<Rightarrow> node option" where
  "node_at w \<equiv> map_of (w_fs w)"

definition holds_file :: "world \<Rightarrow> string \<Rightarrow> string \<Rightarrow> bool" where
  "holds_file w p c = (\<exists>m own. node_at w p = Some (NFile m own c))"

named_theorems file_kept \<open>nodes a successful call keeps\<close>

lemma MkdirAll_kept [file_kept]: "os_MkdirAll p m env w = Some (Ok x, w') \<Longrightarrow> node_at w q = Some n \<Longrightarrow> node_at w' q = Some n"
  by (auto simp: os_MkdirAll_def io_upd_Ok_iff dest!: fs_mkdirs_Ok)

lemma WriteFile_written: "os_WriteFile p c m env w = Some (Ok x, w') \<Longrightarrow> holds_file w' p c"
  by (auto simp: os_WriteFile_def io_upd_Ok_iff fs_put_Ok holds_file_def)

lemma WriteFile_kept [file_kept]: "os_WriteFile p c m env w = Some (Ok x, w') \<Longrightarrow> q \<noteq> p \<Longrightarrow> node_at w' q = node_at w q"
  by (auto simp: os_WriteFile_def io_upd_Ok_iff fs_put_Ok)

lemma Chmod_kept [file_kept]: "os_Chmod p m env w = Some (Ok x, w') \<Longrightarrow> q \<noteq> p \<Longrightarrow> node_at w' q = node_at w q"
  by (auto simp: os_Chmod_def io_upd_Ok_iff fs_chmod_def split: option.splits node.splits)

lemma Touch_kept [file_kept]: "os_Touch p m env w = Some (Ok x, w') \<Longrightarrow> q \<noteq> p \<Longrightarrow> node_at w' q = node_at w q"
  by (auto simp: os_Touch_def io_upd_Ok_iff fs_put_Ok)

lemma Remove_kept [file_kept]: "os_Remove p env w = Some (Ok x, w') \<Longrightarrow> q \<noteq> p \<Longrightarrow> node_at w' q = node_at w q"
  by (auto simp: os_Remove_def io_upd_Ok_iff fs_remove_def delete_conv' split: option.splits node.splits if_splits)

lemma Symlink_linked: "os_Symlink t p env w = Some (Ok x, w') \<Longrightarrow> node_at w' p = Some (NLink t)"
  by (auto simp: os_Symlink_def io_upd_Ok_iff fs_symlink_def split: if_splits)

lemma Symlink_kept [file_kept]: "os_Symlink t p env w = Some (Ok x, w') \<Longrightarrow> q \<noteq> p \<Longrightarrow> node_at w' q = node_at w q"
  by (auto simp: os_Symlink_def io_upd_Ok_iff fs_symlink_def split: if_splits)

lemma Lstat_try_fs: "gtry (os_Lstat p) env w = Some (r, w') \<Longrightarrow> w_fs w' = w_fs w"
  by (auto simp: os_Lstat_def gtry_def io_call_def Let_def split: option.splits prod.splits outcome.splits if_splits)

lemma Stat_try_fs: "gtry (os_Stat p) env w = Some (r, w') \<Longrightarrow> w_fs w' = w_fs w"
  by (auto simp: os_Stat_def gtry_def io_call_def Let_def split: option.splits prod.splits outcome.splits if_splits)

lemma ReadFile_fs: "os_ReadFile p env w = Some (r, w') \<Longrightarrow> w_fs w' = w_fs w"
  by (auto simp: os_ReadFile_def io_call_def Let_def obind_eq_Ok split: option.splits prod.splits outcome.splits if_splits)

lemma ReadFile_try_fs: "gtry (os_ReadFile p) env w = Some (r, w') \<Longrightarrow> w_fs w' = w_fs w"
  by (auto simp: gtry_def dest: ReadFile_fs split: option.splits prod.splits outcome.splits)

text \<open>Making the directory and writing the file, as most writers do.\<close>

lemma mkdir_write_holds:
  assumes "gbind (gwrap a (os_MkdirAll d m)) (\<lambda>_. gwrap b (os_WriteFile p c m')) env w = Some (Ok x, w')"
  shows "holds_file w' p c"
  using assms by (auto simp: gbind_eq_Ok gwrap_eq_Ok WriteFile_written)

lemma mkdir_write_kept [file_kept]:
  assumes "gbind (gwrap a (os_MkdirAll d m)) (\<lambda>_. gwrap b (os_WriteFile p c m')) env w = Some (Ok x, w')" "q \<noteq> p" "node_at w q = Some n"
  shows "node_at w' q = Some n"
  using assms MkdirAll_kept WriteFile_kept by (fastforce simp: gbind_eq_Ok gwrap_eq_Ok)

lemma Load_fs:
  assumes "Load s env w = Some (Ok cfg, w')"
  shows "w_fs w' = w_fs w"
proof -
  let ?k = "\<lambda>res. case res of
       Inl err \<Rightarrow> if is_not_exist err then ret (GoMap []) else fail (Wrap ''config: read'' err)
     | Inr data \<Rightarrow> (case Unmarshal data of
         None \<Rightarrow> fail (Wrap ''config: parse'' (JsonErr data))
       | Some j \<Rightarrow> (case cfg_of_json j of
           None \<Rightarrow> fail (Wrap ''config: parse'' (JsonErr data))
         | Some cfg \<Rightarrow> ret cfg))"
  obtain res w1 where r: "gtry (os_ReadFile (store_path s ConfigFile)) env w = Some (Ok res, w1)" "?k res env w1 = Some (Ok cfg, w')"
    using assms unfolding Load_def gbind_eq_Ok by blast
  have "w' = w1" using r(2) by (auto simp: ret_def fail_def split: sum.splits option.splits if_splits)
  then show ?thesis using ReadFile_try_fs[OF r(1)] by simp
qed

lemma Save_kept [file_kept]:
  assumes "Save s cfg env w = Some (Ok (), w')" "q \<noteq> store_path s ConfigFile" "node_at w q = Some n"
  shows "node_at w' q = Some n"
proof -
  obtain w1 w2 where s: "os_MkdirAll (store_path s ConfigDir) 0x1ED env w = Some (Ok (), w1)"
    "os_WriteFile (store_path s ConfigFile) (MarshalIndent_map (json_of_cfg cfg) @ [CHR 0x0A]) 0x180 env w1 = Some (Ok (), w2)"
    "os_Chmod (store_path s ConfigFile) 0x180 env w2 = Some (Ok (), w')"
    using assms(1) unfolding Save_def Let_def gbind_eq_Ok gwrap_eq_Ok by auto
  show ?thesis using MkdirAll_kept[OF s(1) assms(3)] WriteFile_kept[OF s(2) assms(2)] Chmod_kept[OF s(3) assms(2)] by simp
qed

lemma cfg_set_world: "cfg_set k v cfg env w = Some (r, w') \<Longrightarrow> w' = w"
  by (cases cfg) (auto simp: cfg_set_def panic_def ret_def)

lemma cfg_merge_world: "cfg_merge kvs cfg env w = Some (Ok cfg', w') \<Longrightarrow> w' = w"
proof (induction kvs cfg arbitrary: w rule: cfg_merge.induct)
  case (2 k v kvs cfg)
  then obtain c1 w1 where s: "cfg_set k v cfg env w = Some (Ok c1, w1)" "cfg_merge kvs c1 env w1 = Some (Ok cfg', w')"
    by (auto simp: gbind_eq_Ok)
  then show ?case using 2(1)[OF s(2)] cfg_set_world[OF s(1)] by simp
qed (simp add: ret_def)

lemma Update_kept [file_kept]:
  assumes "Update s kvs env w = Some (Ok (), w')" "q \<noteq> store_path s ConfigFile" "node_at w q = Some n"
  shows "node_at w' q = Some n"
proof -
  obtain cfg0 cfg w1 w2 where s: "Load s env w = Some (Ok cfg0, w1)" "cfg_merge kvs cfg0 env w1 = Some (Ok cfg, w2)"
    "Save s cfg env w2 = Some (Ok (), w')"
    using assms(1) unfolding Update_def gbind_eq_Ok by blast
  show ?thesis using Save_kept[OF s(3) assms(2)] assms(3) Load_fs[OF s(1)] cfg_merge_world[OF s(2)] by simp
qed

text \<open>Paths below a root that differ in their components are different paths.\<close>

lemma Join_neq:
  assumes "is_abs root" "list_all plain (comps p)" "list_all plain (comps q)" "p \<noteq> []" "q \<noteq> []" "comps p \<noteq> comps q"
  shows "Join [root, p] \<noteq> Join [root, q]"
  using assms Join_root_inject[of root p q] by (simp add: list_all_iff)

end
