(* ===== verification/Netconf.thy ===== *)
theory Netconf
  imports Commands Files
begin

text \<open>
  \<^verbatim>\<open>internal/netconf/netconf.go\<close>: the choice of an interface and of DHCP or static addresses, and the
  files for \<open>systemd-networkd\<close> and \<open>systemd-resolved\<close> on the target.
\<close>

section \<open>Interfaces\<close>

definition excludedPrefixes :: "string list" where
  "excludedPrefixes = [''lo'', ''veth'', ''podman'', ''docker'', ''cni'', ''br-'', ''virbr'']"

definition line_space :: "char \<Rightarrow> bool" where
  "line_space c = (c \<in> set [CHR 0x09, CHR 0x0A, CHR 0x0C, CHR 0x0D, CHR 0x20])"

text \<open>\<^verbatim>\<open>^\d+:\s+([^:@]+)[:@]\<close>, the captured name. The blanks are taken greedily; when nothing is left before
  the \<open>:\<close> or \<open>@\<close>, the last of several blanks is the name.\<close>

definition ifaceLineRE :: "string \<Rightarrow> string option" where
  "ifaceLineRE line =
     (let r1 = dropWhile is_digit line in
      if takeWhile is_digit line = [] \<or> r1 = [] \<or> hd r1 \<noteq> CHR '':'' then None
      else
      let blanks = takeWhile line_space (tl r1); r2 = dropWhile line_space (tl r1);
          name = takeWhile (\<lambda>c. c \<noteq> CHR '':'' \<and> c \<noteq> CHR 0x40) r2; r3 = dropWhile (\<lambda>c. c \<noteq> CHR '':'' \<and> c \<noteq> CHR 0x40) r2 in
      if blanks = [] \<or> r3 = [] then None
      else if name \<noteq> [] then Some name
      else if 2 \<le> length blanks then Some [last blanks]
      else None)"

definition excluded :: "string \<Rightarrow> bool" where
  "excluded name = list_ex (has_prefix name) excludedPrefixes"

definition ListInterfaces :: "string list go" where
  "ListInterfaces =
     gbind (gwrap ''netconf: list interfaces'' (RunChecked [''ip'', ''-o'', ''link'', ''show''] no_options)) (\<lambda>out.
     ret (filter (\<lambda>name. \<not> excluded name) (List.map_filter ifaceLineRE (split_on (CHR 0x0A) out))))"

section \<open>Static addresses\<close>

record staticConfig =
  IPv4Address :: string
  IPv4Gateway :: string
  IPv6Addresses :: "string list"
  IPv6Gateway :: string

definition digits :: "nat \<Rightarrow> string \<Rightarrow> bool" where
  "digits n s = (s \<noteq> [] \<and> length s \<le> n \<and> list_all is_digit s)"

definition is_hex :: "char \<Rightarrow> bool" where
  "is_hex c = (is_digit c \<or> (CHR ''a'' \<le> c \<and> c \<le> CHR ''f'') \<or> (CHR ''A'' \<le> c \<and> c \<le> CHR ''F''))"

text \<open>\<^verbatim>\<open>^\d{1,3}(\.\d{1,3}){3}$\<close> and \<^verbatim>\<open>^[0-9a-fA-F:]+$\<close>, and the same with a prefix length behind a slash.\<close>

definition ipv4RE :: "string \<Rightarrow> bool" where
  "ipv4RE s = (let ps = split_on (CHR ''.'') s in length ps = 4 \<and> list_all (digits 3) ps)"

definition ipv6RE :: "string \<Rightarrow> bool" where
  "ipv6RE s = (s \<noteq> [] \<and> list_all (\<lambda>c. is_hex c \<or> c = CHR '':'') s)"

definition ipv4CIDRRE :: "string \<Rightarrow> bool" where
  "ipv4CIDRRE s = (case split_on (CHR ''/'') s of [a, n] \<Rightarrow> ipv4RE a \<and> digits 2 n | _ \<Rightarrow> False)"

definition ipv6CIDRRE :: "string \<Rightarrow> bool" where
  "ipv6CIDRRE s = (case split_on (CHR ''/'') s of [a, n] \<Rightarrow> ipv6RE a \<and> digits 3 n | _ \<Rightarrow> False)"

definition stripWhitespace :: "string \<Rightarrow> string" where
  "stripWhitespace s = strip_fields s"

definition addr_ask :: "(string \<Rightarrow> bool) \<Rightarrow> ask_options" where
  "addr_ask valid = plain_ask\<lparr>Normalize := Some stripWhitespace, Validate := Some valid\<rparr>"

lemma ask_loop_consumes: "ask_loop opts display inp con = (Ok v, rest, con') \<Longrightarrow> length rest < length inp"
proof (induction opts display inp con rule: ask_loop.induct)
  case (1 opts display inp con)
  show ?case
  proof (cases "read_line inp")
    case None
    then show ?thesis using 1(2) by (simp add: ask_loop.simps[of opts display inp])
  next
    case (Some lr)
    obtain line r1 where lr: "lr = (line, r1)" by (cases lr)
    have inp: "inp = line @ r1" "line \<noteq> []" using read_line_shorter Some lr by blast+
    show ?thesis
    proof (cases "ask_verdict opts line")
      case (Answer v)
      then have "rest = r1" using 1(2) Some lr by (simp add: ask_loop.simps[of opts display inp])
      then show ?thesis using inp by simp
    next
      case (Again why)
      then have "ask_loop opts display r1 ((con @ [OText (display @ '': '')]) @ [OText why]) = (Ok v, rest, con')"
        using 1(2) Some lr by (simp add: ask_loop.simps[of opts display inp])
      from 1(1)[OF refl Some lr[symmetric] Again this] show ?thesis using inp by simp
    qed
  qed
qed

lemma Ask_consumes: "Ask lab opts env w = Some (Ok v, w') \<Longrightarrow> length (w_stdin w') < length (w_stdin w)"
  unfolding Ask_def Let_def by (auto split: prod.splits dest!: ask_loop_consumes)

text \<open>The loop over IPv6 addresses: every round reads at least a line.\<close>

function ask_v6 :: "string list \<Rightarrow> env \<Rightarrow> world \<Rightarrow> ((gerr, string list) outcome \<times> world) option" where
  "ask_v6 addrs env w = (case Ask ''IPv6 address/CIDR (blank to stop, e.g. 2001:db8::7/64)'' ((addr_ask ipv6CIDRRE)\<lparr>Optional := True\<rparr>) env w of
     Some (Ok v6, w') \<Rightarrow> if v6 = [] then Some (Ok addrs, w') else ask_v6 (addrs @ [v6]) env w'
   | Some (Err e, w') \<Rightarrow> Some (Err e, w')
   | Some (Panic, w') \<Rightarrow> Some (Panic, w')
   | None \<Rightarrow> None)"
  by pat_completeness auto
termination
  by (relation "measure (\<lambda>(addrs, env, w). length (w_stdin w))") (auto dest: Ask_consumes)

declare ask_v6.simps [simp del]

definition askStatic :: "staticConfig option go" where
  "askStatic =
     gbind (Ask ''IPv4 address/CIDR (e.g. 203.0.113.7/24)'' (addr_ask ipv4CIDRRE)) (\<lambda>v4addr.
     gbind (Ask ''IPv4 gateway'' (addr_ask ipv4RE)) (\<lambda>v4gw.
     gbind (ask_v6 []) (\<lambda>v6addrs.
     gbind (if v6addrs \<noteq> [] then Ask ''IPv6 gateway'' (addr_ask ipv6RE) else ret []) (\<lambda>v6gw.
     ret (if v4addr = [] \<and> v6addrs = [] then None
          else Some \<lparr>IPv4Address = v4addr, IPv4Gateway = v4gw, IPv6Addresses = v6addrs, IPv6Gateway = v6gw\<rparr>)))))"

section \<open>Files\<close>

definition route_text :: "string \<Rightarrow> string" where
  "route_text gw = (if gw = [] then [] else unlines [[], ''[Route]'', ''Gateway='' @ gw, ''GatewayOnLink=yes''])"

definition network_text :: "string \<Rightarrow> staticConfig option \<Rightarrow> string" where
  "network_text iface static = unlines [''[Match]'', ''Name='' @ iface, [], ''[Network]''] @ (case static of
     None \<Rightarrow> unlines [''DHCP=yes'', [], ''[DHCP]'', ''UseDNS=no'']
   | Some sc \<Rightarrow> unlines [''DHCP=no'']
       @ (if IPv6Addresses sc \<noteq> [] then unlines [''IPv6AcceptRA=no''] else [])
       @ (if IPv4Address sc \<noteq> [] then unlines [''Address='' @ IPv4Address sc] else [])
       @ unlines (map (\<lambda>a. ''Address='' @ a) (IPv6Addresses sc))
       @ route_text (IPv4Gateway sc) @ route_text (IPv6Gateway sc))"

definition writeNetworkFile :: "string \<Rightarrow> string \<Rightarrow> staticConfig option \<Rightarrow> unit go" where
  "writeNetworkFile root iface static =
     (let path = Join [root, ''etc/systemd/network/20-wan.network''] in
      gbind (gwrap ''netconf: mkdir'' (os_MkdirAll (Dir path) 0x1ED)) (\<lambda>_.
      gwrap ''netconf: write'' (os_WriteFile path (network_text iface static) 0x1A4)))"

definition resolved_text :: string where
  "resolved_text = unlines [''[Resolve]'', ''DNS=9.9.9.9#dns.quad9.net 2620:fe::fe#dns.quad9.net'', ''DNSOverTLS=yes'', ''DNSSEC=yes'', ''FallbackDNS='']"

definition writeResolvedConf :: "string \<Rightarrow> unit go" where
  "writeResolvedConf root =
     (let path = Join [root, ''etc/systemd/resolved.conf.d/quad9.conf''] in
      gbind (gwrap ''netconf: mkdir'' (os_MkdirAll (Dir path) 0x1ED)) (\<lambda>_.
      gwrap ''netconf: write'' (os_WriteFile path resolved_text 0x1A4)))"

definition fixResolvConfSymlink :: "string \<Rightarrow> unit go" where
  "fixResolvConfSymlink root =
     (let path = Join [root, ''etc/resolv.conf''] in
      gbind (gtry (os_Lstat path)) (\<lambda>res.
      gbind (if isl res then ret () else gwrap ''netconf: remove existing'' (os_Remove path)) (\<lambda>_.
      gwrap ''netconf: symlink'' (os_Symlink ''/run/systemd/resolve/stub-resolv.conf'' path))))"

section \<open>The interview\<close>

text \<open>\<open>fmt.Sscanf(s, "%d", &n)\<close> with its result ignored: leading blanks, a sign, digits; \<open>n\<close> keeps its value
  when there is no number or it does not fit.\<close>

definition indexOrDefault :: "string \<Rightarrow> int \<Rightarrow> int" where
  "indexOrDefault s def =
     (let t = dropWhile (\<lambda>c. is_space c \<and> c \<noteq> CHR 0x0A) s;
          sign = (if t \<noteq> [] \<and> (hd t = CHR ''-'' \<or> hd t = CHR ''+'') then [hd t] else []) in
      case Atoi (sign @ takeWhile is_digit (drop (length sign) t)) of Some n \<Rightarrow> n | None \<Rightarrow> def)"

text \<open>\<open>strings.EqualFold(s, "static")\<close>: besides the two cases of a letter, the long s (U+017F) folds to s.\<close>

fun fold_s :: "string \<Rightarrow> string" where
  "fold_s (c # d # s) = (if c = CHR 0xC5 \<and> d = CHR 0xBF then CHR ''s'' # fold_s s else lower_char c # fold_s (d # s))"
| "fold_s [c] = [lower_char c]"
| "fold_s [] = []"

definition is_static :: "string \<Rightarrow> bool" where
  "is_static mode = (fold_s mode = ''static'')"

definition choose_iface :: "string list \<Rightarrow> string go" where
  "choose_iface ifaces =
     (if length ifaces \<le> 1 then ret (ifaces ! 0)
      else
        gbind (Banner ''Multiple network interfaces found'') (\<lambda>_.
        gbind (gforeach (enumerate 1 ifaces) (\<lambda>(i, name). println (''  '' @ show_nat i @ '') '' @ name))) (\<lambda>_.
        gbind (Ask (''Which interface? (1-'' @ show_nat (length ifaces) @ '')'') (plain_ask\<lparr>Default := ''1''\<rparr>)) (\<lambda>choice.
        let idx = indexOrDefault choice 1 - 1;
            idx' = (if idx < 0 \<or> int (length ifaces) \<le> idx then 0 else idx) in
        ret (ifaces ! nat idx')))))"

definition network_json :: "staticConfig option \<Rightarrow> json" where
  "network_json static = (case static of
     None \<Rightarrow> JObj [(''mode'', JStr ''dhcp'')]
   | Some sc \<Rightarrow> JObj
       [(''ipv4_address'', JStr (IPv4Address sc)), (''ipv4_gateway'', JStr (IPv4Gateway sc)),
        (''ipv6_addresses'', if IPv6Addresses sc = [] then JNull else JArr (map JStr (IPv6Addresses sc))),
        (''ipv6_gateway'', JStr (IPv6Gateway sc))])"

definition net_Configure :: "store \<Rightarrow> unit go" where
  "net_Configure s =
     gbind ListInterfaces (\<lambda>ifaces.
     if ifaces = [] then fail (Msg ''netconf: no candidate network interfaces found'')
     else
       gbind (choose_iface ifaces) (\<lambda>iface.
       gbind (Ask ''DHCP or static?'' (plain_ask\<lparr>Default := ''dhcp''\<rparr>)) (\<lambda>mode.
       gbind (if is_static mode then askStatic else ret None) (\<lambda>static.
       gbind (writeNetworkFile (Root s) iface static) (\<lambda>_.
       gbind (writeResolvedConf (Root s)) (\<lambda>_.
       gbind (fixResolvConfSymlink (Root s)) (\<lambda>_.
       Update s [(''network'', network_json static)])))))))"

section \<open>Lemmas\<close>

lemma set_join: "set (join sep xs) \<subseteq> set sep \<union> \<Union> (set ` set xs)"
  by (induction sep xs rule: join.induct) auto

lemma set_split_on: "set s \<subseteq> insert sep (\<Union> (set ` set (split_on sep s)))"
  using set_join[of "[sep]" "split_on sep s"] by (simp add: join_split_on)

lemma no_newline_digit [simp]: "\<not> is_digit (CHR 0x0A)" "\<not> is_hex (CHR 0x0A)"
  by (simp_all add: is_hex_def is_digit_def less_eq_char_def)

lemma no_newline_digits: "digits n s \<Longrightarrow> CHR 0x0A \<notin> set s"
  by (auto simp: digits_def list_all_iff)

lemma no_newline_ipv4: "ipv4RE s \<Longrightarrow> CHR 0x0A \<notin> set s"
proof
  assume r: "ipv4RE s" and "CHR 0x0A \<in> set s"
  then have "CHR 0x0A \<in> \<Union> (set ` set (split_on (CHR ''.'') s))" using set_split_on[of s "CHR ''.''"] by auto
  then obtain p where "p \<in> set (split_on (CHR ''.'') s)" "CHR 0x0A \<in> set p" by blast
  then show False using r no_newline_digits[of 3 p] by (auto simp: ipv4RE_def Let_def list_all_iff)
qed

lemma no_newline_ipv6: "ipv6RE s \<Longrightarrow> CHR 0x0A \<notin> set s"
  by (auto simp: ipv6RE_def list_all_iff)

lemma no_newline_cidr: "ipv4CIDRRE s \<Longrightarrow> CHR 0x0A \<notin> set s" "ipv6CIDRRE s \<Longrightarrow> CHR 0x0A \<notin> set s"
  using set_split_on[of s "CHR ''/''"]
  by (auto simp: ipv4CIDRRE_def ipv6CIDRRE_def split: list.splits dest: no_newline_ipv4 no_newline_ipv6 no_newline_digits)

lemma split_on_line: "sep \<notin> set l \<Longrightarrow> split_on sep (l @ sep # s) = l # split_on sep s"
  by (simp add: split_on_append split_on_plain)

lemma raw_lines_unlines: "\<forall>l\<in>set ls. CHR 0x0A \<notin> set l \<Longrightarrow> raw_lines (unlines ls) = ls"
proof -
  have "split_on (CHR 0x0A) (unlines ls) = ls @ [[]]" if "\<forall>l\<in>set ls. CHR 0x0A \<notin> set l"
    using that by (induction ls) (auto simp: unlines_def split_on_line)
  then show "\<forall>l\<in>set ls. CHR 0x0A \<notin> set l \<Longrightarrow> ?thesis" by (simp add: raw_lines_def)
qed

lemma ifaceLineRE_chars: "ifaceLineRE line = Some name \<Longrightarrow> set name \<subseteq> set line"
proof -
  let ?P = "\<lambda>c. c \<noteq> CHR '':'' \<and> c \<noteq> CHR 0x40"
  let ?t = "tl (dropWhile is_digit line)"
  have tl: "set (tl xs) \<subseteq> set xs" for xs :: string by (cases xs) auto
  have "set ?t \<subseteq> set (dropWhile is_digit line)" by (rule tl)
  then have t: "set ?t \<subseteq> set line" using set_dropWhileD by fast
  have n: "set (takeWhile ?P (dropWhile line_space ?t)) \<subseteq> set ?t" by (auto dest!: set_takeWhileD set_dropWhileD)
  have b: "last (takeWhile line_space ?t) \<in> set ?t" if "takeWhile line_space ?t \<noteq> []"
    using last_in_set[OF that] by (auto dest!: set_takeWhileD)
  show "ifaceLineRE line = Some name \<Longrightarrow> ?thesis"
    using t n b by (auto simp: ifaceLineRE_def Let_def split: if_splits)
qed

lemma ListInterfaces_Ok:
  assumes "ListInterfaces env w = Some (Ok ifaces, w')" "name \<in> set ifaces"
  shows "\<not> excluded name \<and> CHR 0x0A \<notin> set name"
proof -
  obtain out where i: "ifaces = filter (\<lambda>name. \<not> excluded name) (List.map_filter ifaceLineRE (split_on (CHR 0x0A) out))"
    using assms(1) by (auto simp: ListInterfaces_def gbind_eq_Ok ret_def)
  then obtain line where "line \<in> set (split_on (CHR 0x0A) out)" "ifaceLineRE line = Some name"
    using assms(2) by (auto simp: map_filter_def)
  then have "CHR 0x0A \<notin> set line" "set name \<subseteq> set line" using split_on_no_sep ifaceLineRE_chars by blast+
  then show ?thesis using i assms(2) by auto
qed

lemma choose_iface_Ok: "choose_iface ifaces env w = Some (Ok i, w') \<Longrightarrow> ifaces \<noteq> [] \<Longrightarrow> i \<in> set ifaces"
  unfolding choose_iface_def
  by (auto simp: gbind_eq_Ok ret_def Let_def split: if_splits intro!: nth_mem)

fun valid_static :: "staticConfig option \<Rightarrow> bool" where
  "valid_static None = True"
| "valid_static (Some sc) = (ipv4CIDRRE (IPv4Address sc) \<and> ipv4RE (IPv4Gateway sc) \<and> list_all ipv6CIDRRE (IPv6Addresses sc) \<and>
     (if IPv6Addresses sc = [] then IPv6Gateway sc = [] else ipv6RE (IPv6Gateway sc)))"

lemma addr_ask_Ok:
  assumes "Ask lab (addr_ask p) env w = Some (Ok v, w')" shows "p v"
  using Ask_Ok[OF assms] by (auto simp: addr_ask_def plain_ask_def)

lemma ask_v6_Ok: "ask_v6 addrs env w = Some (Ok res, w') \<Longrightarrow> list_all ipv6CIDRRE addrs \<Longrightarrow> list_all ipv6CIDRRE res"
proof (induction addrs env w rule: ask_v6.induct)
  case (1 addrs env w)
  let ?ask = "Ask ''IPv6 address/CIDR (blank to stop, e.g. 2001:db8::7/64)'' ((addr_ask ipv6CIDRRE)\<lparr>Optional := True\<rparr>) env w"
  show ?case
  proof (cases ?ask)
    case None
    then show ?thesis using 1(2) by (simp add: ask_v6.simps[of addrs env w])
  next
    case (Some q)
    obtain r w1 where q: "q = (r, w1)" by (cases q)
    show ?thesis
    proof (cases r)
      case (Ok v)
      have "v \<noteq> [] \<Longrightarrow> ipv6CIDRRE v" using Ask_Ok Some q Ok by (fastforce simp: addr_ask_def)
      then show ?thesis using 1(1)[OF Some q[symmetric] Ok] 1(2,3) Some q Ok
        by (cases "v = []") (auto simp: ask_v6.simps[of addrs env w])
    qed (use 1(2) Some q in \<open>auto simp: ask_v6.simps[of addrs env w]\<close>)
  qed
qed

lemma askStatic_Ok:
  assumes "askStatic env w = Some (Ok st, w')"
  shows "valid_static st"
proof -
  obtain v4 gw v6 gw6 w1 w2 w3 w4 where s: "Ask ''IPv4 address/CIDR (e.g. 203.0.113.7/24)'' (addr_ask ipv4CIDRRE) env w = Some (Ok v4, w1)"
    "Ask ''IPv4 gateway'' (addr_ask ipv4RE) env w1 = Some (Ok gw, w2)" "ask_v6 [] env w2 = Some (Ok v6, w3)"
    "(if v6 \<noteq> [] then Ask ''IPv6 gateway'' (addr_ask ipv6RE) else ret []) env w3 = Some (Ok gw6, w4)"
    "st = (if v4 = [] \<and> v6 = [] then None else Some \<lparr>IPv4Address = v4, IPv4Gateway = gw, IPv6Addresses = v6, IPv6Gateway = gw6\<rparr>)"
    using assms unfolding askStatic_def by (auto simp: gbind_eq_Ok ret_def)
  have "if v6 = [] then gw6 = [] else ipv6RE gw6"
    using s(4) by (cases "v6 = []") (auto simp: ret_def dest: addr_ask_Ok)
  then show ?thesis using s(5) addr_ask_Ok[OF s(1)] addr_ask_Ok[OF s(2)] ask_v6_Ok[OF s(3)] by auto
qed

text \<open>The lines of the network file, section by section.\<close>

definition route_lines :: "string \<Rightarrow> string list" where
  "route_lines gw = (if gw = [] then [] else [[], ''[Route]'', ''Gateway='' @ gw, ''GatewayOnLink=yes''])"

definition network_lines :: "string \<Rightarrow> staticConfig option \<Rightarrow> string list" where
  "network_lines iface static = [''[Match]'', ''Name='' @ iface, [], ''[Network]''] @ (case static of
     None \<Rightarrow> [''DHCP=yes'', [], ''[DHCP]'', ''UseDNS=no'']
   | Some sc \<Rightarrow> [''DHCP=no''] @ (if IPv6Addresses sc = [] then [] else [''IPv6AcceptRA=no''])
       @ [''Address='' @ IPv4Address sc] @ map (\<lambda>a. ''Address='' @ a) (IPv6Addresses sc)
       @ route_lines (IPv4Gateway sc) @ route_lines (IPv6Gateway sc))"

lemma unlines_append [simp]: "unlines (a @ b) = unlines a @ unlines b"
  by (simp add: unlines_def)

lemma valid_nonempty: "ipv4CIDRRE s \<Longrightarrow> s \<noteq> []" "ipv4RE s \<Longrightarrow> s \<noteq> []"
  by (auto simp: ipv4CIDRRE_def ipv4RE_def)

lemma network_text_lines:
  assumes "valid_static static" "CHR 0x0A \<notin> set iface"
  shows "raw_lines (network_text iface static) = network_lines iface static"
proof -
  have eq: "network_text iface static = unlines (network_lines iface static)"
    using assms(1) by (cases static) (auto simp: network_text_def network_lines_def route_text_def route_lines_def valid_nonempty
      simp flip: unlines_append)
  have "\<forall>l\<in>set (network_lines iface static). CHR 0x0A \<notin> set l"
  proof (cases static)
    case None
    then show ?thesis using assms(2) by (auto simp: network_lines_def)
  next
    case (Some sc)
    have v6: "CHR 0x0A \<notin> set a" if "a \<in> set (IPv6Addresses sc)" for a
      using that assms(1) Some no_newline_cidr(2) by (auto simp: list_all_iff)
    have gw: "CHR 0x0A \<notin> set (IPv6Gateway sc)"
      using assms(1) Some no_newline_ipv6 by (cases "IPv6Addresses sc = []") auto
    show ?thesis using Some assms v6 gw no_newline_cidr(1) no_newline_ipv4
      by (auto simp: network_lines_def route_lines_def split: if_splits)
  qed
  then show ?thesis unfolding eq by (rule raw_lines_unlines)
qed

section \<open>Properties\<close>

lemma fixResolv_linked:
  assumes "fixResolvConfSymlink root env w = Some (Ok (), w')"
  shows "node_at w' (Join [root, ''etc/resolv.conf'']) = Some (NLink ''/run/systemd/resolve/stub-resolv.conf'') \<and>
    (\<forall>q. q \<noteq> Join [root, ''etc/resolv.conf''] \<longrightarrow> node_at w' q = node_at w q)"
proof -
  let ?p = "Join [root, ''etc/resolv.conf'']"
  obtain res w1 w2 where s: "gtry (os_Lstat ?p) env w = Some (Ok res, w1)"
    "(if isl res then ret () else gwrap ''netconf: remove existing'' (os_Remove ?p)) env w1 = Some (Ok (), w2)"
    "os_Symlink ''/run/systemd/resolve/stub-resolv.conf'' ?p env w2 = Some (Ok (), w')"
    using assms unfolding fixResolvConfSymlink_def Let_def gbind_eq_Ok gwrap_eq_Ok by auto
  have "node_at w2 q = node_at w1 q" if "q \<noteq> ?p" for q
    using s(2) Remove_kept that by (auto simp: ret_def gwrap_eq_Ok split: if_splits)
  then show ?thesis using Symlink_linked[OF s(3)] Symlink_kept[OF s(3)] Lstat_try_fs[OF s(1)] by auto
qed


definition net_env :: env where
  "net_env = quiet_env\<lparr>e_exec := (\<lambda>_ f _ _ _. (\<lparr>started = True, exit_code = 0, c_stdout = ''2: eth0: <UP>'', c_stderr = []\<rparr>, f))\<rparr>"

lemma net_io: "io_call op g net_env w = io_call op g quiet_env w"
  by (simp add: net_env_def io_call_def quiet_env_def)

lemma net_demo_paths:
  "Join [''/m'', ''etc/systemd/network/20-wan.network''] = ''/m/etc/systemd/network/20-wan.network''"
  "Join [''/m'', ''etc/systemd/resolved.conf.d/quad9.conf''] = ''/m/etc/systemd/resolved.conf.d/quad9.conf''"
  "Join [''/m'', ''etc/resolv.conf''] = ''/m/etc/resolv.conf''"
  "Join [''/m'', ''/etc/slfhst''] = ''/m/etc/slfhst''" "Join [''/m'', ''/etc/slfhst/config.json''] = ''/m/etc/slfhst/config.json''"
  "Dir ''/m/etc/systemd/network/20-wan.network'' = ''/m/etc/systemd/network''"
  "Dir ''/m/etc/systemd/resolved.conf.d/quad9.conf'' = ''/m/etc/systemd/resolved.conf.d''"
  "Dir ''/m/etc/resolv.conf'' = ''/m/etc''" "Dir ''/m/etc/slfhst/config.json'' = ''/m/etc/slfhst''"
  by (simp_all add: Join_def Dir_def Clean_def is_abs_def comps_def clean_comps_def abs_path_def)

lemma net_demo_prefixes:
  "path_prefixes ''/m/etc/systemd/network'' = [''/m'', ''/m/etc'', ''/m/etc/systemd'', ''/m/etc/systemd/network'']"
  "path_prefixes ''/m/etc/systemd/resolved.conf.d'' = [''/m'', ''/m/etc'', ''/m/etc/systemd'', ''/m/etc/systemd/resolved.conf.d'']"
  "path_prefixes ''/m/etc/slfhst'' = [''/m'', ''/m/etc'', ''/m/etc/slfhst'']"
  by (simp_all add: path_prefixes_def comps_def abs_path_def)


text \<open>The interview never falls back to DHCP once static addresses were asked for, although the code has a
  branch for it: the IPv4 address cannot be left blank.\<close>

theorem askStatic_never_dhcp: "askStatic env w \<noteq> Some (Ok None, w')"
proof
  assume "askStatic env w = Some (Ok None, w')"
  then obtain v4 v6 w1 where "Ask ''IPv4 address/CIDR (e.g. 203.0.113.7/24)'' (addr_ask ipv4CIDRRE) env w = Some (Ok v4, w1)" "v4 = []"
    unfolding askStatic_def by (auto simp: gbind_eq_Ok ret_def split: if_splits)
  then show False using addr_ask_Ok valid_nonempty(1) by blast
qed

text \<open>The check of an IPv4 address looks at the number of digits only.\<close>

theorem ipv4_range_unchecked: "ipv4CIDRRE ''999.1.1.1/99''"
  by (simp add: ipv4CIDRRE_def ipv4RE_def digits_def is_digit_def less_eq_char_def)

end
