(* ===== verification/Sshauth.thy ===== *)
theory Sshauth
  imports Commands Files
begin

text \<open>
  \<^verbatim>\<open>internal/sshauth/sshauth.go\<close>: the SSH daemon's host keys, configuration and PAM stack on the
  target, and the check of the configuration in a chroot.
\<close>

section \<open>Texts\<close>

definition faillockDeny :: nat where "faillockDeny = 3"
definition faillockUnlockTime :: nat where "faillockUnlockTime = 86400"

definition sshd_lines :: "string list" where
  "sshd_lines =
     [''PasswordAuthentication yes'', ''UsePAM yes'', ''PermitRootLogin no'', [],
      ''MaxAuthTries 3'', ''LoginGraceTime 30'', ''MaxStartups 10:30:60'', [],
      ''ClientAliveInterval 300'', ''ClientAliveCountMax 2'', [],
      ''X11Forwarding no'', [],
      ''Ciphers chacha20-poly1305@openssh.com,aes256-gcm@openssh.com,aes128-gcm@openssh.com,aes256-ctr,aes192-ctr,aes128-ctr'',
      ''MACs hmac-sha2-512-etm@openssh.com,hmac-sha2-256-etm@openssh.com,umac-128-etm@openssh.com'',
      ''KexAlgorithms curve25519-sha256,curve25519-sha256@libssh.org,diffie-hellman-group16-sha512,diffie-hellman-group18-sha512,ecdh-sha2-nistp521,ecdh-sha2-nistp384,ecdh-sha2-nistp256'', [],
      ''LogLevel VERBOSE'']"

definition sshdConf :: string where
  "sshdConf = unlines sshd_lines"

definition faillock_args :: string where
  "faillock_args = ''deny='' @ show_nat faillockDeny @ '' unlock_time='' @ show_nat faillockUnlockTime"

definition pam_lines :: "string list" where
  "pam_lines =
     [''#%PAM-1.0'',
      ''auth       required                     pam_faillock.so preauth silent '' @ faillock_args,
      ''auth       required                     pam_sepermit.so'',
      ''auth       required                     pam_unix.so'',
      ''auth       [default=die]                pam_faillock.so authfail '' @ faillock_args,
      ''auth       required                     pam_faillock.so authsucc '' @ faillock_args,
      ''auth       include      postlogin'',
      ''account    required     pam_faillock.so'',
      ''account    required     pam_nologin.so'',
      ''account    include      password-auth'',
      ''password   include      password-auth'',
      ''session    required     pam_selinux.so close'',
      ''session    required     pam_loginuid.so'',
      ''session    required     pam_selinux.so open env_params'',
      ''session    optional     pam_keyinit.so force revoke'',
      ''session    include      password-auth'',
      ''session    include      postlogin'']"

definition pamSSHD :: string where
  "pamSSHD = unlines pam_lines"

definition mainSSHDConfig :: string where
  "mainSSHDConfig = unlines [''Include /etc/ssh/sshd_config.d/*.conf'']"

section \<open>Operations\<close>

definition GenerateHostKeys :: "string \<Rightarrow> unit go" where
  "GenerateHostKeys root =
     gbind (gwrap ''sshauth: mkdir'' (os_MkdirAll (Join [root, ''etc/ssh'']) 0x1ED)) (\<lambda>_.
     run_step ''sshauth: ssh-keygen -A'' [''ssh-keygen'', ''-A'', ''-f'', root] captured)"

definition writeSSHDConfig :: "string \<Rightarrow> unit go" where
  "writeSSHDConfig root =
     (let dir = Join [root, ''etc/ssh/sshd_config.d''] in
      gbind (gwrap ''sshauth: mkdir'' (os_MkdirAll dir 0x1ED)) (\<lambda>_.
      gbind (gwrap ''sshauth: write'' (os_WriteFile (Join [dir, ''10-slfhst.conf'']) sshdConf 0x1A4)) (\<lambda>_.
      let mainPath = Join [root, ''etc/ssh/sshd_config''] in
      gbind (gtry (os_Stat mainPath)) (\<lambda>res.
      if \<not> isl res then ret ()
      else gwrap ''sshauth: write'' (os_WriteFile mainPath mainSSHDConfig 0x1A4)))))"

definition writePAMStack :: "string \<Rightarrow> unit go" where
  "writePAMStack root =
     (let path = Join [root, ''etc/pam.d/sshd''] in
      gbind (gwrap ''sshauth: mkdir'' (os_MkdirAll (Dir path) 0x1ED)) (\<lambda>_.
      gwrap ''sshauth: write'' (os_WriteFile path pamSSHD 0x1A4)))"

definition ValidateSSHDConfig :: "string \<Rightarrow> unit go" where
  "ValidateSSHDConfig root =
     (let devPath = Join [root, ''dev''] in
      gbind (gwrap ''sshauth: mkdir'' (os_MkdirAll devPath 0x1ED)) (\<lambda>_.
      gbind (run_step ''sshauth: bind-mount /dev'' [''mount'', ''--bind'', ''/dev'', devPath] no_options) (\<lambda>_.
      gdefer (gbind (Run [''umount'', devPath] no_options) (\<lambda>_. ret ()))
        (run_step ''sshauth: sshd -t failed'' [''sshd'', ''-t''] (captured\<lparr>o_Root := root\<rparr>)))))"

definition ssh_Configure :: "string \<Rightarrow> unit go" where
  "ssh_Configure root =
     gbind (GenerateHostKeys root) (\<lambda>_.
     gbind (writeSSHDConfig root) (\<lambda>_.
     gbind (writePAMStack root) (\<lambda>_.
     ValidateSSHDConfig root)))"

section \<open>Lemmas\<close>

text \<open>Whatever the outcome of the check, \<open>/dev\<close> is unmounted again once it was mounted.\<close>

lemma umount_deferred:
  assumes "gdefer (gbind (Run [''umount'', d] no_options) (\<lambda>_. ret ())) m env w = Some (r, w')"
  shows "\<exists>w1. m env w = Some (r, w1) \<and> commands w' = commands w1 @ [[''umount'', d]]"
proof -
  let ?u = "gbind (Run [''umount'', d] no_options) (\<lambda>_. ret ())"
  have u: "q \<noteq> Panic \<and> commands w2 = commands w1 @ [[''umount'', d]]" if "?u env w1 = Some (q, w2)" for q w1 w2
    using that
  proof (cases rule: gbind_SomeE)
    case (Ok x w3)
    then show ?thesis using Run_commands[of "[''umount'', d]" no_options env w1 "outcome.Ok x" w3]
      by (auto simp: ret_def buildArgv_def no_options_def)
  next
    case (Err e)
    then show ?thesis using Run_commands[of "[''umount'', d]" no_options env w1 "outcome.Err e" w2]
      by (auto simp: buildArgv_def no_options_def)
  next
    case Panic
    then show ?thesis using Run_no_panic by auto
  qed
  obtain r1 w1 where m: "m env w = Some (r1, w1)" using assms by (auto simp: gdefer_def split: option.splits prod.splits)
  moreover obtain q w2 where d: "?u env w1 = Some (q, w2)"
    using assms m by (cases "?u env w1") (auto simp: gdefer_def)
  ultimately show ?thesis using assms u[OF d] by (cases q) (auto simp: gdefer_def)
qed

lemma run_step_cases:
  assumes "run_step msg argv opts env w = Some (r, w')" "argv \<noteq> []"
  shows "r \<noteq> Panic \<and> commands w' = commands w @ [buildArgv argv opts]"
proof -
  obtain q w1 where q: "Run argv opts env w = Some (q, w1)" using Run_total by fastforce
  then show ?thesis using assms Run_commands[OF q assms(2)] Run_no_panic
    by (cases q) (auto simp: run_step_def gbind_def gwrap_def ret_def)
qed

section \<open>Properties\<close>



end
