(* ===== verification/Bus.thy ===== *)
theory Bus
  imports World
begin

text \<open>
  The D-Bus client of \<^verbatim>\<open>internal/dbus\<close> as the other packages use it: a connection to the
  system bus is a value that every call returns updated, whether the call succeeds or not.
\<close>

type_synonym handle = "peer \<times> conn"

definition bus_open :: "handle go" where
  "bus_open = (\<lambda>env w.
     let peer = e_peer env (w_trace w); w' = w\<lparr>w_trace := w_trace w @ [EBusDial]\<rparr> in
     case SystemBus (e_fuel env) peer (e_bus_up env (w_trace w)) (e_uid env) of
       None \<Rightarrow> None
     | Some (Ok c) \<Rightarrow> Some (Ok (peer, c), w')
     | Some (Err e) \<Rightarrow> Some (Err (BusErr e), w')
     | Some Panic \<Rightarrow> Some (Panic, w'))"

text \<open>The outcome of a call is a value, so that the caller can go on with the connection.\<close>

definition bus_call :: "handle \<Rightarrow> string \<Rightarrow> string \<Rightarrow> string \<Rightarrow> string \<Rightarrow> string \<Rightarrow> gval list
    \<Rightarrow> string \<Rightarrow> ptr list \<Rightarrow> ((gerr + ptr list) \<times> handle) go" where
  "bus_call h destination path iface meth inSig args outSig dest = (\<lambda>env w.
     let w' = w\<lparr>w_trace := w_trace w @ [EBusCall destination path iface meth args]\<rparr> in
     case Call (e_fuel env) (fst h) (snd h) destination path iface meth inSig args outSig dest of
       None \<Rightarrow> None
     | Some (Ok ps, c) \<Rightarrow> Some (Ok (Inr ps, (fst h, c)), w')
     | Some (Err e, c) \<Rightarrow> Some (Ok (Inl (BusErr e), (fst h, c)), w')
     | Some (Panic, c) \<Rightarrow> Some (Panic, w'))"

lemma bus_open_Ok: "bus_open env w = Some (Ok h, w') \<Longrightarrow> w' = w\<lparr>w_trace := w_trace w @ [EBusDial]\<rparr>"
  by (auto simp: bus_open_def Let_def split: option.splits outcome.splits)

lemma bus_call_Ok:
  "bus_call h destination path iface meth inSig args outSig dest env w = Some (Ok x, w') \<Longrightarrow>
   w' = w\<lparr>w_trace := w_trace w @ [EBusCall destination path iface meth args]\<rparr>"
  by (auto simp: bus_call_def Let_def split: option.splits outcome.splits)

lemma bus_call_no_Err:
  "bus_call h destination path iface meth inSig args outSig dest env w \<noteq> Some (Err e, w')"
  by (auto simp: bus_call_def Let_def split: option.splits outcome.splits)

lemma bus_grows [intro!, grows]: "keeps longer bus_open"
  "keeps longer (bus_call h destination path iface meth inSig args outSig dest)"
  by (auto simp: keeps_def longer_def bus_open_def bus_call_def Let_def split: option.splits outcome.splits)

end
