(* ===== verification/Dnscf.thy ===== *)
theory Dnscf
  imports Config Runx
begin

text \<open>
  \<^verbatim>\<open>internal/dnscf/dnscf.go\<close>: bringing the Cloudflare records of the domain in line with
  this appliance.
\<close>

section \<open>Records\<close>

definition apiBase :: string where "apiBase = ''https://api.cloudflare.com/client/v4''"
definition traceURL :: string where "traceURL = ''https://www.cloudflare.com/cdn-cgi/trace''"

definition subdomains :: "string list" where
  "subdomains = [''mail'', ''vault'', ''photos'', ''auth'', ''locker'', ''api'']"

record dnsRecord =
  ID :: string
  Type :: string
  Name :: string
  Content :: string
  TTL :: int
  Proxied :: bool
  Priority :: "int option"

definition no_record :: dnsRecord where
  "no_record = \<lparr>ID = [], Type = [], Name = [], Content = [], TTL = 0, Proxied = False, Priority = None\<rparr>"

text \<open>The struct as JSON, in field order; \<open>id\<close> and \<open>priority\<close> are left out when empty.\<close>

definition record_json :: "dnsRecord \<Rightarrow> json" where
  "record_json r = JObj (
     (if ID r = [] then [] else [(''id'', JStr (ID r))])
     @ [(''type'', JStr (Type r)), (''name'', JStr (Name r)), (''content'', JStr (Content r)),
        (''ttl'', JNum (show_int (TTL r))), (''proxied'', JBool (Proxied r))]
     @ (case Priority r of None \<Rightarrow> [] | Some p \<Rightarrow> [(''priority'', JNum (show_int p))]))"

definition record_member :: "string \<times> json \<Rightarrow> dnsRecord \<Rightarrow> dnsRecord option" where
  "record_member kv r = (case kv of (k, j) \<Rightarrow>
     let key = to_lower k in
     if key = ''id'' then map_option (\<lambda>s. r\<lparr>ID := s\<rparr>) (dec_string j (ID r))
     else if key = ''type'' then map_option (\<lambda>s. r\<lparr>Type := s\<rparr>) (dec_string j (Type r))
     else if key = ''name'' then map_option (\<lambda>s. r\<lparr>Name := s\<rparr>) (dec_string j (Name r))
     else if key = ''content'' then map_option (\<lambda>s. r\<lparr>Content := s\<rparr>) (dec_string j (Content r))
     else if key = ''ttl'' then map_option (\<lambda>n. r\<lparr>TTL := n\<rparr>) (dec_int j (TTL r))
     else if key = ''proxied'' then map_option (\<lambda>b. r\<lparr>Proxied := b\<rparr>) (dec_bool j (Proxied r))
     else if key = ''priority'' then map_option (\<lambda>p. r\<lparr>Priority := p\<rparr>) (dec_int_ptr j (Priority r))
     else Some r)"

record apiEnvelope =
  Success :: bool
  Errors :: "(int \<times> string) list"

definition error_member :: "string \<times> json \<Rightarrow> int \<times> string \<Rightarrow> (int \<times> string) option" where
  "error_member kv e = (case (kv, e) of ((k, j), (code, msg)) \<Rightarrow>
     if to_lower k = ''code'' then map_option (\<lambda>n. (n, msg)) (dec_int j code)
     else if to_lower k = ''message'' then map_option (\<lambda>s. (code, s)) (dec_string j msg)
     else Some e)"

definition envelope_member :: "string \<times> json \<Rightarrow> apiEnvelope \<Rightarrow> apiEnvelope option" where
  "envelope_member kv e = (case kv of (k, j) \<Rightarrow>
     if to_lower k = ''success'' then map_option (\<lambda>b. e\<lparr>Success := b\<rparr>) (dec_bool j (Success e))
     else if to_lower k = ''errors'' then map_option (\<lambda>es. e\<lparr>Errors := es\<rparr>) (dec_slice (dec_struct error_member (0, [])) j)
     else Some e)"

text \<open>A struct whose only field is \<open>Result\<close>.\<close>

definition result_member :: "(json \<Rightarrow> 'a option) \<Rightarrow> string \<times> json \<Rightarrow> 'a list \<Rightarrow> 'a list option" where
  "result_member dec kv xs = (case kv of (k, j) \<Rightarrow>
     if to_lower k = ''result'' then dec_slice dec j else Some xs)"

section \<open>Requests\<close>

text \<open>One request over HTTP. A request that cannot be built or sent is the environment's refusal.\<close>

definition http_do :: "http_request \<Rightarrow> http_response go" where
  "http_do req = (\<lambda>env w.
     let w' = w\<lparr>w_trace := w_trace w @ [EHttp req]\<rparr> in
     case e_http env (w_trace w) req of
       None \<Rightarrow> Some (Err (Msg ''http''), w')
     | Some resp \<Rightarrow> Some (Ok resp, w'))"

fun scan_ip :: "bool \<Rightarrow> string list \<Rightarrow> (gerr, string) outcome" where
  "scan_ip read_ok [] =
     (if read_ok then Err (Msg ''dnscf: no ip= line in trace response'') else Err (Msg ''dnscf: read trace response''))"
| "scan_ip read_ok (l # ls) =
     (if 65536 \<le> length l then Err (Msg ''dnscf: read trace response'')
      else case cut_prefix (drop_cr l) ''ip='' of
        (ip, True) \<Rightarrow> Ok ip
      | (_, False) \<Rightarrow> scan_ip read_ok ls)"

definition PublicIP :: "string go" where
  "PublicIP =
     gbind (gwrap ''dnscf: fetch'' (http_do \<lparr>h_method = ''GET'', h_url = traceURL, h_token = [], h_body = None\<rparr>)) (\<lambda>resp.
     of_outcome (scan_ip (h_read_ok resp) (raw_lines (h_data resp))))"

definition request :: "string \<Rightarrow> string \<Rightarrow> string \<Rightarrow> json option \<Rightarrow> (json \<Rightarrow> 'a option) \<Rightarrow> 'a go" where
  "request meth path token body out =
     gbind (gwrap ''dnscf: request'' (http_do \<lparr>h_method = meth, h_url = apiBase @ path, h_token = token,
       h_body = map_option (print_json False 0) body\<rparr>)) (\<lambda>resp.
     if \<not> h_read_ok resp then fail (Msg ''dnscf: read response'')
     else if 400 \<le> h_status resp then fail (Msg (''dnscf: HTTP '' @ show_nat (h_status resp) @ '': '' @ h_data resp))
     else case Unmarshal (h_data resp) of
       None \<Rightarrow> fail (Wrap ''dnscf: parse envelope'' (JsonErr (h_data resp)))
     | Some j \<Rightarrow> (case dec_struct envelope_member \<lparr>Success = False, Errors = []\<rparr> j of
         None \<Rightarrow> fail (Wrap ''dnscf: parse envelope'' (JsonErr (h_data resp)))
       | Some e \<Rightarrow>
         if \<not> Success e then fail (Msg ''dnscf: API reported failure'')
         else (case out j of
           None \<Rightarrow> fail (Wrap ''dnscf: parse result'' (JsonErr (h_data resp)))
         | Some x \<Rightarrow> ret x)))"

text \<open>\<open>url.QueryEscape\<close>.\<close>

definition upper_hex :: "nat \<Rightarrow> char" where
  "upper_hex n = char_of (if n < 10 then 48 + n else 55 + n)"

definition query_char :: "char \<Rightarrow> string" where
  "query_char c =
     (if is_digit c \<or> (CHR ''a'' \<le> c \<and> c \<le> CHR ''z'') \<or> (CHR ''A'' \<le> c \<and> c \<le> CHR ''Z'') \<or> c \<in> set ''-_.~'' then [c]
      else if c = CHR 0x20 then ''+''
      else let n = of_char c in [CHR 0x25, upper_hex (n div 16), upper_hex (n mod 16)])"

definition QueryEscape :: "string \<Rightarrow> string" where
  "QueryEscape s = concat (map query_char s)"

text \<open>The anonymous structs the answers are decoded into.\<close>

definition zone_member :: "string \<times> json \<Rightarrow> string \<Rightarrow> string option" where
  "zone_member kv s = (case kv of (k, j) \<Rightarrow> if to_lower k = ''id'' then dec_string j s else Some s)"

definition zone_ids :: "json \<Rightarrow> string list option" where
  "zone_ids j = dec_struct (result_member (dec_struct zone_member [])) [] j"

definition zone_records :: "json \<Rightarrow> dnsRecord list option" where
  "zone_records j = dec_struct (result_member (dec_struct record_member no_record)) [] j"

definition zoneID :: "string \<Rightarrow> string \<Rightarrow> string go" where
  "zoneID domain token =
     gbind (request ''GET'' (''/zones?name='' @ QueryEscape domain) token None zone_ids) (\<lambda>ids.
     case ids of
       [] \<Rightarrow> fail (Msg ''dnscf: no Cloudflare zone found for domain'')
     | z # _ \<Rightarrow> ret z)"

definition existingRecords :: "string \<Rightarrow> string \<Rightarrow> dnsRecord list go" where
  "existingRecords zone token =
     request ''GET'' (''/zones/'' @ zone @ ''/dns_records?per_page=200'') token None zone_records"

fun samePriority :: "int option \<Rightarrow> int option \<Rightarrow> bool" where
  "samePriority (Some a) (Some b) = (a = b)"
| "samePriority None None = True"
| "samePriority _ _ = False"

definition same_slot :: "dnsRecord \<Rightarrow> dnsRecord \<Rightarrow> bool" where
  "same_slot rec e = (Type e = Type rec \<and> Name e = Name rec \<and> samePriority (Priority e) (Priority rec))"

definition upsert :: "string \<Rightarrow> string \<Rightarrow> dnsRecord list \<Rightarrow> dnsRecord \<Rightarrow> unit go" where
  "upsert zone token existing rec = (case find (same_slot rec) existing of
     Some e \<Rightarrow>
       if Content e = Content rec \<and> Proxied e = Proxied rec then ret ()
       else request ''PUT'' (''/zones/'' @ zone @ ''/dns_records/'' @ ID e) token (Some (record_json rec)) (\<lambda>_. Some ())
   | None \<Rightarrow> request ''POST'' (''/zones/'' @ zone @ ''/dns_records'') token (Some (record_json rec)) (\<lambda>_. Some ()))"

definition stalwartDKIMTXT :: "cfg \<Rightarrow> string option" where
  "stalwartDKIMTXT cfg = None"

section \<open>Sync\<close>

definition mk_rec :: "string \<Rightarrow> string \<Rightarrow> string \<Rightarrow> bool \<Rightarrow> int option \<Rightarrow> dnsRecord" where
  "mk_rec t n c p prio = \<lparr>ID = [], Type = t, Name = n, Content = c, TTL = 1, Proxied = p, Priority = prio\<rparr>"

definition Sync :: "store \<Rightarrow> unit go" where
  "Sync s =
     gbind (RequireDone s ''stage1'') (\<lambda>_.
     gbind (Load s) (\<lambda>cfg.
     let domain = cfg_str cfg ''domain''; token = cfg_str cfg ''cloudflare_api_token'';
         alertEmail = cfg_str cfg ''alert_email'' in
     if domain = [] \<or> token = [] then fail (Msg ''dnscf: config.json is missing domain/cloudflare_api_token'')
     else
       gbind PublicIP (\<lambda>ip.
       gbind (zoneID domain token) (\<lambda>zone.
       gbind (existingRecords zone token) (\<lambda>existing.
       gbind (gforeach subdomains (\<lambda>sub.
         upsert zone token existing (mk_rec ''A'' (sub @ ''.'' @ domain) ip True None))) (\<lambda>_.
       gbind (upsert zone token existing (mk_rec ''A'' (''smtp.'' @ domain) ip False None)) (\<lambda>_.
       gbind (upsert zone token existing (mk_rec ''MX'' domain (''smtp.'' @ domain) False (Some 10))) (\<lambda>_.
       gbind (upsert zone token existing (mk_rec ''TXT'' domain ''v=spf1 mx ~all'' False None)) (\<lambda>_.
       gbind (if alertEmail \<noteq> [] then
           upsert zone token existing (mk_rec ''TXT'' (''_dmarc.'' @ domain)
             (''v=DMARC1; p=quarantine; rua=mailto:'' @ alertEmail) False None)
         else ret ()) (\<lambda>_.
       case stalwartDKIMTXT cfg of
         Some dkim \<Rightarrow> upsert zone token existing (mk_rec ''TXT'' (''default._domainkey.'' @ domain) dkim False None)
       | None \<Rightarrow> println ''warning: dnscf: no DKIM key available yet -- add default._domainkey TXT manually''))))))))))"

section \<open>What a zone becomes\<close>

text \<open>The key a record is looked up by, and what \<open>upsert\<close> decides to do.\<close>

definition slot :: "dnsRecord \<Rightarrow> string \<times> string \<times> int option" where
  "slot r = (Type r, Name r, Priority r)"

datatype dns_action = Keep | Put string dnsRecord | Post dnsRecord

definition action :: "dnsRecord list \<Rightarrow> dnsRecord \<Rightarrow> dns_action" where
  "action existing r = (case find (same_slot r) existing of
     None \<Rightarrow> Post r
   | Some e \<Rightarrow> if Content e = Content r \<and> Proxied e = Proxied r then Keep else Put (ID e) r)"

fun write_requests :: "string \<Rightarrow> string \<Rightarrow> dns_action \<Rightarrow> http_request list" where
  "write_requests zone token Keep = []"
| "write_requests zone token (Put i r) =
     [\<lparr>h_method = ''PUT'', h_url = apiBase @ ''/zones/'' @ zone @ ''/dns_records/'' @ i, h_token = token,
       h_body = Some (print_json False 0 (record_json r))\<rparr>]"
| "write_requests zone token (Post r) =
     [\<lparr>h_method = ''POST'', h_url = apiBase @ ''/zones/'' @ zone @ ''/dns_records'', h_token = token,
       h_body = Some (print_json False 0 (record_json r))\<rparr>]"

text \<open>What the service promises to do with these requests: \<open>PUT\<close> replaces the record with that identifier,
  \<open>POST\<close> adds one under an identifier of its choice.\<close>

fun apply_action :: "(dnsRecord list \<Rightarrow> string) \<Rightarrow> dns_action \<Rightarrow> dnsRecord list \<Rightarrow> dnsRecord list" where
  "apply_action fresh Keep Z = Z"
| "apply_action fresh (Put i r) Z = map (\<lambda>e. if ID e = i then r\<lparr>ID := i\<rparr> else e) Z"
| "apply_action fresh (Post r) Z = Z @ [r\<lparr>ID := fresh Z\<rparr>]"

definition zone_after :: "(dnsRecord list \<Rightarrow> string) \<Rightarrow> dnsRecord list \<Rightarrow> dnsRecord list \<Rightarrow> dnsRecord list \<Rightarrow> dnsRecord list" where
  "zone_after fresh existing ds Z = fold (\<lambda>r. apply_action fresh (action existing r)) ds Z"

lemma samePriority_eq: "samePriority a b \<longleftrightarrow> a = b"
  by (cases "(a, b)" rule: samePriority.cases) auto

lemma same_slot_eq: "same_slot r e \<longleftrightarrow> slot e = slot r"
  by (auto simp: same_slot_def slot_def samePriority_eq)

lemma upsert_action:
  "upsert zone token existing r = (case action existing r of
     Keep \<Rightarrow> ret ()
   | Put i r \<Rightarrow> request ''PUT'' (''/zones/'' @ zone @ ''/dns_records/'' @ i) token (Some (record_json r)) (\<lambda>_. Some ())
   | Post r \<Rightarrow> request ''POST'' (''/zones/'' @ zone @ ''/dns_records'') token (Some (record_json r)) (\<lambda>_. Some ()))"
  by (simp add: upsert_def action_def split: option.split)

lemma find_map: "find P (map f xs) = map_option f (find (\<lambda>x. P (f x)) xs)"
  by (induction xs) auto

lemma find_append: "find P (xs @ ys) = (case find P xs of None \<Rightarrow> find P ys | Some x \<Rightarrow> Some x)"
  by (induction xs) auto

lemma find_cong': "(\<And>x. x \<in> set xs \<Longrightarrow> P x = Q x) \<Longrightarrow> find P xs = find Q xs"
  by (induction xs) auto

text \<open>One write leaves the lookups of every other key alone and settles its own.\<close>

lemma apply_action_find:
  assumes "find (same_slot r) Z = find (same_slot r) existing" "distinct (map ID Z)" "\<forall>Z. fresh Z \<notin> ID ` set Z"
  defines "Z' \<equiv> apply_action fresh (action existing r) Z"
  shows "action Z' r = Keep" "distinct (map ID Z')"
    "slot r' \<noteq> slot r \<Longrightarrow> find (same_slot r') Z' = find (same_slot r') Z"
    "e \<in> set Z \<Longrightarrow> slot e \<noteq> slot r \<Longrightarrow> e \<in> set Z'"
proof -
  have "action Z' r = Keep \<and> distinct (map ID Z') \<and>
    (slot r' \<noteq> slot r \<longrightarrow> find (same_slot r') Z' = find (same_slot r') Z) \<and> (e \<in> set Z \<and> slot e \<noteq> slot r \<longrightarrow> e \<in> set Z')"
  proof (cases "find (same_slot r) existing")
    case None
    then have Z': "Z' = Z @ [r\<lparr>ID := fresh Z\<rparr>]" by (simp add: Z'_def action_def)
    have "same_slot r'' (r\<lparr>ID := fresh Z\<rparr>) \<longleftrightarrow> slot r'' = slot r" for r'' by (auto simp: same_slot_eq slot_def)
    then show ?thesis using None assms(1-3) by (auto simp: Z' action_def find_append split: option.split)
  next
    case (Some e0)
    then have e0: "find (same_slot r) Z = Some e0" using assms(1) by simp
    then have mem: "e0 \<in> set Z" "slot e0 = slot r" by (auto simp: find_Some_iff same_slot_eq)
    show ?thesis
    proof (cases "Content e0 = Content r \<and> Proxied e0 = Proxied r")
      case True
      then show ?thesis using Some e0 assms(2) by (simp add: Z'_def action_def)
    next
      case False
      let ?f = "\<lambda>x. if ID x = ID e0 then r\<lparr>ID := ID e0\<rparr> else x"
      have Z': "Z' = map ?f Z" using Some False by (auto simp: Z'_def action_def)
      have one: "x = e0" if "x \<in> set Z" "ID x = ID e0" for x
        using assms(2) that mem(1) by (auto simp: distinct_map inj_on_def)
      have slot: "slot (?f x) = slot x" if "x \<in> set Z" for x using one[OF that] mem(2) by (auto simp: slot_def)
      have look: "find (same_slot r'') Z' = map_option ?f (find (same_slot r'') Z)" for r''
        unfolding Z' find_map by (rule arg_cong[where f = "map_option ?f"], rule find_cong') (simp add: same_slot_eq slot)
      have other: "find (same_slot r') Z' = find (same_slot r') Z" if "slot r' \<noteq> slot r"
      proof (cases "find (same_slot r') Z")
        case (Some x)
        then have "x \<in> set Z" "slot x = slot r'" by (auto simp: find_Some_iff same_slot_eq)
        then have "ID x \<noteq> ID e0" using one[of x] mem(2) that by auto
        then show ?thesis using look[of r'] Some by simp
      qed (simp add: look)
      have "action Z' r = Keep" using look[of r] e0 by (simp add: action_def)
      moreover have "map ID Z' = map ID Z" by (simp add: Z')
      moreover have "e \<in> set Z'" if "e \<in> set Z" "slot e \<noteq> slot r"
      proof -
        have "ID e \<noteq> ID e0" using one[OF that(1)] that(2) mem(2) by auto
        then show ?thesis using that(1) by (auto simp: Z' intro!: image_eqI[of _ _ e])
      qed
      ultimately show ?thesis using other assms(2) by metis
    qed
  qed
  then show "action Z' r = Keep" "distinct (map ID Z')"
    "slot r' \<noteq> slot r \<Longrightarrow> find (same_slot r') Z' = find (same_slot r') Z"
    "e \<in> set Z \<Longrightarrow> slot e \<noteq> slot r \<Longrightarrow> e \<in> set Z'" by blast+
qed

lemma action_cong: "find (same_slot r) Z = find (same_slot r) Z' \<Longrightarrow> action Z r = action Z' r"
  by (simp add: action_def)

lemma zone_after_settled:
  assumes "\<forall>Z. fresh Z \<notin> ID ` set Z" "distinct (map slot ds)" "distinct (map ID Z)"
    "\<forall>r\<in>set ds. find (same_slot r) Z = find (same_slot r) existing"
  shows "(\<forall>r\<in>set ds. action (zone_after fresh existing ds Z) r = Keep) \<and>
    (\<forall>r. slot r \<notin> slot ` set ds \<longrightarrow> find (same_slot r) (zone_after fresh existing ds Z) = find (same_slot r) Z) \<and>
    (\<forall>e\<in>set Z. slot e \<notin> slot ` set ds \<longrightarrow> e \<in> set (zone_after fresh existing ds Z))"
  using assms(2-)
proof (induction ds arbitrary: Z)
  case (Cons r ds)
  let ?Z = "apply_action fresh (action existing r) Z"
  note st = apply_action_find[OF _ Cons.prems(2) assms(1), of r existing]
  have z: "zone_after fresh existing (r # ds) Z = zone_after fresh existing ds ?Z" by (simp add: zone_after_def)
  have r: "find (same_slot r) Z = find (same_slot r) existing" using Cons.prems(3) by simp
  have "\<forall>q\<in>set ds. find (same_slot q) ?Z = find (same_slot q) existing"
    using Cons.prems(1,3) st(3)[OF r] by (metis image_eqI list.set_map distinct.simps(2) list.simps(9) list.set_intros(2))
  from Cons.IH[OF _ st(2)[OF r] this] Cons.prems(1)
  have IH: "\<forall>q\<in>set ds. action (zone_after fresh existing ds ?Z) q = Keep"
    "\<And>q. slot q \<notin> slot ` set ds \<Longrightarrow> find (same_slot q) (zone_after fresh existing ds ?Z) = find (same_slot q) ?Z"
    "\<And>e. e \<in> set ?Z \<Longrightarrow> slot e \<notin> slot ` set ds \<Longrightarrow> e \<in> set (zone_after fresh existing ds ?Z)" by auto
  have "slot r \<notin> slot ` set ds" using Cons.prems(1) by simp
  then have "action (zone_after fresh existing ds ?Z) r = Keep"
    using action_cong[OF IH(2)] st(1)[OF r] by simp
  moreover have "find (same_slot q) (zone_after fresh existing ds ?Z) = find (same_slot q) Z"
    if "slot q \<notin> slot ` set (r # ds)" for q
    using IH(2)[of q] st(3)[OF r, of q] that by simp
  moreover have "e \<in> set (zone_after fresh existing ds ?Z)" if "e \<in> set Z" "slot e \<notin> slot ` set (r # ds)" for e
    using IH(3)[of e] st(4)[OF r that(1)] that(2) by simp
  ultimately show ?case using IH(1) unfolding z by simp
qed (simp add: zone_after_def)


section \<open>The requests Sync makes\<close>

definition desired :: "cfg \<Rightarrow> string \<Rightarrow> dnsRecord list" where
  "desired cfg ip = (let domain = cfg_str cfg ''domain''; alertEmail = cfg_str cfg ''alert_email'' in
     map (\<lambda>sub. mk_rec ''A'' (sub @ ''.'' @ domain) ip True None) subdomains
     @ [mk_rec ''A'' (''smtp.'' @ domain) ip False None, mk_rec ''MX'' domain (''smtp.'' @ domain) False (Some 10),
        mk_rec ''TXT'' domain ''v=spf1 mx ~all'' False None]
     @ (if alertEmail = [] then []
        else [mk_rec ''TXT'' (''_dmarc.'' @ domain) (''v=DMARC1; p=quarantine; rua=mailto:'' @ alertEmail) False None]))"

lemma desired_slots: "distinct (map slot (desired cfg ip))"
  by (auto simp: desired_def Let_def subdomains_def slot_def mk_rec_def)

lemma request_Ok:
  "request meth path token body out env w = Some (Ok x, w') \<Longrightarrow>
   w' = w\<lparr>w_trace := w_trace w @ [EHttp \<lparr>h_method = meth, h_url = apiBase @ path, h_token = token,
     h_body = map_option (print_json False 0) body\<rparr>]\<rparr>"
  by (auto simp: request_def gbind_eq_Ok gwrap_eq_Ok http_do_def ret_def fail_def Let_def split: option.splits if_splits)

lemma upsert_Ok:
  "upsert zone token existing r env w = Some (Ok x, w') \<Longrightarrow>
   w' = w\<lparr>w_trace := w_trace w @ map EHttp (write_requests zone token (action existing r))\<rparr>"
  by (auto simp: upsert_action ret_def dest!: request_Ok split: dns_action.splits)

lemma upserts_Ok:
  "gforeach rs (upsert zone token existing) env w = Some (Ok x, w') \<Longrightarrow>
   w' = w\<lparr>w_trace := w_trace w @ map EHttp (concat (map (\<lambda>r. write_requests zone token (action existing r)) rs))\<rparr>"
proof (induction rs arbitrary: w)
  case (Cons r rs)
  then obtain w1 where w1: "upsert zone token existing r env w = Some (Ok (), w1)"
    "gforeach rs (upsert zone token existing) env w1 = Some (Ok x, w')"
    by (auto simp: gforeach_Ok simp del: gforeach.simps)
  show ?case using Cons.IH[OF w1(2)] upsert_Ok[OF w1(1)] by simp
qed (simp add: ret_def)

lemma writes_eq:
  assumes "domain = cfg_str cfg ''domain''"
  shows "gbind (gforeach subdomains (\<lambda>sub. upsert zone token existing (mk_rec ''A'' (sub @ ''.'' @ domain) ip True None))) (\<lambda>_.
     gbind (upsert zone token existing (mk_rec ''A'' (''smtp.'' @ domain) ip False None)) (\<lambda>_.
     gbind (upsert zone token existing (mk_rec ''MX'' domain (''smtp.'' @ domain) False (Some 10))) (\<lambda>_.
     gbind (upsert zone token existing (mk_rec ''TXT'' domain ''v=spf1 mx ~all'' False None)) (\<lambda>_.
     gbind (if cfg_str cfg ''alert_email'' \<noteq> [] then
         upsert zone token existing (mk_rec ''TXT'' (''_dmarc.'' @ domain)
           (''v=DMARC1; p=quarantine; rua=mailto:'' @ cfg_str cfg ''alert_email'') False None)
       else ret ()) (\<lambda>_. k)))))
   = gbind (gforeach (desired cfg ip) (upsert zone token existing)) (\<lambda>_. k)"
  unfolding assms
  by (cases "cfg_str cfg ''alert_email'' = []")
    (simp_all add: desired_def Let_def gforeach_append gforeach_map gbind_assoc gbind_ret)

lemma Sync_unfold:
  "Sync s = gbind (RequireDone s ''stage1'') (\<lambda>_. gbind (Load s) (\<lambda>cfg.
     let domain = cfg_str cfg ''domain''; token = cfg_str cfg ''cloudflare_api_token'' in
     if domain = [] \<or> token = [] then fail (Msg ''dnscf: config.json is missing domain/cloudflare_api_token'')
     else gbind PublicIP (\<lambda>ip. gbind (zoneID domain token) (\<lambda>zone. gbind (existingRecords zone token) (\<lambda>existing.
       gbind (gforeach (desired cfg ip) (upsert zone token existing)) (\<lambda>_.
       println ''warning: dnscf: no DKIM key available yet -- add default._domainkey TXT manually''))))))"
  by (simp only: Sync_def Let_def writes_eq[OF HOL.refl] stalwartDKIMTXT_def option.case)

lemma PublicIP_trace: "PublicIP env w = Some (Ok ip, w') \<Longrightarrow>
  w_trace w' = w_trace w @ [EHttp \<lparr>h_method = ''GET'', h_url = traceURL, h_token = [], h_body = None\<rparr>]"
  by (auto simp: PublicIP_def gbind_eq_Ok gwrap_eq_Ok http_do_def of_outcome_def Let_def split: option.splits)

definition api_get :: "string \<Rightarrow> string \<Rightarrow> http_request" where
  "api_get path token = \<lparr>h_method = ''GET'', h_url = apiBase @ path, h_token = token, h_body = None\<rparr>"

lemma zoneID_trace: "zoneID d token env w = Some (Ok z, w') \<Longrightarrow>
  w_trace w' = w_trace w @ [EHttp (api_get (''/zones?name='' @ QueryEscape d) token)]"
  unfolding zoneID_def gbind_eq_Ok
proof (elim exE conjE)
  fix ids w1 assume r: "(case ids of [] \<Rightarrow> fail (Msg ''dnscf: no Cloudflare zone found for domain'') | z # _ \<Rightarrow> ret z) env w1 = Some (Ok z, w')"
    and q: "request ''GET'' (''/zones?name='' @ QueryEscape d) token None zone_ids env w = Some (Ok ids, w1)"
  show ?thesis using r request_Ok[OF q] by (cases ids) (auto simp: api_get_def ret_def fail_def)
qed

lemma existingRecords_trace: "existingRecords z token env w = Some (Ok rs, w') \<Longrightarrow>
  w_trace w' = w_trace w @ [EHttp (api_get (''/zones/'' @ z @ ''/dns_records?per_page=200'') token)]"
  by (auto simp: existingRecords_def api_get_def dest!: request_Ok)

text \<open>A service that answers every request with success and one zone, for the examples.\<close>

definition cf_reply :: json where
  "cf_reply = JObj [(''success'', JBool True), (''result'', JArr [JObj [(''id'', JStr ''z'')]])]"

definition cf_env :: env where
  "cf_env = quiet_env\<lparr>e_http := (\<lambda>_ req. Some \<lparr>h_status = 200,
     h_data = if h_url req = traceURL then ''ip=1.2.3.4'' else print_json False 0 cf_reply, h_read_ok = True\<rparr>)\<rparr>"

definition cf_cfg :: cfg where
  "cf_cfg = GoMap [(''cloudflare_api_token'', JStr ''t''), (''domain'', JStr ''a.org'')]"

definition cf_world :: world where
  "cf_world = empty_world\<lparr>w_fs := [(markerPath \<lparr>Root = []\<rparr> ''stage1'', NFile 0x1A4 (0, 0) []),
     (ConfigFile, NFile 0x180 (0, 0) (cfg_text cf_cfg))]\<rparr>"

lemma api_not_trace: "apiBase @ p \<noteq> traceURL"
  by (simp add: apiBase_def traceURL_def)

lemma cf_request:
  assumes "out cf_reply = Some x"
  shows "\<exists>w'. request meth path token body out cf_env w = Some (Ok x, w') \<and> w_fs w' = w_fs w"
proof -
  have "Unmarshal (print_json False 0 cf_reply) = Some cf_reply"
    using Unmarshal_print[of cf_reply "[]" False 0] by (simp add: cf_reply_def)
  moreover have "dec_struct envelope_member \<lparr>Success = False, Errors = []\<rparr> cf_reply = Some \<lparr>Success = True, Errors = []\<rparr>"
    by (simp add: cf_reply_def dec_struct_def envelope_member_def to_lower_def lower_char_def less_eq_char_def dec_bool_def)
  ultimately show ?thesis using assms api_not_trace[of path]
    by (simp add: request_def gbind_def gwrap_def http_do_def cf_env_def ret_def Let_def)
qed

lemma cf_upserts: "\<exists>w'. gforeach rs (upsert zone token existing) cf_env w = Some (Ok (), w')"
proof (induction rs arbitrary: w)
  case (Cons r rs)
  have "\<exists>w'. upsert zone token existing r cf_env w = Some (Ok (), w')"
    using cf_request[where out = "\<lambda>_. Some ()" and x = "()"]
    by (cases "action existing r") (force simp: upsert_action ret_def)+
  then show ?case using Cons.IH by (auto simp: gbind_def)
qed (simp add: ret_def)

section \<open>Properties\<close>





text \<open>Any \<open>TXT\<close> record at the apex of the domain counts as the SPF record: when the first one listed is
  somebody's site verification, \<open>Sync\<close> replaces it and the text is lost.\<close>

theorem spf_replaces_verification:
  "upsert zone token (mk_rec ''TXT'' domain ''google-site-verification=1'' False None\<lparr>ID := i\<rparr> # rest)
      (mk_rec ''TXT'' domain ''v=spf1 mx ~all'' False None) =
    request ''PUT'' (''/zones/'' @ zone @ ''/dns_records/'' @ i) token
      (Some (record_json (mk_rec ''TXT'' domain ''v=spf1 mx ~all'' False None))) (\<lambda>_. Some ())"
  by (simp add: upsert_def same_slot_def mk_rec_def)

end
