(* ===== verification/Firewall.thy ===== *)
theory Firewall
  imports Bus GoPath Runx Dnscf
begin

text \<open>
  \<^verbatim>\<open>internal/firewall/firewall.go\<close> and \<^verbatim>\<open>internal/firewall/preboot.go\<close>: the
  Cloudflare address sets on the live system and the firewall configuration the installer writes.
\<close>

section \<open>Address lists\<close>

definition fw_busName :: string where "fw_busName = ''org.fedoraproject.FirewallD1''"
definition rootPath :: string where "rootPath = ''/org/fedoraproject/FirewallD1''"
definition configPath :: string where "configPath = ''/org/fedoraproject/FirewallD1/config''"
definition rootIface :: string where "rootIface = ''org.fedoraproject.FirewallD1''"
definition configIface :: string where "configIface = ''org.fedoraproject.FirewallD1.config''"
definition ipsetIface :: string where "ipsetIface = ''org.fedoraproject.FirewallD1.config.ipset''"
definition cfIPListDir :: string where "cfIPListDir = ''usr/share/slfhst/cloudflare-ips''"
definition cfIPSetV4 :: string where "cfIPSetV4 = ''cloudflare-v4''"
definition cfIPSetV6 :: string where "cfIPSetV6 = ''cloudflare-v6''"

definition cfIPSets :: "(string \<times> string \<times> string) list" where
  "cfIPSets = [(cfIPSetV4, ''v4.txt'', ''inet''), (cfIPSetV6, ''v6.txt'', ''inet6'')]"

fun cidr_lines :: "string list \<Rightarrow> (gerr, string list) outcome" where
  "cidr_lines [] = Ok []"
| "cidr_lines (l # ls) =
     (if 65536 \<le> length l then Err (Msg ''bufio.Scanner: token too long'')
      else obind (cidr_lines ls) (\<lambda>out.
        let line = trim_space (drop_cr l) in Ok (if line \<noteq> [] then line # out else out)))"

definition readCIDRList :: "string \<Rightarrow> string list go" where
  "readCIDRList path = gbind (os_ReadFile path) (\<lambda>data. of_outcome (cidr_lines (raw_lines data)))"

section \<open>The live firewall\<close>

definition ipset_settings :: "string \<Rightarrow> gval" where
  "ipset_settings family = VSlice [VString [], VString [], VString [], VString ''hash:net'',
     VMap [(''family'', VString family)], VStrings []]"

definition path_out :: "ptr list \<Rightarrow> string" where
  "path_out ps = (case ps of [PString s] \<Rightarrow> s | _ \<Rightarrow> [])"

text \<open>Only an error reply means that the set is missing; any other failure is passed on.\<close>

definition ensureIPSet :: "handle \<Rightarrow> string \<Rightarrow> string \<Rightarrow> (string \<times> handle) go" where
  "ensureIPSet c name family =
     gbind (bus_call c fw_busName configPath configIface ''getIPSetByName'' ''s'' [VString name] ''o'' [PString []]) (\<lambda>(res, c').
     case res of
       Inr ps \<Rightarrow> ret (path_out ps, c')
     | Inl err \<Rightarrow>
       (case err of
          BusErr (CallError _ _) \<Rightarrow>
            gbind (bus_call c' fw_busName configPath configIface ''addIPSet'' ''s(ssssa{ss}as)''
              [VString name, ipset_settings family] ''o'' [PString []]) (\<lambda>(res2, c'').
            case res2 of
              Inr ps \<Rightarrow> ret (path_out ps, c'')
            | Inl e \<Rightarrow> fail (Wrap ''addIPSet'' e))
        | _ \<Rightarrow> fail err))"

definition sync_set :: "string \<times> string \<times> string \<Rightarrow> handle \<Rightarrow> handle go" where
  "sync_set spec c = (case spec of (name, file, family) \<Rightarrow>
     gbind (gwrap ''firewall: read'' (readCIDRList (Join [''/'', cfIPListDir, file]))) (\<lambda>ranges.
     gbind (gwrap ''firewall: ensure ipset'' (ensureIPSet c name family)) (\<lambda>(path, c').
     gbind (bus_call c' fw_busName path ipsetIface ''setEntries'' ''as'' [VStrings ranges] [] []) (\<lambda>(res, c'').
     case res of
       Inl e \<Rightarrow> fail (Wrap ''firewall: setEntries'' e)
     | Inr _ \<Rightarrow> ret c''))))"

definition SyncCloudflareIPSets :: "unit go" where
  "SyncCloudflareIPSets =
     gbind (gwrap ''firewall'' bus_open) (\<lambda>c.
     gbind (gfold cfIPSets sync_set c) (\<lambda>c'.
     gbind (bus_call c' fw_busName rootPath rootIface ''reload'' [] [] [] []) (\<lambda>(res, _).
     case res of
       Inl e \<Rightarrow> fail (Wrap ''firewall: reload'' e)
     | Inr _ \<Rightarrow> ret ())))"

section \<open>The configuration written before the first boot\<close>

definition mailForwards :: "(nat \<times> nat) list" where
  "mailForwards = [(25, 2525), (465, 4465), (993, 4993)]"

definition manageSievePort :: nat where "manageSievePort = 4190"
definition webPublicPort :: nat where "webPublicPort = 443"
definition webPrivatePort :: nat where "webPrivatePort = 8443"

definition mailRateLimits :: "(nat \<times> string) list" where
  "mailRateLimits = [(25, ''20/m''), (465, ''20/m''), (993, ''20/m''), (manageSievePort, ''20/m'')]"

definition sshPort :: nat where "sshPort = 22"
definition sshRateLimit :: string where "sshRateLimit = ''10/m''"

text \<open>Text in double quotes.\<close>

definition dq :: "string \<Rightarrow> string" where
  "dq s = [CHR 0x22] @ s @ [CHR 0x22]"

definition xml_head :: string where
  "xml_head = ''<?xml version='' @ dq ''1.0'' @ '' encoding='' @ dq ''utf-8'' @ ''?>''"

definition ipset_xml :: "string \<Rightarrow> string list \<Rightarrow> string" where
  "ipset_xml family entries = unlines (
     [xml_head, ''<ipset type='' @ dq ''hash:net'' @ ''>'',
      ''  <option name='' @ dq ''family'' @ '' value='' @ dq family @ ''/>'']
     @ map (\<lambda>entry. ''  <entry>'' @ entry @ ''</entry>'') entries
     @ [''</ipset>''])"

definition writeIPSetXML :: "string \<Rightarrow> string \<Rightarrow> string \<Rightarrow> string list \<Rightarrow> unit go" where
  "writeIPSetXML root name family entries =
     (let path = Join [root, ''etc/firewalld/ipsets'', name @ ''.xml''] in
      gbind (gwrap ''firewall: mkdir'' (os_MkdirAll (Dir path) 0x1E8)) (\<lambda>_.
      gwrap ''firewall: write'' (os_WriteFile path (ipset_xml family entries) 0x1A4)))"

definition port_line :: "string \<Rightarrow> nat \<Rightarrow> string" where
  "port_line indent p = indent @ ''<port port='' @ dq (show_nat p) @ '' protocol='' @ dq ''tcp'' @ ''/>''"

definition forward_line :: "nat \<Rightarrow> nat \<Rightarrow> string" where
  "forward_line p q = ''  <forward-port port='' @ dq (show_nat p) @ '' protocol='' @ dq ''tcp'' @ '' to-port='' @ dq (show_nat q) @ ''/>''"

definition limit_rule :: "string \<Rightarrow> nat \<Rightarrow> string \<Rightarrow> string list" where
  "limit_rule family port limit =
     [''  <rule family='' @ dq family @ '' priority='' @ dq ''-10'' @ ''>'', port_line ''    '' port,
      ''    <accept>'', ''      <limit value='' @ dq limit @ ''/>'', ''    </accept>'', ''  </rule>'']"

definition zone_xml :: string where
  "zone_xml = unlines (
     [xml_head, ''<zone>'', ''  <short>Public</short>'',
      ''  <description>slfhst: public zone, ports scoped to what this appliance actually serves.</description>'']
     @ concat (map (\<lambda>(public, private). [port_line ''  '' public, forward_line public private]) mailForwards)
     @ [port_line ''  '' manageSievePort, forward_line webPublicPort webPrivatePort]
     @ concat (map (\<lambda>(family, ipset).
         [''  <rule family='' @ dq family @ ''>'', ''    <source ipset='' @ dq ipset @ ''/>'', port_line ''    '' webPrivatePort,
          ''    <accept/>'', ''  </rule>'']) [(''ipv4'', cfIPSetV4), (''ipv6'', cfIPSetV6)])
     @ concat (map (\<lambda>family.
         limit_rule family sshPort sshRateLimit
         @ concat (map (\<lambda>(port, limit). limit_rule family port limit) mailRateLimits)) [''ipv4'', ''ipv6''])
     @ [''  <forward/>'', ''</zone>''])"

definition writeZoneXML :: "string \<Rightarrow> unit go" where
  "writeZoneXML root =
     (let path = Join [root, ''etc/firewalld/zones/public.xml''] in
      gbind (gwrap ''firewall: mkdir'' (os_MkdirAll (Dir path) 0x1E8)) (\<lambda>_.
      gwrap ''firewall: write'' (os_WriteFile path zone_xml 0x1A4)))"

definition SetupPreBoot :: "string \<Rightarrow> unit go" where
  "SetupPreBoot root =
     gbind (gwrap ''firewall: read v4.txt'' (readCIDRList (Join [root, cfIPListDir, ''v4.txt'']))) (\<lambda>v4ranges.
     gbind (gwrap ''firewall: read v6.txt'' (readCIDRList (Join [root, cfIPListDir, ''v6.txt'']))) (\<lambda>v6ranges.
     gbind (writeIPSetXML root cfIPSetV4 ''inet'' v4ranges) (\<lambda>_.
     gbind (writeIPSetXML root cfIPSetV6 ''inet6'' v6ranges) (\<lambda>_.
     writeZoneXML root))))"

section \<open>The policy behind the text\<close>

datatype zone_item =
    OpenPort nat
  | Forward nat nat
  | AllowFrom string string nat
  | LimitedAccept string nat string

definition policy :: "zone_item list" where
  "policy =
     [OpenPort 25, Forward 25 2525, OpenPort 465, Forward 465 4465, OpenPort 993, Forward 993 4993,
      OpenPort 4190, Forward 443 8443,
      AllowFrom ''ipv4'' ''cloudflare-v4'' 8443, AllowFrom ''ipv6'' ''cloudflare-v6'' 8443]
     @ concat (map (\<lambda>f. LimitedAccept f 22 ''10/m'' # map (\<lambda>p. LimitedAccept f p ''20/m'') [25, 465, 993, 4190]) [''ipv4'', ''ipv6''])"

fun item_lines :: "zone_item \<Rightarrow> string list" where
  "item_lines (OpenPort p) = [port_line ''  '' p]"
| "item_lines (Forward p q) = [forward_line p q]"
| "item_lines (AllowFrom family ipset p) =
     [''  <rule family='' @ dq family @ ''>'', ''    <source ipset='' @ dq ipset @ ''/>'', port_line ''    '' p, ''    <accept/>'', ''  </rule>'']"
| "item_lines (LimitedAccept family p limit) = limit_rule family p limit"

definition render_policy :: "zone_item list \<Rightarrow> string" where
  "render_policy items = unlines (
     [xml_head, ''<zone>'', ''  <short>Public</short>'',
      ''  <description>slfhst: public zone, ports scoped to what this appliance actually serves.</description>'']
     @ concat (map item_lines items) @ [''  <forward/>'', ''</zone>''])"

lemma zone_xml_policy: "zone_xml = render_policy policy"
  unfolding zone_xml_def render_policy_def
  by (rule arg_cong[where f = unlines])
    (simp add: policy_def mailForwards_def manageSievePort_def webPublicPort_def webPrivatePort_def
      cfIPSetV4_def cfIPSetV6_def mailRateLimits_def sshPort_def sshRateLimit_def)

lemma write_files:
  assumes "gbind (gwrap m1 (os_MkdirAll d k)) (\<lambda>_. gwrap m2 (os_WriteFile p c mode)) env w = Some (Ok (), w')"
  shows "file_at (w_fs w') = (file_at (w_fs w))(p \<mapsto> c)"
  using assms by (auto simp: gbind_eq_Ok gwrap_eq_Ok dest!: os_WriteFile_files os_MkdirAll_files)

lemma writeIPSetXML_files:
  "writeIPSetXML root name family entries env w = Some (Ok (), w') \<Longrightarrow>
   file_at (w_fs w') = (file_at (w_fs w))(Join [root, ''etc/firewalld/ipsets'', name @ ''.xml''] \<mapsto> ipset_xml family entries)"
  unfolding writeIPSetXML_def Let_def by (rule write_files)

lemma writeZoneXML_files:
  "writeZoneXML root env w = Some (Ok (), w') \<Longrightarrow>
   file_at (w_fs w') = (file_at (w_fs w))(Join [root, ''etc/firewalld/zones/public.xml''] \<mapsto> zone_xml)"
  unfolding writeZoneXML_def Let_def by (rule write_files)

lemma readCIDRList_Ok:
  assumes "readCIDRList p env w = Some (Ok xs, w')"
  shows "\<exists>data. file_at (w_fs w) p = Some data \<and> cidr_lines (raw_lines data) = Ok xs \<and> w_fs w' = w_fs w"
  using assms by (auto simp: readCIDRList_def gbind_eq_Ok of_outcome_def os_ReadFile_Ok_iff)

lemma fw_paths:
  assumes "is_abs root"
  shows "Join [root, ''etc/firewalld/ipsets'', ''cloudflare-v4.xml''] \<noteq> Join [root, ''etc/firewalld/ipsets'', ''cloudflare-v6.xml'']"
    "Join [root, ''etc/firewalld/ipsets'', ''cloudflare-v4.xml''] \<noteq> Join [root, ''etc/firewalld/zones/public.xml'']"
    "Join [root, ''etc/firewalld/ipsets'', ''cloudflare-v6.xml''] \<noteq> Join [root, ''etc/firewalld/zones/public.xml'']"
proof -
  have j: "Join [root, ''etc/firewalld/ipsets'', n] = Join [root, ''etc/firewalld/ipsets/'' @ n]" if "n \<noteq> []" for n
    using assms that by (simp add: Join_def is_abs_def)
  let ?p = "''etc/firewalld/ipsets/cloudflare-v4.xml''" and ?q = "''etc/firewalld/ipsets/cloudflare-v6.xml''"
    and ?z = "''etc/firewalld/zones/public.xml''"
  have pl: "\<forall>c\<in>set (comps ?p). plain c" "\<forall>c\<in>set (comps ?q). plain c" "\<forall>c\<in>set (comps ?z). plain c"
    by (simp_all add: comps_def plain_def)
  have ne: "comps ?p \<noteq> comps ?q" "comps ?p \<noteq> comps ?z" "comps ?q \<noteq> comps ?z" by (simp_all add: comps_def)
  show "Join [root, ''etc/firewalld/ipsets'', ''cloudflare-v4.xml''] \<noteq> Join [root, ''etc/firewalld/ipsets'', ''cloudflare-v6.xml'']"
    "Join [root, ''etc/firewalld/ipsets'', ''cloudflare-v4.xml''] \<noteq> Join [root, ''etc/firewalld/zones/public.xml'']"
    "Join [root, ''etc/firewalld/ipsets'', ''cloudflare-v6.xml''] \<noteq> Join [root, ''etc/firewalld/zones/public.xml'']"
    using Join_root_inject[OF assms _ pl(1) _ pl(2)] Join_root_inject[OF assms _ pl(1) _ pl(3)]
      Join_root_inject[OF assms _ pl(2) _ pl(3)] ne by (simp_all add: j)
qed

section \<open>Properties\<close>

text \<open>C13: After \<open>SetupPreBoot\<close> the target's zone file is the text of a fixed policy and the two address
  sets hold exactly the non-blank lines of the bundled lists. Under that policy the web port is
  opened to nobody directly: 443 is only forwarded to 8443, which is accepted from the Cloudflare
  sets alone, and ssh is accepted under a rate limit only.\<close>

theorem firewall_policy:
  assumes "SetupPreBoot root env w = Some (Ok (), w')" and "is_abs root"
  shows "\<exists>d4 d6 v4 v6.
    file_at (w_fs w) (Join [root, cfIPListDir, ''v4.txt'']) = Some d4 \<and> cidr_lines (raw_lines d4) = Ok v4 \<and>
    file_at (w_fs w) (Join [root, cfIPListDir, ''v6.txt'']) = Some d6 \<and> cidr_lines (raw_lines d6) = Ok v6 \<and>
    file_at (w_fs w') (Join [root, ''etc/firewalld/ipsets'', ''cloudflare-v4.xml'']) = Some (ipset_xml ''inet'' v4) \<and>
    file_at (w_fs w') (Join [root, ''etc/firewalld/ipsets'', ''cloudflare-v6.xml'']) = Some (ipset_xml ''inet6'' v6) \<and>
    file_at (w_fs w') (Join [root, ''etc/firewalld/zones/public.xml'']) = Some (render_policy policy) \<and>
    (\<forall>p. OpenPort p \<in> set policy \<longrightarrow> p \<in> {25, 465, 993, 4190}) \<and>
    (\<forall>p q. Forward p q \<in> set policy \<and> q = 8443 \<longrightarrow> p = 443) \<and>
    (\<forall>f s p. AllowFrom f s p \<in> set policy \<longrightarrow> p = 8443 \<and> s \<in> {''cloudflare-v4'', ''cloudflare-v6''}) \<and>
    (\<forall>f p l. LimitedAccept f p l \<in> set policy \<longrightarrow> p \<notin> {443, 8443})"
proof -
  from assms(1)[unfolded SetupPreBoot_def gbind_eq_Ok gwrap_eq_Ok] obtain v4 w1 v6 w2 u3 w3 u4 w4 where
    r: "readCIDRList (Join [root, cfIPListDir, ''v4.txt'']) env w = Some (Ok v4, w1)"
      "readCIDRList (Join [root, cfIPListDir, ''v6.txt'']) env w1 = Some (Ok v6, w2)"
      "writeIPSetXML root cfIPSetV4 ''inet'' v4 env w2 = Some (Ok u3, w3)"
      "writeIPSetXML root cfIPSetV6 ''inet6'' v6 env w3 = Some (Ok u4, w4)" "writeZoneXML root env w4 = Some (Ok (), w')"
    by blast
  from readCIDRList_Ok[OF r(1)] readCIDRList_Ok[OF r(2)] obtain d4 d6 where d:
    "file_at (w_fs w) (Join [root, cfIPListDir, ''v4.txt'']) = Some d4" "cidr_lines (raw_lines d4) = Ok v4"
    "file_at (w_fs w) (Join [root, cfIPListDir, ''v6.txt'']) = Some d6" "cidr_lines (raw_lines d6) = Ok v6" by auto
  have f: "file_at (w_fs w') = ((file_at (w_fs w2))(Join [root, ''etc/firewalld/ipsets'', ''cloudflare-v4.xml''] \<mapsto> ipset_xml ''inet'' v4,
      Join [root, ''etc/firewalld/ipsets'', ''cloudflare-v6.xml''] \<mapsto> ipset_xml ''inet6'' v6,
      Join [root, ''etc/firewalld/zones/public.xml''] \<mapsto> zone_xml))"
    using writeIPSetXML_files r(3,4) writeZoneXML_files[OF r(5)] by (simp add: cfIPSetV4_def cfIPSetV6_def)
  have pol: "(\<forall>p. OpenPort p \<in> set policy \<longrightarrow> p \<in> {25, 465, 993, 4190})"
    "(\<forall>p q. Forward p q \<in> set policy \<and> q = 8443 \<longrightarrow> p = 443)"
    "(\<forall>f s p. AllowFrom f s p \<in> set policy \<longrightarrow> p = 8443 \<and> s \<in> {''cloudflare-v4'', ''cloudflare-v6''})"
    "(\<forall>f p l. LimitedAccept f p l \<in> set policy \<longrightarrow> p \<notin> {443, 8443})"
    by (auto simp: policy_def)
  show ?thesis
    using fw_paths[OF assms(2)] d pol
    by (intro exI[of _ d4] exI[of _ d6] exI[of _ v4] exI[of _ v6]) (simp add: f zone_xml_policy)
qed

definition fw_demo :: world where
  "fw_demo = empty_world\<lparr>w_fs := [(''/m/usr/share/slfhst/cloudflare-ips/v4.txt'', NFile 0x1A4 (0, 0) ''1.0.0.0/8''),
     (''/m/usr/share/slfhst/cloudflare-ips/v6.txt'', NFile 0x1A4 (0, 0) ''2400::/32'')]\<rparr>"

theorem firewall_policy_witness:
  "\<exists>w'. SetupPreBoot ''/m'' quiet_env fw_demo = Some (Ok (), w') \<and>
     file_at (w_fs w') ''/m/etc/firewalld/zones/public.xml'' = Some (render_policy policy)"
proof -
  note paths = Join_def Clean_def is_abs_def comps_def clean_comps_def abs_path_def
  have j: "Join [''/m'', cfIPListDir, ''v4.txt''] = ''/m/usr/share/slfhst/cloudflare-ips/v4.txt''"
    "Join [''/m'', cfIPListDir, ''v6.txt''] = ''/m/usr/share/slfhst/cloudflare-ips/v6.txt''"
    "Join [''/m'', ''etc/firewalld/ipsets'', cfIPSetV4 @ ''.xml''] = ''/m/etc/firewalld/ipsets/cloudflare-v4.xml''"
    "Join [''/m'', ''etc/firewalld/ipsets'', cfIPSetV6 @ ''.xml''] = ''/m/etc/firewalld/ipsets/cloudflare-v6.xml''"
    "Join [''/m'', ''etc/firewalld/zones/public.xml''] = ''/m/etc/firewalld/zones/public.xml''"
    by (simp_all add: paths cfIPListDir_def cfIPSetV4_def cfIPSetV6_def)
  have dir: "Dir ''/m/etc/firewalld/ipsets/cloudflare-v4.xml'' = ''/m/etc/firewalld/ipsets''"
    "Dir ''/m/etc/firewalld/ipsets/cloudflare-v6.xml'' = ''/m/etc/firewalld/ipsets''"
    "Dir ''/m/etc/firewalld/zones/public.xml'' = ''/m/etc/firewalld/zones''"
    by (simp_all add: Dir_def paths)
  have pre: "path_prefixes ''/m/etc/firewalld/ipsets'' = [''/m'', ''/m/etc'', ''/m/etc/firewalld'', ''/m/etc/firewalld/ipsets'']"
    "path_prefixes ''/m/etc/firewalld/zones'' = [''/m'', ''/m/etc'', ''/m/etc/firewalld'', ''/m/etc/firewalld/zones'']"
    by (simp_all add: path_prefixes_def paths)
  have l: "\<exists>xs. cidr_lines (raw_lines ''1.0.0.0/8'') = Ok xs" "\<exists>xs. cidr_lines (raw_lines ''2400::/32'') = Ok xs"
    by (simp_all add: raw_lines_def Let_def)
  then obtain xs ys where xy: "cidr_lines (raw_lines ''1.0.0.0/8'') = Ok xs" "cidr_lines (raw_lines ''2400::/32'') = Ok ys" by blast
  obtain w' where s: "SetupPreBoot ''/m'' quiet_env fw_demo = Some (Ok (), w')"
    using xy by (simp add: SetupPreBoot_def readCIDRList_def writeIPSetXML_def writeZoneXML_def j dir pre gbind_def gwrap_def os_ReadFile_def
      os_MkdirAll_def os_WriteFile_def quiet_io of_outcome_def fs_read_def fs_put_def is_dir_def fw_demo_def empty_world_def Let_def)
  show ?thesis using firewall_policy[OF s] s by (auto simp: is_abs_def j)
qed

text \<open>Every mail port that gets a rate-limited accept rule is also opened without a limit by the same
  zone file, in plain \<open>port\<close> elements.\<close>

theorem limited_ports_also_open:
  "zone_xml = render_policy policy \<and>
   list_all (\<lambda>(p, l). LimitedAccept ''ipv4'' p l \<in> set policy \<and> OpenPort p \<in> set policy) mailRateLimits"
  using zone_xml_policy by (simp add: mailRateLimits_def policy_def manageSievePort_def)

end
