(* ===== verification/Installer.thy ===== *)
theory Installer
  imports Disks Users Wizard Netconf Sshauth Firewall
begin

text \<open>
  \<^verbatim>\<open>internal/installer/installer.go\<close>: the flow of the live installer, from the choice of the disks to the
  stage marker on the target.
\<close>

definition mountpoint :: string where "mountpoint = ''/mnt/target''"
definition applianceDir :: string where "applianceDir = ''/usr/share/slfhst/appliance''"

definition readApplianceVersion :: "string go" where
  "readApplianceVersion =
     gbind (gwrap ''installer: read VERSION'' (os_ReadFile (Join [applianceDir, ''VERSION'']))) (\<lambda>data.
     let version = trimNewline data in
     if version = [] then fail (Msg ''installer: VERSION is empty'') else ret version)"

definition target_store :: store where
  "target_store = \<lparr>Root = mountpoint\<rparr>"

text \<open>Everything after the disks are chosen.\<close>

definition install_on :: "string \<Rightarrow> string \<Rightarrow> string \<Rightarrow> unit go" where
  "install_on version rootDisk bulkDisk =
     gbind (PartitionRoot rootDisk) (\<lambda>_.
     gbind (DeployUsrContent rootDisk (Join [applianceDir, ''usr.raw'']) version) (\<lambda>_.
     gbind (MountRootAndVar rootDisk mountpoint) (\<lambda>_.
     gbind (MountUsr rootDisk mountpoint) (\<lambda>_.
     gbind (EnsureFHSSymlinks mountpoint) (\<lambda>_.
     gbind (MountESP rootDisk mountpoint) (\<lambda>espPath.
     gbind (DeployUKI espPath (Join [applianceDir, ''uki.efi'']) version) (\<lambda>_.
     gbind (InstallBootloader espPath) (\<lambda>_.
     gbind (PartitionBulk bulkDisk) (\<lambda>bulkPart.
     gbind (MountBulk mountpoint bulkPart) (\<lambda>_.
     gbind (net_Configure target_store) (\<lambda>_.
     gbind (RunPreBoot target_store) (\<lambda>cfg.
     gbind (Create mountpoint cfg) (\<lambda>_.
     gbind (ssh_Configure mountpoint) (\<lambda>_.
     gbind (SetupPreBoot mountpoint) (\<lambda>_.
     gbind (ApplyPresets mountpoint) (\<lambda>_.
     SetDefaultTarget mountpoint))))))))))))))))"

definition install_done :: "unit go" where
  "install_done =
     gbind (println []) (\<lambda>_.
     gbind (println ''stage1 setup complete. Reboot to continue, then SSH in'') (\<lambda>_.
     println ''as the admin user and run `slfhst setup`.''))"

definition installer_Run :: "sorter \<Rightarrow> unit go" where
  "installer_Run srt =
     gbind (Banner ''slfhst installer'') (\<lambda>_.
     gbind (CleanupMounts mountpoint) (\<lambda>_.
     gbind readApplianceVersion (\<lambda>version.
     gbind (println (''deploying appliance version '' @ version)) (\<lambda>_.
     gbind (SelectDisks srt) (\<lambda>(rootDisk, bulkDisk).
     gbind (println (''root disk: '' @ rootDisk @ '', bulk disk: '' @ bulkDisk)) (\<lambda>_.
     gbind (install_on version rootDisk bulkDisk) (\<lambda>_.
     gbind (MarkDone target_store ''stage1'') (\<lambda>_.
     install_done))))))))"

lemmas ci_quiet = no_cmds[THEN ci_no_cmd]

section \<open>Which commands may run when\<close>

text \<open>Commands that only look or unmount; and commands that partition nothing but the chosen disks.\<close>

definition looking :: "string list \<Rightarrow> bool" where
  "looking c = (c \<noteq> [] \<and> hd c \<in> {''umount'', ''lsblk'', ''blkid''})"

definition on_chosen :: "string \<Rightarrow> string \<Rightarrow> string list \<Rightarrow> bool" where
  "on_chosen root bulk c = ((hd c = ''systemd-repart'' \<longrightarrow> last c = root) \<and> (hd c = ''parted'' \<longrightarrow> c ! 2 \<in> {root, bulk}))"

lemma plain_argv: "buildArgv argv no_options = argv" "buildArgv argv captured = argv"
  by (simp_all add: buildArgv_def no_options_def)

lemma on_chosen_other: "c \<noteq> [] \<Longrightarrow> hd c \<notin> {''systemd-repart'', ''parted''} \<Longrightarrow> on_chosen root bulk c"
  by (simp add: on_chosen_def)

lemma no_cmd_copy [intro!, no_cmds]: "keeps no_cmd (copyFile a b)"
  by (auto simp: copyFile_def)

lemma no_cmd_link [intro!, no_cmds]: "keeps no_cmd (ensure_link m nt)"
  by (cases nt) (auto simp: ensure_link_def Let_def)

lemma ci_lsblk: "P [''lsblk'', ''--list'', ''-J'', ''-b'', ''-o'', cols] \<Longrightarrow> keeps (cmds_in P) (lsblk_maps cols)"
  unfolding lsblk_maps_def by (intro ci_seq ci_RunChecked) (auto simp: plain_argv split: option.split)

lemma ci_find: "(\<And>cols. P [''lsblk'', ''--list'', ''-J'', ''-b'', ''-o'', cols]) \<Longrightarrow> keeps (cmds_in P) (findPartitionByLabel d l)"
  "(\<And>cols. P [''lsblk'', ''--list'', ''-J'', ''-b'', ''-o'', cols]) \<Longrightarrow> keeps (cmds_in P) (findPartitionByNumber d n)"
  unfolding findPartitionByLabel_def findPartitionByNumber_def
  by (auto intro!: ci.keeps_bind ci_lsblk split: option.split)

lemma ci_devices: "P [''lsblk'', ''--list'', ''-J'', ''-b'', ''-o'', cols] \<Longrightarrow> keeps (cmds_in P) (listBlockDevices cols)"
  unfolding listBlockDevices_def by (intro ci_seq ci_RunChecked) (auto simp: plain_argv split: option.split)

lemma ci_SelectDisks: "keeps (cmds_in looking) (SelectDisks srt)"
  unfolding SelectDisks_def bootDiskName_def
  by (auto intro!: ci.keeps_bind ci.keeps_wrap ci_devices ci_RunChecked simp: looking_def plain_argv Let_def split: option.split)

lemma ci_Cleanup: "keeps (cmds_in looking) (CleanupMounts m)"
  unfolding CleanupMounts_def by (intro ci_seq ci_Run) (simp add: looking_def plain_argv)

lemma ci_version: "keeps no_cmd readApplianceVersion"
  by (auto simp: readApplianceVersion_def Let_def)

lemma ci_partition_root: "keeps (cmds_in (on_chosen root bulk)) (PartitionRoot root)"
  unfolding PartitionRoot_def
  by (intro ci_seq ci_run_step) (auto simp: on_chosen_def plain_argv intro!: ci_no_cmd)

lemma ci_partition_bulk: "keeps (cmds_in (on_chosen root bulk)) (PartitionBulk bulk)"
  unfolding PartitionBulk_def Let_def
  by (intro ci_seq ci_run_step ci_devices) (auto simp: on_chosen_def plain_argv intro!: ci.keeps_bind ci_run_step)

lemma ci_deploy:
  "keeps (cmds_in (on_chosen root bulk)) (DeployUsrContent root img v)" "keeps (cmds_in (on_chosen root bulk)) (MountRootAndVar root m)"
  "keeps (cmds_in (on_chosen root bulk)) (MountUsr root m)" "keeps (cmds_in (on_chosen root bulk)) (MountESP root m)"
  "keeps (cmds_in (on_chosen root bulk)) (InstallBootloader e)" "keeps (cmds_in (on_chosen root bulk)) (MountBulk m part)"
  "keeps (cmds_in (on_chosen root bulk)) (ApplyPresets m)" "keeps (cmds_in (on_chosen root bulk)) (SetDefaultTarget m)"
  unfolding DeployUsrContent_def MountRootAndVar_def MountUsr_def MountESP_def InstallBootloader_def MountBulk_def writeBulkMountUnit_def
    ApplyPresets_def SetDefaultTarget_def ddCopy_def Let_def
  by (auto intro!: ci.keeps_bind ci.keeps_wrap ci.keeps_try ci.keeps_foreach ci_find ci_run_step ci_Run ci_RunChecked ci_quiet
    simp: on_chosen_def plain_argv)

lemma no_cmd_disk [intro!, no_cmds]: "keeps no_cmd (EnsureFHSSymlinks m)" "keeps no_cmd (DeployUKI e src v)"
  by (auto simp: EnsureFHSSymlinks_def DeployUKI_def Let_def)

lemma no_cmd_v6 [intro!, no_cmds]: "keeps no_cmd (ask_v6 addrs)"
proof -
  have "no_cmd w w'" if "ask_v6 addrs env w = Some (r, w')" for addrs env w r w'
    using that
  proof (induction addrs env w rule: ask_v6.induct)
    case (1 addrs env w)
    let ?ask = "Ask ''IPv6 address/CIDR (blank to stop, e.g. 2001:db8::7/64)'' ((addr_ask ipv6CIDRRE)\<lparr>Optional := True\<rparr>)"
    obtain q w1 where a: "?ask env w = Some (q, w1)" using 1(2) by (cases "?ask env w") (auto simp: ask_v6.simps[of addrs env w])
    have n: "no_cmd w w1" by (rule keepsD[OF no_cmd_Ask a])
    show ?case
    proof (cases q)
      case (Ok v)
      show ?thesis
      proof (cases "v = []")
        case True
        then show ?thesis using 1(2) a Ok n by (simp add: ask_v6.simps[of addrs env w])
      next
        case False
        then have "ask_v6 (addrs @ [v]) env w1 = Some (r, w')" using 1(2) a Ok by (simp add: ask_v6.simps[of addrs env w])
        from 1(1)[OF a refl Ok False this] n show ?thesis by (rule nc.trans[rotated])
      qed
    qed (use 1(2) a n in \<open>auto simp: ask_v6.simps[of addrs env w]\<close>)
  qed
  then show ?thesis by (auto simp: keeps_def)
qed

lemma no_cmd_password [intro!, no_cmds]: "keeps no_cmd askPassword"
proof -
  have "no_cmd w w'" if "askPassword env w = Some (r, w')" for env w r w'
    using that
  proof (induction env w rule: askPassword.induct)
    case (1 env w)
    let ?gen = "gbind (GenSecret 12) (\<lambda>generated.
         gbind (println (''Generated admin password (write this down, shown once): '' @ generated)) (\<lambda>_. ret generated))"
    have gen: "keeps no_cmd ?gen" by auto
    obtain q w1 where a: "AskSecret ''Password'' env w = Some (q, w1)"
      using 1(2) by (cases "AskSecret ''Password'' env w") (auto simp: askPassword.simps[of env w])
    have n: "no_cmd w w1" by (rule keepsD[OF no_cmd_AskSecret a])
    show ?case
    proof (cases q)
      case (Ok pw)
      show ?thesis
      proof (cases "pw = []")
        case True
        then have "?gen env w1 = Some (r, w')" using 1(2) a Ok by (simp add: askPassword.simps[of env w])
        from keepsD[where m = ?gen, OF gen this] n show ?thesis by (rule nc.trans[rotated])
      next
        case False
        then obtain q2 w2 where b: "AskSecret ''Confirm'' env w1 = Some (q2, w2)"
          using 1(2) a Ok by (cases "AskSecret ''Confirm'' env w1") (auto simp: askPassword.simps[of env w])
        have n2: "no_cmd w w2" using n keepsD[OF no_cmd_AskSecret b] by (rule nc.trans)
        show ?thesis
        proof (cases q2)
          case c: (Ok confirm)
          show ?thesis
          proof (cases "confirm = pw")
            case True
            then show ?thesis using 1(2) a Ok b c False n2 by (simp add: askPassword.simps[of env w])
          next
            case ne: False
            let ?w3 = "w2\<lparr>w_console := w_console w2 @ [OText ''passwords didn't match, try again'']\<rparr>"
            have "askPassword env ?w3 = Some (r, w')" using 1(2) a Ok b c False ne by (simp add: askPassword.simps[of env w])
            from 1(1)[OF a refl Ok False b refl c ne this] have "no_cmd ?w3 w'" .
            then show ?thesis using n2 by (simp add: no_cmd_def)
          qed
        qed (use 1(2) a Ok b False n2 in \<open>auto simp: askPassword.simps[of env w]\<close>)
      qed
    qed (use 1(2) a n in \<open>auto simp: askPassword.simps[of env w]\<close>)
  qed
  then show ?thesis by (auto simp: keeps_def)
qed

lemma no_cmd_answers [intro!, no_cmds]: "keeps no_cmd (choose_iface is)" "keeps no_cmd askStatic" "keeps no_cmd (writeNetworkFile r i st)"
  "keeps no_cmd (writeResolvedConf r)" "keeps no_cmd (fixResolvConfSymlink r)" "keeps no_cmd (RunPreBoot s)"
  by (auto simp: choose_iface_def askStatic_def writeNetworkFile_def writeResolvedConf_def fixResolvConfSymlink_def RunPreBoot_def
    writeHostname_def Let_def split: prod.split)

lemma no_cmd_firewall [intro!, no_cmds]: "keeps no_cmd (SetupPreBoot r)"
  by (auto simp: SetupPreBoot_def readCIDRList_def writeIPSetXML_def writeZoneXML_def Let_def)

lemma ci_network: "keeps (cmds_in (on_chosen root bulk)) (net_Configure s)"
  unfolding net_Configure_def ListInterfaces_def
  by (auto intro!: ci.keeps_bind ci.keeps_wrap ci_RunChecked ci_quiet no_cmd_answers[THEN ci_no_cmd] simp: on_chosen_def plain_argv)

lemma ci_users: "keeps (cmds_in (on_chosen root bulk)) (Create r cfg)"
  unfolding Create_def runSysusers_def SetRootPassword_def Let_def
  by (auto intro!: ci.keeps_bind ci.keeps_wrap ci.keeps_defer ci_run_step ci_quiet simp: on_chosen_def buildArgv_def no_options_def)

lemma ci_ssh: "keeps (cmds_in (on_chosen root bulk)) (ssh_Configure r)"
  unfolding ssh_Configure_def GenerateHostKeys_def writeSSHDConfig_def writePAMStack_def ValidateSSHDConfig_def Let_def
  by (auto intro!: ci.keeps_bind ci.keeps_wrap ci.keeps_try ci.keeps_defer ci_run_step ci_Run ci_quiet simp: on_chosen_def buildArgv_def no_options_def Let_def split: if_splits)

lemma ci_install: "keeps (cmds_in (on_chosen root bulk)) (install_on v root bulk)"
  unfolding install_on_def
  by (intro ci.keeps_bind ci_partition_root ci_partition_bulk ci_deploy ci_network ci_users ci_ssh
    no_cmd_disk[THEN ci_no_cmd] no_cmd_answers(6)[THEN ci_no_cmd] no_cmd_firewall[THEN ci_no_cmd])

section \<open>Properties\<close>

text \<open>C2: The installer partitions nothing but the disks it has chosen. Up to the choice it only unmounts
  and looks; when the choice fails, or anything before it, the installation ends there with an
  error. After it, the partitioning tools are given no disk but the two chosen ones.\<close>

theorem installer_only_chosen_disks:
  assumes "installer_Run srt env w = Some (r, w')"
  shows "(\<not> is_ok r \<and> cmds_in looking w w') \<or>
    (\<exists>w1 w2 root bulk. cmds_in looking w w2 \<and> SelectDisks srt env w1 = Some (Ok (root, bulk), w2) \<and> cmds_in (on_chosen root bulk) w2 w')"
proof -
  let ?pre = "gbind (Banner ''slfhst installer'') (\<lambda>_. gbind (CleanupMounts mountpoint) (\<lambda>_.
     gbind readApplianceVersion (\<lambda>version. gbind (println (''deploying appliance version '' @ version)) (\<lambda>_. ret version))))"
  let ?post = "\<lambda>version (root, bulk). gbind (println (''root disk: '' @ root @ '', bulk disk: '' @ bulk)) (\<lambda>_.
     gbind (install_on version root bulk) (\<lambda>_. gbind (MarkDone target_store ''stage1'') (\<lambda>_. install_done)))"
  have pre: "keeps (cmds_in looking) ?pre"
    by (intro ci_seq ci_Cleanup no_cmd_Banner[THEN ci_no_cmd] ci_version[THEN ci_no_cmd] no_cmd_print[THEN ci_no_cmd])
  have post: "keeps (cmds_in (on_chosen root bulk)) (?post version (root, bulk))" for version root bulk
    unfolding install_done_def
    by (auto intro!: ci.keeps_bind ci_install no_cmd_print[THEN ci_no_cmd] no_cmd_config(3)[THEN ci_no_cmd])
  have "gbind ?pre (\<lambda>version. gbind (SelectDisks srt) (?post version)) env w = Some (r, w')"
    using assms by (simp add: installer_Run_def gbind_assoc gbind_ret)
  then show ?thesis
  proof (cases rule: gbind_SomeE)
    case (Ok version w1)
    have k1: "cmds_in looking w w1" by (rule keepsD[where m = ?pre, OF pre Ok(1)])
    from Ok(2) show ?thesis
    proof (cases rule: gbind_SomeE)
      case sel: (Ok rb w2)
      obtain root bulk where rb: "rb = (root, bulk)" by (cases rb)
      have "cmds_in looking w1 w2" by (rule keepsD[OF ci_SelectDisks sel(1)])
      then have "cmds_in looking w w2" using k1 ci.trans by blast
      moreover have "cmds_in (on_chosen root bulk) w2 w'"
        by (rule keepsD[where m = "?post version (root, bulk)", OF post]) (use sel(2) rb in simp)
      ultimately show ?thesis using sel(1) rb by blast
    next
      case (Err e)
      then show ?thesis using ci.trans[OF k1 keepsD[OF ci_SelectDisks Err(1)]] by simp
    next
      case Panic
      then show ?thesis using ci.trans[OF k1 keepsD[OF ci_SelectDisks Panic(1)]] by simp
    qed
  next
    case (Err e)
    have "cmds_in looking w w'" by (rule keepsD[where m = ?pre, OF pre Err(1)])
    then show ?thesis using Err(2) by simp
  next
    case Panic
    have "cmds_in looking w w'" by (rule keepsD[where m = ?pre, OF pre Panic(1)])
    then show ?thesis using Panic(2) by simp
  qed
qed

theorem installer_only_chosen_disks_witness:
  "\<exists>r w'. installer_Run (\<lambda>k xs. xs) quiet_env (empty_world\<lparr>w_fs := [(''/usr/share/slfhst/appliance/VERSION'', NFile 0x1A4 (0, 0) ''7'')]\<rparr>)
      = Some (r, w') \<and> \<not> is_ok r \<and> list_all looking (commands w') \<and> length (commands w') = 6"
proof -
  let ?w = "empty_world\<lparr>w_fs := [(''/usr/share/slfhst/appliance/VERSION'', NFile 0x1A4 (0, 0) ''7'')]\<rparr>"
  have p: "Join [applianceDir, ''VERSION''] = ''/usr/share/slfhst/appliance/VERSION''"
    by (simp add: applianceDir_def Join_def Clean_def is_abs_def comps_def clean_comps_def abs_path_def)
  have rd: "readApplianceVersion quiet_env w = Some (Ok ''7'', w\<lparr>w_trace := w_trace w @ [EIo (OpReadFile ''/usr/share/slfhst/appliance/VERSION'')]\<rparr>)"
    if "w_fs w = w_fs ?w" for w
    using that by (simp add: readApplianceVersion_def gbind_def gwrap_def p os_ReadFile_Ok_iff[THEN iffD2] file_at_def quiet_env_def ret_def os_ReadFile_def
      io_call_def fs_read_def)
  have u: "Unmarshal [] = None" by code_simp
  have ls: "SelectDisks srt quiet_env w = Some (Err (Wrap ''disks: parse lsblk output'' (JsonErr [])),
      w\<lparr>w_trace := w_trace w @ [ECmd [''lsblk'', ''--list'', ''-J'', ''-b'', ''-o'', ''NAME,PATH,SIZE,TYPE,ROTA,RO,PKNAME'']]\<rparr>)" for srt w
    by (simp add: SelectDisks_def listBlockDevices_def gbind_def gwrap_def RunChecked_def Run_def quiet_env_def buildArgv_def no_options_def ret_def u fail_def)
  have qr: "gtry (Run argv no_options) quiet_env w = Some (Ok (Inr \<lparr>Stdout = [], Stderr = [], ExitCode = 0\<rparr>), w\<lparr>w_trace := w_trace w @ [ECmd argv]\<rparr>)"
    if "argv \<noteq> []" for argv w
    using that by (simp add: gtry_def Run_def quiet_env_def buildArgv_def no_options_def)
  obtain r w' where i: "installer_Run (\<lambda>k xs. xs) quiet_env ?w = Some (r, w')" "\<not> is_ok r" "length (commands w') = 6"
    by (simp add: installer_Run_def gbind_def Banner_def print_item_def CleanupMounts_def qr ret_def Let_def
      rd ls commands_def map_filter_def empty_world_def)
  from installer_only_chosen_disks[OF i(1)] i(2) have "cmds_in looking ?w w'"
    by (auto simp: ls)
  then show ?thesis using i by (auto simp: cmds_in_def commands_def map_filter_def empty_world_def)
qed

end
