(* ===== verification/Sysupdate.thy ===== *)
theory Sysupdate
  imports Bus DBus_Spec
begin

text \<open>
  \<^verbatim>\<open>internal/sysupdate/sysupdate.go\<close>: asking systemd-sysupdated for new versions and applying
  them.
\<close>

section \<open>Targets\<close>

definition su_busName :: string where "su_busName = ''org.freedesktop.sysupdate1''"
definition managerPath :: string where "managerPath = ''/org/freedesktop/sysupdate1''"
definition managerIface :: string where "managerIface = ''org.freedesktop.sysupdate1.Manager''"
definition targetIface :: string where "targetIface = ''org.freedesktop.sysupdate1.Target''"
definition componentUKI :: string where "componentUKI = ''uki''"

record target =
  t_class :: string
  t_name :: string
  t_path :: string

definition isHost :: "target \<Rightarrow> bool" where
  "isHost t = (t_class t = ''host'')"

definition isUKI :: "target \<Rightarrow> bool" where
  "isUKI t = (t_class t = ''component'' \<and> t_name t = componentUKI)"

definition label :: "target \<Rightarrow> string" where
  "label t = (if t_name t \<noteq> [] then t_name t else ''host'')"

text \<open>\<open>v.(string)\<close> with the zero value when it is something else.\<close>

definition any_string :: "gval \<Rightarrow> string" where
  "any_string v = (case v of VString s \<Rightarrow> s | _ \<Rightarrow> [])"

definition target_of_item :: "gval \<Rightarrow> target option" where
  "target_of_item item = (case item of
     VSlice [c, n, p] \<Rightarrow> Some \<lparr>t_class = any_string c, t_name = any_string n, t_path = any_string p\<rparr>
   | _ \<Rightarrow> None)"

text \<open>The variables the results of a call are stored in: a call keeps their number and kind.\<close>

definition slice_out :: "ptr list \<Rightarrow> gval list" where
  "slice_out ps = (case ps of [PSlice xs] \<Rightarrow> xs | _ \<Rightarrow> [])"

definition string_out :: "ptr list \<Rightarrow> string" where
  "string_out ps = (case ps of [PString s] \<Rightarrow> s | _ \<Rightarrow> [])"

definition listTargets :: "handle \<Rightarrow> ((gerr + target list) \<times> handle) go" where
  "listTargets c =
     gbind (bus_call c su_busName managerPath managerIface ''ListTargets'' [] [] ''a(sso)'' [PSlice []]) (\<lambda>(res, c').
     ret (map_sum (Wrap ''sysupdate: ListTargets'') (\<lambda>raw. List.map_filter target_of_item (slice_out raw)) res, c'))"

definition managedTargets :: "target list \<Rightarrow> (gerr, target list) outcome" where
  "managedTargets all =
     (let out = filter isHost all @ filter isUKI all in
      if out \<noteq> [] then Ok out
      else if all \<noteq> [] then Ok all
      else Err (Msg ''sysupdate: no targets found''))"

definition currentTargets :: "handle \<Rightarrow> (target list \<times> handle) go" where
  "currentTargets c =
     gbind (listTargets c) (\<lambda>(res, c').
     case res of
       Inl e \<Rightarrow> fail e
     | Inr ts \<Rightarrow> gbind (of_outcome (managedTargets ts)) (\<lambda>managed. ret (managed, c')))"

definition checkNew :: "handle \<Rightarrow> target \<Rightarrow> ((gerr + string) \<times> handle) go" where
  "checkNew c t =
     gbind (bus_call c su_busName (t_path t) targetIface ''CheckNew'' [] [] ''s'' [PString []]) (\<lambda>(res, c').
     ret (map_sum (Wrap ''CheckNew'') string_out res, c'))"

section \<open>Operations\<close>

definition CheckNewVersion :: "string go" where
  "CheckNewVersion =
     gbind (gwrap ''sysupdate'' bus_open) (\<lambda>c.
     gbind (gwrap ''sysupdate'' (currentTargets c)) (\<lambda>(managed, c').
     case managed of
       [] \<Rightarrow> panic
     | m # _ \<Rightarrow>
       let t = (case find isHost managed of Some h \<Rightarrow> h | None \<Rightarrow> m) in
       gbind (checkNew c' t) (\<lambda>(res, _).
       case res of
         Inl e \<Rightarrow> fail (Wrap (''sysupdate: '' @ label t) e)
       | Inr v \<Rightarrow> ret v)))"

text \<open>\<open>errors.Join\<close>: no error for no errors.\<close>

definition errors_Join :: "gerr list \<Rightarrow> unit go" where
  "errors_Join errs = (if errs = [] then ret () else fail (JoinErr errs))"

definition check_target :: "target \<Rightarrow> handle \<times> gerr list \<Rightarrow> (handle \<times> gerr list) go" where
  "check_target t ce = (case ce of (c, errs) \<Rightarrow>
     gbind (checkNew c t) (\<lambda>(res, c').
     case res of
       Inl e \<Rightarrow> gbind (print_item (OErr (label t @ '': check failed: '') e)) (\<lambda>_. ret (c', errs @ [Wrap (label t) e]))
     | Inr v \<Rightarrow> gbind (println (label t @ '': new version available: '' @ v)) (\<lambda>_. ret (c', errs))))"

definition Check :: "unit go" where
  "Check =
     gbind (gwrap ''sysupdate'' bus_open) (\<lambda>c.
     gbind (gwrap ''sysupdate'' (currentTargets c)) (\<lambda>(managed, c').
     gbind (gfold managed check_target (c', [])) (\<lambda>(_, errs). errors_Join errs)))"

definition job_text :: "ptr list \<Rightarrow> string" where
  "job_text ps = (case ps of
     [PString applied, PUint64 job, PString jobPath] \<Rightarrow>
       applied @ '' (job '' @ show_nat (unat job) @ '', '' @ jobPath @ '')''
   | _ \<Rightarrow> [])"

definition apply_target :: "target \<Rightarrow> handle \<times> gerr list \<Rightarrow> (handle \<times> gerr list) go" where
  "apply_target t ce = (case ce of (c, errs) \<Rightarrow>
     gbind (checkNew c t) (\<lambda>(res, c').
     case res of
       Inl e \<Rightarrow> ret (c', errs @ [Wrap (label t) e])
     | Inr newVersion \<Rightarrow>
       gbind (bus_call c' su_busName (t_path t) targetIface ''Update'' ''st'' [VString newVersion, VUint64 0] ''sto''
         [PString [], PUint64 0, PString []]) (\<lambda>(res2, c'').
       case res2 of
         Inl e \<Rightarrow> ret (c'', errs @ [Wrap (label t @ '': Update'') e])
       | Inr ps \<Rightarrow> gbind (println (label t @ '': updating to '' @ job_text ps)) (\<lambda>_. ret (c'', errs)))))"

definition Apply :: "unit go" where
  "Apply =
     gbind (gwrap ''sysupdate'' bus_open) (\<lambda>c.
     gbind (gwrap ''sysupdate'' (currentTargets c)) (\<lambda>(managed, c').
     gbind (gfold managed apply_target (c', [])) (\<lambda>(_, errs). errors_Join errs)))"

section \<open>Which targets\<close>

lemma managedTargets_Ok:
  assumes "managedTargets ts = Ok managed"
  shows "managed \<noteq> []" "set managed \<subseteq> set ts"
    "(\<exists>t\<in>set ts. isHost t) \<Longrightarrow> \<exists>h. find isHost managed = Some h \<and> isHost h"
proof -
  show "managed \<noteq> []" "set managed \<subseteq> set ts" using assms by (auto simp: managedTargets_def Let_def split: if_splits)
  assume h: "\<exists>t\<in>set ts. isHost t"
  then have "managed = filter isHost ts @ filter isUKI ts"
    using assms by (auto simp: managedTargets_def Let_def filter_empty_conv split: if_splits)
  then have "find isHost managed \<noteq> None" using h by (auto simp: find_None_iff)
  then show "\<exists>h. find isHost managed = Some h \<and> isHost h" by (auto simp: find_Some_iff)
qed

definition list_call :: event where
  "list_call = EBusCall su_busName managerPath managerIface ''ListTargets'' []"

definition check_call :: "target \<Rightarrow> event" where
  "check_call t = EBusCall su_busName (t_path t) targetIface ''CheckNew'' []"

definition update_call :: "target \<Rightarrow> string \<Rightarrow> event" where
  "update_call t v = EBusCall su_busName (t_path t) targetIface ''Update'' [VString v, VUint64 0]"

lemma listTargets_Ok: "listTargets c env w = Some (Ok x, w') \<Longrightarrow> w' = w\<lparr>w_trace := w_trace w @ [list_call]\<rparr>"
  unfolding listTargets_def gbind_eq_Ok list_call_def
  by (auto simp: ret_def dest!: bus_call_Ok)

lemma checkNew_Ok: "checkNew c t env w = Some (Ok x, w') \<Longrightarrow> w' = w\<lparr>w_trace := w_trace w @ [check_call t]\<rparr>"
  unfolding checkNew_def gbind_eq_Ok check_call_def
  by (auto simp: ret_def dest!: bus_call_Ok)

lemma currentTargets_Ok:
  assumes "currentTargets c env w = Some (Ok (managed, c'), w')"
  obtains ts where "listTargets c env w = Some (Ok (Inr ts, c'), w')" "managedTargets ts = Ok managed"
proof -
  from assms[unfolded currentTargets_def gbind_eq_Ok] obtain res c1 w1 where l: "listTargets c env w = Some (Ok (res, c1), w1)"
    and k: "(case res of Inl e \<Rightarrow> fail e | Inr ts \<Rightarrow> gbind (of_outcome (managedTargets ts)) (\<lambda>managed. ret (managed, c1))) env w1
      = Some (Ok (managed, c'), w')" by auto
  show thesis using that l k by (cases res) (auto simp: fail_def gbind_eq_Ok of_outcome_def ret_def)
qed

lemma checkNew_no_Err: "checkNew c t env w \<noteq> Some (Err e, w')"
proof
  assume "checkNew c t env w = Some (Err e, w')"
  then show False unfolding checkNew_def
    by (rule gbind_SomeE) (auto simp: ret_def dest: bus_call_no_Err[THEN notE])
qed


lemma apply_target_no_Err: "apply_target t ce env w \<noteq> Some (Err e, w')"
proof
  obtain c errs where ce: "ce = (c, errs)" by (cases ce)
  assume "apply_target t ce env w = Some (Err e, w')"
  then show False unfolding apply_target_def ce prod.case
  proof (rule gbind_SomeE)
    fix x w1 assume k: "(case x of (res, c') \<Rightarrow> case res of
       Inl e \<Rightarrow> ret (c', errs @ [Wrap (label t) e])
     | Inr newVersion \<Rightarrow>
       gbind (bus_call c' su_busName (t_path t) targetIface ''Update'' ''st'' [VString newVersion, VUint64 0] ''sto''
         [PString [], PUint64 0, PString []]) (\<lambda>(res2, c'').
       case res2 of
         Inl e \<Rightarrow> ret (c'', errs @ [Wrap (label t @ '': Update'') e])
       | Inr ps \<Rightarrow> gbind (println (label t @ '': updating to '' @ job_text ps)) (\<lambda>_. ret (c'', errs)))) env w1 = Some (Err e, w')"
    obtain res c' where x: "x = (res, c')" by (cases x)
    show False
    proof (cases res)
      case (Inr v)
      from k[unfolded x prod.case Inr sum.case] show False
        by (rule gbind_SomeE) (auto simp: gbind_def print_item_def ret_def dest: bus_call_no_Err[THEN notE] split: sum.splits)
    qed (use k x in \<open>simp add: ret_def\<close>)
  qed (auto dest: checkNew_no_Err[THEN notE])
qed

text \<open>What is sent for one target: the question, and the update when a version came back.\<close>

definition target_calls :: "target \<Rightarrow> string option \<Rightarrow> event list" where
  "target_calls t v = check_call t # (case v of None \<Rightarrow> [] | Some v \<Rightarrow> [update_call t v])"

lemma apply_target_Ok:
  assumes "apply_target t (c, errs) env w = Some (Ok (c', errs'), w')"
  shows "\<exists>v es. w_trace w' = w_trace w @ target_calls t v \<and> errs' = errs @ es \<and> length es \<le> 1 \<and> (v = None \<longrightarrow> es \<noteq> [])"
proof -
  from assms[unfolded apply_target_def prod.case gbind_eq_Ok] obtain res c1 w1 where n: "checkNew c t env w = Some (Ok (res, c1), w1)"
    and k: "(case res of
       Inl e \<Rightarrow> ret (c1, errs @ [Wrap (label t) e])
     | Inr newVersion \<Rightarrow>
       gbind (bus_call c1 su_busName (t_path t) targetIface ''Update'' ''st'' [VString newVersion, VUint64 0] ''sto''
         [PString [], PUint64 0, PString []]) (\<lambda>(res2, c'').
       case res2 of
         Inl e \<Rightarrow> ret (c'', errs @ [Wrap (label t @ '': Update'') e])
       | Inr ps \<Rightarrow> gbind (println (label t @ '': updating to '' @ job_text ps)) (\<lambda>_. ret (c'', errs)))) env w1 = Some (Ok (c', errs'), w')"
    by auto
  note tr = checkNew_Ok[OF n]
  show ?thesis
  proof (cases res)
    case (Inl e)
    then show ?thesis using k tr by (intro exI[of _ None]) (auto simp: ret_def target_calls_def)
  next
    case (Inr v)
    from k[unfolded Inr sum.case gbind_eq_Ok] obtain res2 c2 w2 where u: "bus_call c1 su_busName (t_path t) targetIface ''Update'' ''st''
        [VString v, VUint64 0] ''sto'' [PString [], PUint64 0, PString []] env w1 = Some (Ok (res2, c2), w2)"
      and k2: "(case res2 of
         Inl e \<Rightarrow> ret (c2, errs @ [Wrap (label t @ '': Update'') e])
       | Inr ps \<Rightarrow> gbind (println (label t @ '': updating to '' @ job_text ps)) (\<lambda>_. ret (c2, errs))) env w2 = Some (Ok (c', errs'), w')"
      by auto
    show ?thesis using k2 bus_call_Ok[OF u] tr
      by (intro exI[of _ "Some v"]) (cases res2, auto simp: ret_def gbind_def print_item_def target_calls_def update_call_def)
  qed
qed

lemma apply_targets:
  assumes "gfold ts apply_target (c, errs) env w = Some (r, w')" "r \<noteq> Panic"
  shows "\<exists>c' es vs. r = Ok (c', errs @ es) \<and> length vs = length ts \<and> length es \<le> length ts \<and>
    w_trace w' = w_trace w @ concat (map2 target_calls ts vs) \<and> (None \<in> set vs \<longrightarrow> es \<noteq> [])"
  using assms
proof (induction ts arbitrary: c errs w)
  case (Cons t ts)
  from Cons.prems(1) have "\<exists>c1 errs1 w1. apply_target t (c, errs) env w = Some (Ok (c1, errs1), w1) \<and>
      gfold ts apply_target (c1, errs1) env w1 = Some (r, w')"
    unfolding gfold.simps by (rule gbind_SomeE) (use Cons.prems(2) apply_target_no_Err in auto)
  then obtain c1 errs1 w1 where a: "apply_target t (c, errs) env w = Some (Ok (c1, errs1), w1)"
    "gfold ts apply_target (c1, errs1) env w1 = Some (r, w')" by blast
  from apply_target_Ok[OF a(1)] obtain v es1 where v: "w_trace w1 = w_trace w @ target_calls t v" "errs1 = errs @ es1"
    "length es1 \<le> 1" "v = None \<longrightarrow> es1 \<noteq> []" by blast
  from Cons.IH[OF a(2) Cons.prems(2)] obtain c' es vs where ih: "r = Ok (c', errs1 @ es)" "length vs = length ts" "length es \<le> length ts"
    "w_trace w' = w_trace w1 @ concat (map2 target_calls ts vs)" "None \<in> set vs \<longrightarrow> es \<noteq> []" by blast
  show ?case using v ih by (intro exI[of _ c'] exI[of _ "es1 @ es"] exI[of _ "v # vs"]) auto
qed (auto simp: ret_def)

section \<open>A bus to try it on\<close>

text \<open>A peer that authenticates, answers Hello, lists one host target and then sends the given bytes.\<close>

definition targets_reply :: bytes where
  "targets_reply = [108, 2, 1, 1, 35, 0, 0, 0, 9, 0, 0, 0, 20, 0, 0, 0,
     5, 1, 117, 0, 2, 0, 0, 0, 8, 1, 103, 0, 6, 97, 40, 115, 115, 111, 41, 0, 0, 0, 0, 0,
     27, 0, 0, 0, 0, 0, 0, 0, 4, 0, 0, 0, 104, 111, 115, 116, 0, 0, 0, 0, 0, 0, 0, 0, 0, 0, 0, 0,
     2, 0, 0, 0, 47, 116, 0]"

definition version_reply :: bytes where
  "version_reply = [108, 2, 1, 1, 6, 0, 0, 0, 9, 0, 0, 0, 15, 0, 0, 0,
     5, 1, 117, 0, 3, 0, 0, 0, 8, 1, 103, 0, 1, 115, 0, 0, 1, 0, 0, 0, 50, 0]"

definition su_peer :: "bytes \<Rightarrow> peer" where
  "su_peer third log = Some (if length log = 2 then bytes_of (''OK'' @ [CHR 0x0A])
     else if length log = 4 then demo_hello_reply else if length log = 5 then targets_reply else if length log = 6 then third else [])"

definition su_env :: "bytes \<Rightarrow> env" where
  "su_env third = quiet_env\<lparr>e_fuel := 60, e_bus_up := (\<lambda>_. True), e_peer := (\<lambda>_. su_peer third)\<rparr>"

lemma su_replies:
  "awaitReply 60 1 ''s'' [PString []] demo_hello_reply = Some (Ok [PString '':1''], [])"
  "awaitReply 60 2 ''a(sso)'' [PSlice []] targets_reply
     = Some (Ok [PSlice [VSlice [VString ''host'', VString [], VString ''/t'']]], [])"
  "awaitReply 60 3 ''s'' [PString []] version_reply = Some (Ok [PString ''2''], [])"
  by code_simp+

lemma su_auth: "authenticate (su_peer third) 0 \<lparr>inbuf = [], outlog = [], c_serial = 0, uniqueName = []\<rparr>
    = Ok \<lparr>inbuf = [], outlog = [[0], bytes_of (''AUTH EXTERNAL '' @ hex_encode (show_int 0) @ [CHR 0x0D, CHR 0x0A]),
     bytes_of (''BEGIN'' @ [CHR 0x0D, CHR 0x0A])], c_serial = 0, uniqueName = []\<rparr>"
  by code_simp

lemma su_call:
  assumes "inbuf c = []"
  shows "\<exists>msg. Call 60 (su_peer third) c d p i m [] [] outSig dest = map_option (\<lambda>(res, r). (res, c\<lparr>inbuf := r, outlog := outlog c @ [msg], c_serial := c_serial c + 1\<rparr>))
    (awaitReply 60 (c_serial c + 1) outSig dest (the (su_peer third (outlog c @ [msg]))))"
proof -
  obtain msg where "encodeMethodCall (c_serial c + 1) d p i m [] [] = Ok msg"
    by (rule encodeMethodCall_framed[of "[]" "[]" "[]"]) (auto simp: encodeArgs.simps)
  then show ?thesis using assms
    by (intro exI[of _ msg]) (cases "awaitReply 60 (c_serial c + 1) outSig dest (the (su_peer third (outlog c @ [msg])))",
      auto simp: Call_def nextSerial_def conn_write_def Let_def su_peer_def)
qed

lemma su_open: "\<exists>c. bus_open (su_env third) w = Some (Ok (su_peer third, c), w\<lparr>w_trace := w_trace w @ [EBusDial]\<rparr>) \<and>
  inbuf c = [] \<and> c_serial c = 1 \<and> length (outlog c) = 4"
proof -
  let ?c0 = "\<lparr>inbuf = [], outlog = [[0], bytes_of (''AUTH EXTERNAL '' @ hex_encode (show_int 0) @ [CHR 0x0D, CHR 0x0A]),
     bytes_of (''BEGIN'' @ [CHR 0x0D, CHR 0x0A])], c_serial = 0, uniqueName = []\<rparr> :: conn"
  obtain msg where h: "Call 60 (su_peer third) ?c0 ''org.freedesktop.DBus'' ''/org/freedesktop/DBus'' ''org.freedesktop.DBus'' ''Hello'' [] [] ''s'' [PString []]
    = map_option (\<lambda>(res, r). (res, ?c0\<lparr>inbuf := r, outlog := outlog ?c0 @ [msg], c_serial := c_serial ?c0 + 1\<rparr>))
      (awaitReply 60 1 ''s'' [PString []] (the (su_peer third (outlog ?c0 @ [msg]))))"
    using su_call[of ?c0 third] by fastforce
  show ?thesis
    using h su_replies(1) by (simp add: bus_open_def SystemBus_def Dial_def su_env_def su_auth Let_def su_peer_def quiet_env_def)
qed

lemma su_bus_call:
  assumes "inbuf c = []" "reply = the (su_peer third (replicate (Suc (length (outlog c))) []))"
    "awaitReply 60 (c_serial c + 1) outSig dest reply = Some (res, [])" "res \<noteq> Panic"
  shows "\<exists>c'. bus_call (su_peer third, c) d p i m [] [] outSig dest (su_env third) w
      = Some (Ok (case res of Ok ps \<Rightarrow> Inr ps | Err e \<Rightarrow> Inl (BusErr e), (su_peer third, c')), w\<lparr>w_trace := w_trace w @ [EBusCall d p i m []]\<rparr>) \<and>
    inbuf c' = [] \<and> c_serial c' = c_serial c + 1 \<and> length (outlog c') = Suc (length (outlog c))"
proof -
  obtain msg where "Call 60 (su_peer third) c d p i m [] [] outSig dest = map_option (\<lambda>(res, r). (res, c\<lparr>inbuf := r, outlog := outlog c @ [msg], c_serial := c_serial c + 1\<rparr>))
    (awaitReply 60 (c_serial c + 1) outSig dest (the (su_peer third (outlog c @ [msg]))))"
    using su_call[OF assms(1)] by blast
  then show ?thesis using assms(2-) by (cases res) (auto simp: bus_call_def su_env_def Let_def su_peer_def)
qed

lemma su_targets: "\<exists>c c1. bus_open (su_env third) w = Some (Ok (su_peer third, c), w\<lparr>w_trace := w_trace w @ [EBusDial]\<rparr>) \<and>
   listTargets (su_peer third, c) (su_env third) (w\<lparr>w_trace := w_trace w @ [EBusDial]\<rparr>)
     = Some (Ok (Inr [\<lparr>t_class = ''host'', t_name = [], t_path = ''/t''\<rparr>], (su_peer third, c1)),
         w\<lparr>w_trace := w_trace w @ [EBusDial, list_call]\<rparr>) \<and>
   inbuf c1 = [] \<and> c_serial c1 = 2 \<and> length (outlog c1) = 5"
proof -
  from su_open[of third w] obtain c where c: "bus_open (su_env third) w = Some (Ok (su_peer third, c), w\<lparr>w_trace := w_trace w @ [EBusDial]\<rparr>)"
    "inbuf c = []" "c_serial c = 1" "length (outlog c) = 4" by blast
  have r: "awaitReply 60 (c_serial c + 1) ''a(sso)'' [PSlice []] (the (su_peer third (replicate (Suc (length (outlog c))) [])))
     = Some (Ok [PSlice [VSlice [VString ''host'', VString [], VString ''/t'']]], [])"
    using su_replies(2) c(3,4) by (simp add: su_peer_def)
  have cl: "EBusCall su_busName managerPath managerIface ''ListTargets'' [] = list_call" by (simp add: list_call_def)
  obtain c1 where
    "bus_call (su_peer third, c) su_busName managerPath managerIface ''ListTargets'' [] [] ''a(sso)'' [PSlice []] (su_env third) (w\<lparr>w_trace := w_trace w @ [EBusDial]\<rparr>)
      = Some (Ok (Inr [PSlice [VSlice [VString ''host'', VString [], VString ''/t'']]], (su_peer third, c1)),
          w\<lparr>w_trace := (w_trace w @ [EBusDial]) @ [list_call]\<rparr>)" "inbuf c1 = []" "c_serial c1 = 2" "length (outlog c1) = 5"
    using su_bus_call[OF c(2) refl r, of su_busName managerPath managerIface "''ListTargets''" "w\<lparr>w_trace := w_trace w @ [EBusDial]\<rparr>"]
      c(3,4) cl by auto
  then show ?thesis using c(1)
    by (intro exI[of _ c] exI[of _ c1]) (simp add: listTargets_def gbind_def ret_def slice_out_def List.map_filter_simps target_of_item_def any_string_def)
qed

lemma su_check:
  assumes "inbuf c1 = []" "c_serial c1 = 2" "length (outlog c1) = 5" "awaitReply 60 3 ''s'' [PString []] third = Some (res, [])" "res \<noteq> Panic"
  shows "\<exists>c2. checkNew (su_peer third, c1) t (su_env third) w
    = Some (Ok (map_sum (Wrap ''CheckNew'') string_out (case res of Ok ps \<Rightarrow> Inr ps | Err e \<Rightarrow> Inl (BusErr e)), (su_peer third, c2)),
        w\<lparr>w_trace := w_trace w @ [check_call t]\<rparr>)"
proof -
  have r: "awaitReply 60 (c_serial c1 + 1) ''s'' [PString []] (the (su_peer third (replicate (Suc (length (outlog c1))) []))) = Some (res, [])"
    using assms(2-4) by (simp add: su_peer_def)
  show ?thesis using su_bus_call[OF assms(1) refl r assms(5), of su_busName "t_path t" targetIface "''CheckNew''" w]
    by (auto simp: checkNew_def gbind_def ret_def check_call_def)
qed

section \<open>Properties\<close>


text \<open>\<open>CheckNewVersion\<close> asks exactly one target, the host target whenever the daemon lists one, and
  cannot run past the end of the list of targets.\<close>

theorem CheckNewVersion_asks_host:
  assumes "CheckNewVersion env w = Some (Ok v, w')"
  shows "\<exists>c w0 ts c1 w1 t. listTargets c env w0 = Some (Ok (Inr ts, c1), w1) \<and> t \<in> set ts \<and>
    ((\<exists>h\<in>set ts. isHost h) \<longrightarrow> isHost t) \<and> w_trace w' = w_trace w @ [EBusDial, list_call, check_call t]"
proof -
  from assms[unfolded CheckNewVersion_def gbind_eq_Ok gwrap_eq_Ok] obtain c w0 managed c1 w1 where
    o: "bus_open env w = Some (Ok c, w0)" and cur: "currentTargets c env w0 = Some (Ok (managed, c1), w1)"
    and k: "(case managed of [] \<Rightarrow> panic | m # _ \<Rightarrow>
       let t = (case find isHost managed of Some h \<Rightarrow> h | None \<Rightarrow> m) in
       gbind (checkNew c1 t) (\<lambda>(res, _). case res of
         Inl e \<Rightarrow> fail (Wrap (''sysupdate: '' @ label t) e) | Inr v \<Rightarrow> ret v)) env w1 = Some (Ok v, w')" by auto
  from currentTargets_Ok[OF cur] obtain ts where ts: "listTargets c env w0 = Some (Ok (Inr ts, c1), w1)" "managedTargets ts = Ok managed"
    by blast
  note m = managedTargets_Ok[OF ts(2)]
  obtain m0 ms where mm: "managed = m0 # ms" using m(1) by (cases managed) auto
  define t where "t = (case find isHost managed of Some h \<Rightarrow> h | None \<Rightarrow> m0)"
  have "t \<in> set managed"
  proof (cases "find isHost managed")
    case (Some h)
    then have "h \<in> set managed" by (auto simp: find_Some_iff)
    then show ?thesis using Some by (simp add: t_def)
  qed (simp add: t_def mm)
  then have t1: "t \<in> set ts" using m(2) by blast
  have t2: "(\<exists>h\<in>set ts. isHost h) \<longrightarrow> isHost t"
  proof
    assume "\<exists>h\<in>set ts. isHost h"
    from m(3)[OF this] show "isHost t" by (auto simp: t_def)
  qed
  have "gbind (checkNew c1 t) (\<lambda>(res, _). case res of
       Inl e \<Rightarrow> fail (Wrap (''sysupdate: '' @ label t) e) | Inr v \<Rightarrow> ret v) env w1 = Some (Ok v, w')"
    using k unfolding mm list.case Let_def t_def[unfolded mm, symmetric] .
  then obtain res c2 w2 where n: "checkNew c1 t env w1 = Some (Ok (res, c2), w2)"
    and q: "(case res of Inl e \<Rightarrow> fail (Wrap (''sysupdate: '' @ label t) e) | Inr v \<Rightarrow> ret v) env w2 = Some (Ok v, w')"
    unfolding gbind_eq_Ok by auto
  have "w2 = w'" using q by (cases res) (auto simp: fail_def ret_def)
  with n have "\<exists>x. checkNew c1 t env w1 = Some (Ok x, w')" by blast
  then have "w_trace w' = w_trace w @ [EBusDial, list_call, check_call t]"
    using checkNew_Ok bus_open_Ok[OF o] listTargets_Ok[OF ts(1)] by fastforce
  then show ?thesis using ts(1) t1 t2 by blast
qed


theorem CheckNewVersion_asks_host_witness:
  "\<exists>w' t. CheckNewVersion (su_env version_reply) empty_world = Some (Ok ''2'', w') \<and> w_trace w' = [EBusDial, list_call, check_call t]"
proof -
  let ?t = "\<lparr>t_class = ''host'', t_name = [], t_path = ''/t''\<rparr>"
  obtain c c1 where c: "bus_open (su_env version_reply) empty_world = Some (Ok (su_peer version_reply, c), empty_world\<lparr>w_trace := w_trace empty_world @ [EBusDial]\<rparr>)"
   "listTargets (su_peer version_reply, c) (su_env version_reply) (empty_world\<lparr>w_trace := w_trace empty_world @ [EBusDial]\<rparr>)
     = Some (Ok (Inr [?t], (su_peer version_reply, c1)), empty_world\<lparr>w_trace := w_trace empty_world @ [EBusDial, list_call]\<rparr>)"
   "inbuf c1 = []" "c_serial c1 = 2" "length (outlog c1) = 5" using su_targets by blast
  have "\<exists>w'. CheckNewVersion (su_env version_reply) empty_world = Some (Ok ''2'', w')"
    using c(1,2) su_check[OF c(3-5) su_replies(3), of ?t "empty_world\<lparr>w_trace := w_trace empty_world @ [EBusDial, list_call]\<rparr>"]
    by (auto simp: CheckNewVersion_def currentTargets_def gbind_def gwrap_def of_outcome_def managedTargets_def isHost_def ret_def
        Let_def string_out_def)
  then show ?thesis using CheckNewVersion_asks_host by (fastforce simp: empty_world_def)
qed


end
