(* ===== verification/Quadlet.thy ===== *)
theory Quadlet
  imports Config Runx
begin

text \<open>
  \<^verbatim>\<open>internal/quadlet/expand.go\<close> and \<^verbatim>\<open>internal/quadlet/quadlet.go\<close>: the template
  expander, the podman secrets and the rendering of units and configuration files.
\<close>

section \<open>The expander\<close>

definition ident_start :: "char \<Rightarrow> bool" where
  "ident_start c = ((CHR ''A'' \<le> c \<and> c \<le> CHR ''Z'') \<or> (CHR ''a'' \<le> c \<and> c \<le> CHR ''z'') \<or> c = CHR ''_'')"

definition ident_char :: "char \<Rightarrow> bool" where
  "ident_char c = (ident_start c \<or> is_digit c)"

definition is_ident :: "string \<Rightarrow> bool" where
  "is_ident s = (s \<noteq> [] \<and> ident_start (hd s) \<and> list_all ident_char s)"

text \<open>A match of \<open>varPattern\<close> at the start of the text: the name, the matched text and what follows.
  The first alternative is \<open>${name}\<close>, the second \<open>$name\<close>; a name is as long as possible.\<close>

definition match_var :: "string \<Rightarrow> (string \<times> string \<times> string) option" where
  "match_var s = (case s of
     [] \<Rightarrow> None
   | c # r \<Rightarrow>
     if c \<noteq> CHR ''$'' then None
     else if r \<noteq> [] \<and> hd r = CHR ''{'' then
       (let name = takeWhile ident_char (tl r); r' = dropWhile ident_char (tl r) in
        if is_ident name \<and> r' \<noteq> [] \<and> hd r' = CHR ''}'' then Some (name, ''${'' @ name @ ''}'', tl r') else None)
     else
       (let name = takeWhile ident_char r in
        if is_ident name then Some (name, CHR ''$'' # name, dropWhile ident_char r) else None))"

lemma match_var_split: "match_var s = Some (name, m, rest) \<Longrightarrow> s = m @ rest \<and> m \<noteq> [] \<and> is_ident name"
proof -
  assume m: "match_var s = Some (name, m, rest)"
  then obtain r where s: "s = CHR ''$'' # r" by (cases s) (auto simp: match_var_def split: if_splits)
  show ?thesis
  proof (cases "r \<noteq> [] \<and> hd r = CHR ''{''")
    case True
    then obtain q where r: "r = CHR ''{'' # q" by (cases r) auto
    from m show ?thesis
      by (cases "dropWhile ident_char q")
        (use takeWhile_dropWhile_id[of ident_char q] in \<open>auto simp: match_var_def s r Let_def split: if_splits\<close>)
  next
    case False
    then show ?thesis using m takeWhile_dropWhile_id[of ident_char r]
      by (auto simp: match_var_def s Let_def split: if_splits)
  qed
qed

lemma match_var_shorter: "match_var s = Some (name, m, rest) \<Longrightarrow> length rest < length s"
  using match_var_split[of s name m rest] by (cases m) auto

text \<open>\<open>ReplaceAllStringFunc\<close> with the closure of \<open>strictExpand\<close>: the new text and the names collected in
  \<open>missing\<close>. What a variable stands for is not looked at again.\<close>

function replace_vars :: "(string \<times> string) list \<Rightarrow> string \<Rightarrow> string \<times> string list" where
  "replace_vars vars s = (case s of
     [] \<Rightarrow> ([], [])
   | c # r \<Rightarrow>
     (case match_var s of
        None \<Rightarrow> (case replace_vars vars r of (t, ms) \<Rightarrow> (c # t, ms))
      | Some (name, m, rest) \<Rightarrow>
        (case replace_vars vars rest of (t, ms) \<Rightarrow>
           (case map_of vars name of
              Some v \<Rightarrow> (v @ t, ms)
            | None \<Rightarrow> (m @ t, name # ms)))))"
  by pat_completeness auto
termination
  by (relation "measure (\<lambda>(vars, s). length s)") (auto dest: match_var_shorter)

declare replace_vars.simps [simp del]

definition strictExpand :: "string \<Rightarrow> (string \<times> string) list \<Rightarrow> (gerr, string) outcome" where
  "strictExpand text vars = (case replace_vars vars text of (res, missing) \<Rightarrow>
     if missing \<noteq> [] then Err (Msg (''undefined template variable(s): '' @ join '', '' missing)) else Ok res)"

section \<open>Secrets\<close>

definition quadletDir :: string where "quadletDir = Join [ServiceHomeDir, ''.config/containers/systemd'']"
definition unitDir :: string where "unitDir = Join [ServiceHomeDir, ''.config/systemd/user'']"

definition configFileDests :: "(string \<times> string) list" where
  "configFileDests = [(''traefik-dynamic.yml'', ''traefik/dynamic''), (''museum.yaml'', ''ente''), (''garage.toml'', ''garage'')]"

definition quadletSuffixes :: "string list" where
  "quadletSuffixes = [''.container'', ''.network'', ''.volume'']"

definition secretEnvNames :: "(string \<times> string) list" where
  "secretEnvNames =
     [(''cloudflare_api_token'', ''cf_api_token''),
      (''vaultwarden_admin_token'', ''vaultwarden_admin_token''),
      (''postgres_password'', ''postgres_password''),
      (''garage_rpc_secret'', ''garage_rpc_secret''),
      (''garage_admin_token'', ''garage_admin_token''),
      (''stalwart_admin_password'', ''stalwart_recovery_admin'')]"

definition secretValueTransform :: "string \<Rightarrow> string \<Rightarrow> string" where
  "secretValueTransform key v = (if key = ''stalwart_admin_password'' then ''admin:'' @ v else v)"

definition ensure_secret :: "cfg \<Rightarrow> string \<times> string \<Rightarrow> unit go" where
  "ensure_secret cfg kn = (case kn of (key, secretName) \<Rightarrow>
     let v = cfg_str cfg key in
     if v = [] then println (''warning: quadlet: no value for secret '' @ key)
     else
       gbind (gwrap ''quadlet: check secret''
         (Run [''podman'', ''secret'', ''inspect'', secretName]
            (no_options\<lparr>AsUser := ServiceUser, Capture := True, NoCheck := True\<rparr>))) (\<lambda>res.
       if ExitCode res = 0 then ret ()
       else run_step ''quadlet: create secret'' [''podman'', ''secret'', ''create'', secretName, ''-'']
         (no_options\<lparr>AsUser := ServiceUser, Input := Some (secretValueTransform key v)\<rparr>)))"

definition EnsureSecrets :: "cfg \<Rightarrow> unit go" where
  "EnsureSecrets cfg = grange secretEnvNames (ensure_secret cfg)"

section \<open>Rendering\<close>

definition resolveDest :: "string \<Rightarrow> string option" where
  "resolveDest stem = (case map_of configFileDests stem of
     Some sub \<Rightarrow> Some (Join [DataDir, sub, stem])
   | None \<Rightarrow>
     if list_ex (has_suffix stem) quadletSuffixes then Some (Join [quadletDir, stem])
     else if has_suffix stem ''.target'' then Some (Join [unitDir, stem])
     else None)"

definition templateVars :: "cfg \<Rightarrow> (gerr, (string \<times> string) list) outcome" where
  "templateVars cfg = (let domain = cfg_str cfg ''domain'' in
     if domain = [] then Err (Msg ''quadlet: config.json has no domain set'')
     else Ok
       [(''DOMAIN'', domain), (''MAIL_HOST'', ''mail.'' @ domain), (''VAULT_HOST'', ''vault.'' @ domain),
        (''PHOTOS_HOST'', ''photos.'' @ domain), (''AUTH_HOST'', ''auth.'' @ domain),
        (''LOCKER_HOST'', ''locker.'' @ domain), (''API_HOST'', ''api.'' @ domain),
        (''ALERT_EMAIL'', cfg_str cfg ''alert_email''), (''POSTGRES_PASSWORD'', cfg_str cfg ''postgres_password''),
        (''GARAGE_ADMIN_TOKEN'', cfg_str cfg ''garage_admin_token''),
        (''GARAGE_RPC_SECRET'', cfg_str cfg ''garage_rpc_secret''),
        (''ENTE_ENCRYPTION_KEY'', cfg_str cfg ''ente_encryption_key''),
        (''ENTE_ENCRYPTION_HASH_KEY'', cfg_str cfg ''ente_encryption_hash_key''),
        (''ENTE_JWT_SECRET'', cfg_str cfg ''ente_jwt_secret'')])"

definition tmpl_stem :: "string \<Rightarrow> string" where
  "tmpl_stem tmplPath = trim_suffix (Base tmplPath) ''.tmpl''"

definition render_one :: "(string \<times> string) list \<Rightarrow> string \<Rightarrow> unit go" where
  "render_one vars tmplPath = (case resolveDest (tmpl_stem tmplPath) of
     None \<Rightarrow> println (''warning: quadlet: no destination rule for '' @ tmpl_stem tmplPath)
   | Some dest \<Rightarrow>
     gbind (gwrap ''quadlet: read'' (os_ReadFile tmplPath)) (\<lambda>text.
     gbind (gwrap ''quadlet: render'' (of_outcome (strictExpand text vars))) (\<lambda>rendered.
     gbind (gwrap ''quadlet: mkdir'' (os_MkdirAll (Dir dest) 0x1ED)) (\<lambda>_.
     gwrap ''quadlet: write'' (os_WriteFile dest rendered 0x1A4)))))"

definition RenderAll :: "cfg \<Rightarrow> unit go" where
  "RenderAll cfg =
     gbind (of_outcome (templateVars cfg)) (\<lambda>vars.
     gbind (gwrap ''quadlet: mkdir'' (os_MkdirAll quadletDir 0x1ED)) (\<lambda>_.
     gbind (gwrap ''quadlet: mkdir'' (os_MkdirAll unitDir 0x1ED)) (\<lambda>_.
     gbind (gwrap ''quadlet: glob templates'' (filepath_Glob TemplatesDir ''.tmpl'')) (\<lambda>entries.
     gbind (gforeach (sort entries) (render_one vars)) (\<lambda>_.
     gbind (run_step ''quadlet: chown .config''
       [''chown'', ''-R'', ServiceUser @ '':'' @ ServiceUser, Join [ServiceHomeDir, ''.config'']] no_options) (\<lambda>_.
     gbind (run_step ''quadlet: chown'' [''chown'', ''-R'', ServiceUser @ '':'' @ ServiceUser, DataDir] no_options) (\<lambda>_.
     run_step ''quadlet: daemon-reload''
       [''machinectl'', ''shell'', ServiceUser @ ''@'', ''/usr/bin/systemctl'', ''--user'', ''daemon-reload''] no_options)))))))"

section \<open>Templates as pieces\<close>

text \<open>The pieces of a template.\<close>

datatype tok = Lit string | Braced string | Bare string | Dollar

fun tok_text :: "tok \<Rightarrow> string" where
  "tok_text (Lit s) = s"
| "tok_text (Braced n) = ''${'' @ n @ ''}''"
| "tok_text (Bare n) = CHR ''$'' # n"
| "tok_text Dollar = ''$''"

definition text_of :: "tok list \<Rightarrow> string" where
  "text_of ts = concat (map tok_text ts)"

fun tok_ref :: "tok \<Rightarrow> string option" where
  "tok_ref (Braced n) = Some n"
| "tok_ref (Bare n) = Some n"
| "tok_ref _ = None"

text \<open>A name without braces ends where no name character follows; a dollar sign that starts no
  reference stands for itself.\<close>

fun wf_toks :: "tok list \<Rightarrow> bool" where
  "wf_toks [] = True"
| "wf_toks (Lit s # ts) = (CHR ''$'' \<notin> set s \<and> wf_toks ts)"
| "wf_toks (Braced n # ts) = (is_ident n \<and> wf_toks ts)"
| "wf_toks (Bare n # ts) = (is_ident n \<and> (text_of ts = [] \<or> \<not> ident_char (hd (text_of ts))) \<and> wf_toks ts)"
| "wf_toks (Dollar # ts) = (match_var (CHR ''$'' # text_of ts) = None \<and> wf_toks ts)"

definition tok_value :: "(string \<times> string) list \<Rightarrow> tok \<Rightarrow> string" where
  "tok_value vars t = (case tok_ref t of None \<Rightarrow> tok_text t | Some n \<Rightarrow> (case map_of vars n of Some v \<Rightarrow> v | None \<Rightarrow> tok_text t))"

definition missing_refs :: "(string \<times> string) list \<Rightarrow> tok list \<Rightarrow> string list" where
  "missing_refs vars ts = filter (\<lambda>n. map_of vars n = None) (List.map_filter tok_ref ts)"

lemma is_ident_all: "is_ident n \<Longrightarrow> \<forall>c\<in>set n. ident_char c"
  by (auto simp: is_ident_def list_all_iff)

lemma brace_not_ident: "\<not> ident_char CHR ''}''" "\<not> ident_char CHR ''{''"
  by (simp_all add: ident_char_def ident_start_def is_digit_def less_eq_char_def)

lemma match_Braced: "is_ident n \<Longrightarrow> match_var (''${'' @ n @ ''}'' @ r) = Some (n, ''${'' @ n @ ''}'', r)"
  using is_ident_all[of n] brace_not_ident(1) by (simp add: match_var_def Let_def)

lemma match_Bare:
  assumes "is_ident n" "r = [] \<or> \<not> ident_char (hd r)"
  shows "match_var (CHR ''$'' # n @ r) = Some (n, CHR ''$'' # n, r)"
proof -
  obtain c cs where n: "n = c # cs" using assms(1) by (cases n) (auto simp: is_ident_def)
  have "c \<noteq> CHR ''{''" using assms(1) brace_not_ident(2) by (auto simp: is_ident_def n)
  then show ?thesis
    using assms is_ident_all[OF assms(1)]
    by (cases r) (auto simp: match_var_def Let_def n takeWhile_eq_all_conv[THEN iffD2])
qed

lemma match_var_other: "c \<noteq> CHR ''$'' \<Longrightarrow> match_var (c # s) = None"
  by (simp add: match_var_def)

lemma text_of_Cons [simp]: "text_of (t # ts) = tok_text t @ text_of ts" "text_of [] = []"
  by (simp_all add: text_of_def)

lemma tok_value_simps [simp]:
  "tok_value vars (Lit s) = s" "tok_value vars Dollar = ''$''"
  "tok_value vars (Braced n) = (case map_of vars n of Some v \<Rightarrow> v | None \<Rightarrow> ''${'' @ n @ ''}'')"
  "tok_value vars (Bare n) = (case map_of vars n of Some v \<Rightarrow> v | None \<Rightarrow> CHR ''$'' # n)"
  by (simp_all add: tok_value_def split: option.split)

lemma missing_refs_simps [simp]:
  "missing_refs vars [] = []"
  "missing_refs vars (t # ts) = (case tok_ref t of
     Some n \<Rightarrow> if map_of vars n = None then n # missing_refs vars ts else missing_refs vars ts
   | None \<Rightarrow> missing_refs vars ts)"
  by (auto simp: missing_refs_def List.map_filter_simps split: option.split)

lemma replace_Lit: "CHR ''$'' \<notin> set s \<Longrightarrow> replace_vars vars (s @ t) = apfst ((@) s) (replace_vars vars t)"
proof (induction s)
  case (Cons c s)
  then show ?case by (subst replace_vars.simps) (cases "replace_vars vars t", auto simp: match_var_other)
qed (simp add: apfst_def map_prod_def split: prod.split)

lemma replace_toks:
  "wf_toks ts \<Longrightarrow> replace_vars vars (text_of ts) = (concat (map (tok_value vars) ts), missing_refs vars ts)"
proof (induction ts rule: wf_toks.induct)
  case (3 n ts)
  then show ?case using match_Braced[of n "text_of ts"]
    by (subst replace_vars.simps) (auto split: option.split)
next
  case (4 n ts)
  then show ?case using match_Bare[of n "text_of ts"]
    by (subst replace_vars.simps) (auto split: option.split)
next
  case (5 ts)
  then show ?case by (subst replace_vars.simps) simp
qed (simp_all add: replace_vars.simps[of vars "[]"] replace_Lit)

lemma match_var_tok:
  assumes "match_var s = Some (n, m, r)" "wf_toks ts" "text_of ts = r"
  shows "\<exists>t. wf_toks (t # ts) \<and> text_of (t # ts) = s"
proof -
  obtain q where s: "s = CHR ''$'' # q" using assms(1) by (cases s) (auto simp: match_var_def split: if_splits)
  note sp = match_var_split[OF assms(1)]
  show ?thesis
  proof (cases "q \<noteq> [] \<and> hd q = CHR ''{''")
    case True
    then have "m = ''${'' @ n @ ''}''" using assms(1) by (auto simp: match_var_def s Let_def split: if_splits)
    then show ?thesis using sp assms(2,3) by (intro exI[of _ "Braced n"]) auto
  next
    case False
    then have "m = CHR ''$'' # n" "r = dropWhile ident_char q"
      using assms(1) by (auto simp: match_var_def s Let_def split: if_splits)
    then show ?thesis using sp assms(2,3) hd_dropWhile[of ident_char q]
      by (intro exI[of _ "Bare n"]) auto
  qed
qed

lemma toks_exist: "\<exists>ts. wf_toks ts \<and> text_of ts = s"
proof (induction s rule: length_induct)
  case (1 s)
  show ?case
  proof (cases s)
    case Nil
    then show ?thesis by (intro exI[of _ "[]"]) simp
  next
    case (Cons c r)
    show ?thesis
    proof (cases "match_var s")
      case None
      from 1 obtain ts where "wf_toks ts" "text_of ts = r" by (auto simp: Cons)
      then show ?thesis using None
        by (intro exI[of _ "(if c = CHR ''$'' then Dollar else Lit [c]) # ts"]) (auto simp: Cons)
    next
      case (Some x)
      then obtain n m q where m: "match_var s = Some (n, m, q)" by (cases x) auto
      with match_var_shorter[OF m] 1 obtain ts where "wf_toks ts" "text_of ts = q" by blast
      from match_var_tok[OF m this] show ?thesis by blast
    qed
  qed
qed

section \<open>Where templates go\<close>

definition quadlet_comps :: "string list" where
  "quadlet_comps = [''home'', ''svc'', ''.config'', ''containers'', ''systemd'']"

definition unit_comps :: "string list" where
  "unit_comps = [''home'', ''svc'', ''.config'', ''systemd'', ''user'']"

lemma quadletDir_path: "quadletDir = abs_path quadlet_comps" "\<forall>x\<in>set quadlet_comps. plain x"
  by (simp_all add: quadletDir_def quadlet_comps_def Join_def Clean_def is_abs_def comps_def clean_comps_def
      ServiceHomeDir_def abs_path_def plain_def)

lemma unitDir_path: "unitDir = abs_path unit_comps" "\<forall>x\<in>set unit_comps. plain x"
  by (simp_all add: unitDir_def unit_comps_def Join_def Clean_def is_abs_def comps_def clean_comps_def
      ServiceHomeDir_def abs_path_def plain_def)

lemma has_suffix_plain: "has_suffix s p \<Longrightarrow> CHR ''/'' \<notin> set s \<Longrightarrow> 3 \<le> length p \<Longrightarrow> plain s"
  by (auto simp: plain_def has_suffix_def)

text \<open>The directories a template can be rendered into.\<close>

definition dest_dirs :: "string list list" where
  "dest_dirs = [quadlet_comps, unit_comps, [''srv'', ''data'', ''traefik'', ''dynamic''], [''srv'', ''data'', ''ente''],
     [''srv'', ''data'', ''garage'']]"

lemma config_dest:
  assumes "(stem, sub) \<in> set configFileDests"
  shows "plain stem \<and> (\<exists>cs\<in>set dest_dirs. (\<forall>x\<in>set cs. plain x) \<and> Join [DataDir, sub, stem] = abs_path (cs @ [stem]))"
proof -
  note eval = DataDir_def Join_def Clean_def is_abs_def comps_def clean_comps_def abs_path_def plain_def
  consider "stem = ''traefik-dynamic.yml''" "sub = ''traefik/dynamic''" | "stem = ''museum.yaml''" "sub = ''ente''"
    | "stem = ''garage.toml''" "sub = ''garage''"
    using assms unfolding configFileDests_def by auto
  then show ?thesis
  proof cases
    case 1
    then show ?thesis
      by (intro conjI bexI[of _ "[''srv'', ''data'', ''traefik'', ''dynamic'']"]) (simp_all add: eval dest_dirs_def)
  next
    case 2
    then show ?thesis
      by (intro conjI bexI[of _ "[''srv'', ''data'', ''ente'']"]) (simp_all add: eval dest_dirs_def)
  next
    case 3
    then show ?thesis
      by (intro conjI bexI[of _ "[''srv'', ''data'', ''garage'']"]) (simp_all add: eval dest_dirs_def)
  qed
qed

lemma resolveDest_shape:
  assumes "CHR ''/'' \<notin> set stem" "resolveDest stem = Some d"
  shows "plain stem \<and> (\<exists>cs\<in>set dest_dirs. (\<forall>x\<in>set cs. plain x) \<and> d = abs_path (cs @ [stem]))"
proof (cases "map_of configFileDests stem")
  case None
  then consider (q) "list_ex (has_suffix stem) quadletSuffixes" "d = Join [quadletDir, stem]"
    | (u) "has_suffix stem ''.target''" "d = Join [unitDir, stem]"
    using assms(2) by (auto simp: resolveDest_def split: if_splits)
  then show ?thesis
  proof cases
    case q
    then have "plain stem" using has_suffix_plain assms(1) by (auto simp: quadletSuffixes_def)
    with q show ?thesis using Join_plain[OF quadletDir_path(2) _ quadletDir_path(1)] quadletDir_path(2)
      by (auto simp: dest_dirs_def)
  next
    case u
    then have "plain stem" using has_suffix_plain assms(1) by auto
    with u show ?thesis using Join_plain[OF unitDir_path(2) _ unitDir_path(1)] unitDir_path(2)
      by (auto simp: dest_dirs_def)
  qed
next
  case (Some sub)
  then have "d = Join [DataDir, sub, stem]" "(stem, sub) \<in> set configFileDests"
    using assms(2) by (simp_all add: resolveDest_def map_of_SomeD)
  then show ?thesis using config_dest[of stem sub] by blast
qed


section \<open>Rendering all templates\<close>

definition is_tmpl :: "string \<Rightarrow> bool" where
  "is_tmpl t = (clean_path t \<and> Dir t = TemplatesDir \<and> has_suffix (Base t) ''.tmpl'')"

lemma render_one_files:
  assumes "render_one vars t env w = Some (Ok (), w')"
  shows "case resolveDest (tmpl_stem t) of
      None \<Rightarrow> file_at (w_fs w') = file_at (w_fs w)
    | Some d \<Rightarrow> \<exists>c out. file_at (w_fs w) t = Some c \<and> strictExpand c vars = Ok out \<and>
        file_at (w_fs w') = (file_at (w_fs w))(d \<mapsto> out)"
proof (cases "resolveDest (tmpl_stem t)")
  case None
  then show ?thesis using assms by (auto simp: render_one_def print_item_def)
next
  case (Some d)
  then show ?thesis using assms
    by (auto simp: render_one_def gbind_eq_Ok gwrap_eq_Ok of_outcome_def os_ReadFile_Ok_iff
        dest!: os_WriteFile_files os_MkdirAll_files)
qed

lemma tmpl_stem_facts:
  assumes "is_tmpl t"
  shows "CHR ''/'' \<notin> set (tmpl_stem t)" "t = abs_path ([''usr'', ''share'', ''slfhst'', ''templates''] @ [tmpl_stem t @ ''.tmpl''])"
proof -
  from assms obtain cs c where t: "t = abs_path (cs @ [c])" "\<forall>x\<in>set cs. plain x" "plain c" "Base t = c" "Dir t = abs_path cs"
    by (auto simp: is_tmpl_def elim!: clean_path_snocE)
  have T: "TemplatesDir = abs_path [''usr'', ''share'', ''slfhst'', ''templates'']"
    by (simp add: TemplatesDir_def abs_path_def)
  have "abs_path cs = abs_path [''usr'', ''share'', ''slfhst'', ''templates'']"
    using assms t(5) by (simp add: is_tmpl_def T)
  then have cs: "cs = [''usr'', ''share'', ''slfhst'', ''templates'']"
    by (subst (asm) abs_path_inject) (use t(2) plain_parts in auto)
  from assms t(4) obtain s where s: "c = s @ ''.tmpl''" by (auto simp: is_tmpl_def has_suffix_iff)
  have st: "tmpl_stem t = s" using t(4) s by (simp add: tmpl_stem_def trim_suffix_def has_suffix_iff)
  show "CHR ''/'' \<notin> set (tmpl_stem t)" using t(3) by (simp add: plain_def s st)
  show "t = abs_path ([''usr'', ''share'', ''slfhst'', ''templates''] @ [tmpl_stem t @ ''.tmpl''])"
    unfolding st using t(1) unfolding cs s .
qed

lemma dest_not_tmpl:
  assumes "is_tmpl t" "is_tmpl t'" "resolveDest (tmpl_stem t) = Some d"
  shows "d \<noteq> t'"
proof
  assume "d = t'"
  from resolveDest_shape[OF tmpl_stem_facts(1)[OF assms(1)] assms(3)] obtain cs where
    "plain (tmpl_stem t)" "cs \<in> set dest_dirs" "\<forall>x\<in>set cs. plain x" "d = abs_path (cs @ [tmpl_stem t])" by blast
  with \<open>d = t'\<close> Dir_snoc have "abs_path cs = TemplatesDir" "cs \<in> set dest_dirs"
    using assms(2) by (auto simp: is_tmpl_def)
  then show False
    by (auto simp: dest_dirs_def quadlet_comps_def unit_comps_def abs_path_def TemplatesDir_def)
qed

lemma dest_inject:
  assumes "is_tmpl t" "is_tmpl t'" "resolveDest (tmpl_stem t) = Some d" "resolveDest (tmpl_stem t') = Some d"
  shows "t = t'"
proof -
  have "Base d = tmpl_stem u" if "is_tmpl u" "resolveDest (tmpl_stem u) = Some d" for u
    using resolveDest_shape[OF tmpl_stem_facts(1)[OF that(1)] that(2)] Base_snoc by blast
  then have "tmpl_stem t = tmpl_stem t'" using assms by metis
  then show ?thesis using tmpl_stem_facts(2)[OF assms(1)] tmpl_stem_facts(2)[OF assms(2)] by simp
qed

lemma render_loop:
  assumes "gforeach ts (render_one vars) env w = Some (Ok (), w')" "\<forall>t\<in>set ts. is_tmpl t"
  shows "(\<forall>p. (\<forall>t\<in>set ts. resolveDest (tmpl_stem t) \<noteq> Some p) \<longrightarrow> file_at (w_fs w') p = file_at (w_fs w) p) \<and>
    (\<forall>t\<in>set ts. \<forall>d. resolveDest (tmpl_stem t) = Some d \<longrightarrow>
       (\<exists>c out. file_at (w_fs w) t = Some c \<and> strictExpand c vars = Ok out \<and> file_at (w_fs w') d = Some out))"
  using assms
proof (induction ts arbitrary: w)
  case (Cons t ts)
  then obtain w1 where w1: "render_one vars t env w = Some (Ok (), w1)" "gforeach ts (render_one vars) env w1 = Some (Ok (), w')"
    by (auto simp: gforeach_Ok simp del: gforeach.simps)
  note IH = Cons.IH[OF w1(2)] and step = render_one_files[OF w1(1)]
  show ?case
  proof (cases "resolveDest (tmpl_stem t)")
    case None
    then show ?thesis using IH step Cons.prems by auto
  next
    case (Some d)
    with step obtain c out where st: "file_at (w_fs w) t = Some c" "strictExpand c vars = Ok out"
      "file_at (w_fs w1) = (file_at (w_fs w))(d \<mapsto> out)" by auto
    have same: "file_at (w_fs w1) u = file_at (w_fs w) u" if "is_tmpl u" for u
      using dest_not_tmpl[OF _ that Some] Cons.prems(2) st(3) by auto
    have last: "file_at (w_fs w') d = Some out" if "\<forall>u\<in>set ts. resolveDest (tmpl_stem u) \<noteq> Some d"
      using IH that Cons.prems(2) st(3) by auto
    have other: "t = u" if "u \<in> set ts" "resolveDest (tmpl_stem u) = Some d" for u
      using dest_inject[OF _ _ Some that(2)] that(1) Cons.prems(2) by auto
    show ?thesis
    proof (intro conjI allI ballI impI)
      fix p assume "\<forall>u\<in>set (t # ts). resolveDest (tmpl_stem u) \<noteq> Some p"
      then show "file_at (w_fs w') p = file_at (w_fs w) p" using IH Cons.prems(2) st(3) Some by auto
    next
      fix u e assume u: "u \<in> set (t # ts)" "resolveDest (tmpl_stem u) = Some e"
      show "\<exists>c out. file_at (w_fs w) u = Some c \<and> strictExpand c vars = Ok out \<and> file_at (w_fs w') e = Some out"
      proof (cases "u \<in> set ts")
        case True
        then show ?thesis using IH u Cons.prems(2) same[of u] by auto
      next
        case False
        then have "u = t" "e = d" using u Some by auto
        then show ?thesis using st last other False by blast
      qed
    qed
  qed
qed (simp add: ret_def)


definition tmpl_path :: "string \<Rightarrow> string" where
  "tmpl_path stem = TemplatesDir @ ''/'' @ stem @ ''.tmpl''"

lemma tmpl_path_facts:
  assumes "CHR ''/'' \<notin> set stem"
  shows "is_tmpl (tmpl_path stem)" "tmpl_stem (tmpl_path stem) = stem"
proof -
  let ?T = "[''usr'', ''share'', ''slfhst'', ''templates'']" and ?c = "stem @ ''.tmpl''"
  have T: "\<forall>x\<in>set ?T. plain x" "TemplatesDir = abs_path ?T" by (simp_all add: plain_def TemplatesDir_def abs_path_def)
  have suf: "has_suffix ?c ''.tmpl''" unfolding has_suffix_iff by blast
  then have c: "plain ?c" by (rule has_suffix_plain) (use assms in auto)
  have t: "tmpl_path stem = abs_path (?T @ [?c])"
    by (simp add: tmpl_path_def TemplatesDir_def abs_path_def)
  have "clean_path (tmpl_path stem)"
    unfolding clean_path_def t comps_snoc[OF T(1) c] using T(1) c by (simp add: list_all_iff)
  then show "is_tmpl (tmpl_path stem)"
    unfolding is_tmpl_def t Dir_snoc[OF T(1) c] Base_snoc[OF T(1) c] using suf T(2) by simp
  show "tmpl_stem (tmpl_path stem) = stem"
    unfolding tmpl_stem_def t Base_snoc[OF T(1) c] trim_suffix_def using suf by simp
qed

lemma glob_templates:
  assumes "clean_fs f"
  shows "\<forall>t\<in>set (fs_glob TemplatesDir ''.tmpl'' f). is_tmpl t"
    and "is_tmpl t \<Longrightarrow> file_at f t = Some c \<Longrightarrow> t \<in> set (fs_glob TemplatesDir ''.tmpl'' f)"
proof -
  show "\<forall>t\<in>set (fs_glob TemplatesDir ''.tmpl'' f). is_tmpl t"
    using assms by (auto simp: fs_glob_def is_tmpl_def clean_fs_def)
  assume "is_tmpl t" "file_at f t = Some c"
  moreover from this have "t \<in> fst ` set f"
    by (auto simp: file_at_def split: option.splits dest: map_of_SomeD intro: rev_image_eqI)
  ultimately show "t \<in> set (fs_glob TemplatesDir ''.tmpl'' f)" by (auto simp: fs_glob_def is_tmpl_def)
qed

definition demo_tree :: fs where
  "demo_tree = [(''/usr/share/slfhst/templates/x.target.tmpl'', NFile 0x1A4 (0, 0) ''D=$DOMAIN''),
     (''/home'', NDir 0x1ED (0, 0)), (''/home/svc'', NDir 0x1ED (0, 0)), (''/home/svc/.config'', NDir 0x1ED (0, 0)),
     (''/home/svc/.config/containers'', NDir 0x1ED (0, 0)), (''/home/svc/.config/containers/systemd'', NDir 0x1ED (0, 0)),
     (''/home/svc/.config/systemd'', NDir 0x1ED (0, 0)), (''/home/svc/.config/systemd/user'', NDir 0x1ED (0, 0))]"

lemma demo_tree_dirs:
  "fs_mkdirs m (path_prefixes quadletDir) demo_tree = Ok demo_tree" "fs_mkdirs m (path_prefixes unitDir) demo_tree = Ok demo_tree"
  "is_dir demo_tree unitDir"
  by (simp_all add: quadletDir_path unitDir_path quadlet_comps_def unit_comps_def path_prefixes_def comps_def
      abs_path_def demo_tree_def is_dir_def)

lemma demo_tree_glob: "fs_glob TemplatesDir ''.tmpl'' demo_tree = [tmpl_path ''x.target'']"
  by (simp add: fs_glob_def demo_tree_def has_suffix_def Base_def comps_def TemplatesDir_def tmpl_path_def
      Dir_def Clean_def is_abs_def clean_comps_def abs_path_def)

lemma demo_tree_clean: "clean_fs demo_tree"
  by (simp add: clean_fs_def demo_tree_def clean_path_def comps_def plain_def abs_path_def)

section \<open>Properties\<close>

text \<open>C11: Every template text is a sequence of literal pieces, references \<open>${name}\<close> and \<open>$name\<close> and stray
  dollar signs, and \<open>strictExpand\<close> is substitution piece by piece: when every name is defined, each
  reference is replaced by its value and nothing else changes; otherwise it fails and names exactly
  the undefined references, in order.\<close>

theorem strictExpand_substitutes:
  "(\<exists>ts. wf_toks ts \<and> text_of ts = tmpl) \<and>
   (\<forall>ts. wf_toks ts \<and> text_of ts = tmpl \<longrightarrow>
      strictExpand tmpl vars =
        (if missing_refs vars ts = [] then Ok (concat (map (tok_value vars) ts))
         else Err (Msg (''undefined template variable(s): '' @ join '', '' (missing_refs vars ts)))))"
proof (intro conjI allI impI toks_exist)
  fix ts assume "wf_toks ts \<and> text_of ts = tmpl"
  then show "strictExpand tmpl vars =
      (if missing_refs vars ts = [] then Ok (concat (map (tok_value vars) ts))
       else Err (Msg (''undefined template variable(s): '' @ join '', '' (missing_refs vars ts))))"
    using replace_toks[of ts vars] by (auto simp: strictExpand_def)
qed

theorem strictExpand_substitutes_witness:
  "strictExpand ''Host=${MAIL_HOST}:$PORT $'' [(''MAIL_HOST'', ''mail.$X''), (''PORT'', ''25'')] = Ok ''Host=mail.$X:25 $''"
proof -
  let ?ts = "[Lit ''Host='', Braced ''MAIL_HOST'', Lit '':'', Bare ''PORT'', Lit '' '', Dollar]"
  have "wf_toks ?ts"
    by (simp add: is_ident_def ident_char_def ident_start_def is_digit_def less_eq_char_def match_var_def
        Let_def)
  moreover have "text_of ?ts = ''Host=${MAIL_HOST}:$PORT $''" by simp
  ultimately have "strictExpand ''Host=${MAIL_HOST}:$PORT $'' [(''MAIL_HOST'', ''mail.$X''), (''PORT'', ''25'')]
      = (if missing_refs [(''MAIL_HOST'', ''mail.$X''), (''PORT'', ''25'')] ?ts = []
         then Ok (concat (map (tok_value [(''MAIL_HOST'', ''mail.$X''), (''PORT'', ''25'')]) ?ts))
         else Err (Msg (''undefined template variable(s): '' @
           join '', '' (missing_refs [(''MAIL_HOST'', ''mail.$X''), (''PORT'', ''25'')] ?ts))))"
    using strictExpand_substitutes by blast
  then show ?thesis by simp
qed

text \<open>A doubled dollar sign, which Python's \<open>string.Template\<close> turns into one, and a dollar sign that
  starts no reference, which its strict mode rejects, both pass through unchanged.\<close>

theorem dollar_passes_through:
  "strictExpand ''$$'' vars = Ok ''$$'' \<and> strictExpand ''$'' vars = Ok ''$'' \<and>
   strictExpand ''$${A}'' [(''A'', ''x'')] = Ok ''$x''"
  by (simp add: strictExpand_def replace_vars.simps match_var_def Let_def is_ident_def ident_char_def
      ident_start_def is_digit_def less_eq_char_def)




end
