(* ===== verification/Monitor.thy ===== *)
theory Monitor
  imports Firewall Sysupdate
begin

text \<open>
  \<^verbatim>\<open>internal/monitor/monitor.go\<close>: the periodic check and its alert mail.
\<close>

section \<open>Probes\<close>

definition appServices :: "string list" where
  "appServices = [''traefik'', ''postgres'', ''garage'', ''stalwart'', ''bulwark'', ''museum'',
     ''ente-web-photos'', ''ente-web-auth'', ''ente-web-locker'', ''vaultwarden'']"

definition portChecks :: "nat list" where
  "portChecks = [8443, 2525, 4465, 4993, 4190]"

definition dnsblZones :: "string list" where
  "dnsblZones = [''zen.spamhaus.org'', ''bl.spamcop.net'', ''b.barracudacentral.org'']"

definition smtpHost :: string where "smtpHost = ''127.0.0.1''"
definition smtpPort :: nat where "smtpPort = 2525"

definition service_status :: "string \<Rightarrow> string go" where
  "service_status name =
     gbind (gtry (Run [''systemctl'', ''--user'', ''is-active'', name @ ''.service'']
       (no_options\<lparr>AsUser := ServiceUser, Capture := True, NoCheck := True\<rparr>))) (\<lambda>res.
     ret (case res of
       Inl _ \<Rightarrow> ''unknown''
     | Inr r \<Rightarrow> (let s = trim_space (Stdout r) in if s \<noteq> [] then s else ''unknown'')))"

text \<open>The map from service to state, filled in order.\<close>

definition ServiceStatus :: "(string \<times> string) list go" where
  "ServiceStatus = gfold appServices (\<lambda>name out.
     gbind (service_status name) (\<lambda>status. ret (AList.update name status out))) []"

definition status_of :: "(string \<times> string) list \<Rightarrow> string \<Rightarrow> string" where
  "status_of m name = (case map_of m name of Some s \<Rightarrow> s | None \<Rightarrow> [])"

text \<open>\<open>%-20s\<close>.\<close>

definition pad20 :: "string \<Rightarrow> string" where
  "pad20 s = s @ replicate (20 - length s) (CHR 0x20)"

definition Status :: "store \<Rightarrow> unit go" where
  "Status s = gbind ServiceStatus (\<lambda>statuses. gforeach appServices (\<lambda>name.
     println (pad20 name @ '' '' @ status_of statuses name)))"

definition dial_tcp :: "string \<Rightarrow> nat \<Rightarrow> bool go" where
  "dial_tcp host port = (\<lambda>env w. Some (Ok (e_tcp env (w_trace w) host port), w\<lparr>w_trace := w_trace w @ [ETcp host port]\<rparr>))"

definition failedPorts :: "nat list go" where
  "failedPorts = gfold portChecks (\<lambda>port failed.
     gbind (dial_tcp ''127.0.0.1'' port) (\<lambda>up. ret (if up then failed else failed @ [port]))) []"

definition reverseIPv4 :: "string \<Rightarrow> string option" where
  "reverseIPv4 ip = (case split_on (CHR ''.'') ip of
     [a, b, c, d] \<Rightarrow> Some (d @ ''.'' @ c @ ''.'' @ b @ ''.'' @ a)
   | _ \<Rightarrow> None)"

definition lookupHost :: "string \<Rightarrow> bool go" where
  "lookupHost name = (\<lambda>env w. Some (Ok (e_lookup env (w_trace w) name), w\<lparr>w_trace := w_trace w @ [ELookup name]\<rparr>))"

definition dnsblListings :: "string \<Rightarrow> string list go" where
  "dnsblListings ip = (case reverseIPv4 ip of
     None \<Rightarrow> ret []
   | Some rev_ip \<Rightarrow> gfold dnsblZones (\<lambda>zone listed.
       gbind (lookupHost (rev_ip @ ''.'' @ zone)) (\<lambda>found. ret (if found then listed @ [zone] else listed))) [])"

section \<open>Alerts\<close>

fun smtp_warning :: "smtp_step \<Rightarrow> string" where
  "smtp_warning SDial = ''warning: monitor: alert relay unreachable:''"
| "smtp_warning SHandshake = ''warning: monitor: alert SMTP handshake failed:''"
| "smtp_warning SMailFrom = ''warning: monitor: alert MAIL FROM failed:''"
| "smtp_warning SRcptTo = ''warning: monitor: alert RCPT TO failed:''"
| "smtp_warning SData = ''warning: monitor: alert DATA failed:''"
| "smtp_warning SWrite = ''warning: monitor: alert write failed:''"
| "smtp_warning SClose = ''warning: monitor: alert send failed:''"

definition crlf :: string where "crlf = [CHR 0x0D, CHR 0x0A]"

definition alert_msg :: "string \<Rightarrow> string \<Rightarrow> string \<Rightarrow> string \<Rightarrow> string" where
  "alert_msg from to subject body = ''From: '' @ from @ crlf @ ''To: '' @ to @ crlf @ ''Subject: [slfhst] '' @ subject
     @ crlf @ crlf @ body @ crlf"

text \<open>The dialogue with the relay is one action of the environment, which says at which step it broke
  off, if it did.\<close>

definition sendAlert :: "cfg \<Rightarrow> string \<Rightarrow> string \<Rightarrow> unit go" where
  "sendAlert cfg subject body =
     (let domain = cfg_str cfg ''domain''; alertEmail = cfg_str cfg ''alert_email'' in
      if alertEmail = [] then println ''warning: monitor: no alert_email configured, not sending alert''
      else (\<lambda>env w.
        let from = ''slfhst@'' @ domain; msg = alert_msg from alertEmail subject body;
            w' = w\<lparr>w_trace := w_trace w @ [EMail from alertEmail msg]\<rparr> in
        case e_mail env (w_trace w) from alertEmail msg of
          None \<Rightarrow> Some (Ok (), w')
        | Some (step, err) \<Rightarrow> print_item (OErr (smtp_warning step) err) env w'))"

definition err_text :: "gerr \<Rightarrow> string go" where
  "err_text e = (\<lambda>env w. Some (Ok (e_err env e), w))"

section \<open>The check\<close>

definition service_issues :: "(string \<times> string) list \<Rightarrow> string list" where
  "service_issues statuses = List.map_filter (\<lambda>name.
     if status_of statuses name \<noteq> ''active'' then Some (''service '' @ name @ '' is '' @ status_of statuses name) else None) appServices"

definition port_issues :: "nat list \<Rightarrow> string list" where
  "port_issues ports = map (\<lambda>p. ''port '' @ show_nat p @ '' is not accepting connections'') ports"

definition dnsbl_issues :: "string list go" where
  "dnsbl_issues = gbind (gtry PublicIP) (\<lambda>res. case res of
     Inl err \<Rightarrow> gbind (err_text err) (\<lambda>t. ret [''could not determine public IP for DNSBL check: '' @ t])
   | Inr ip \<Rightarrow> gbind (dnsblListings ip) (\<lambda>listed.
       ret (if listed \<noteq> [] then [''listed on DNSBL(s): '' @ join '', '' listed] else [])))"

definition update_status :: "string go" where
  "update_status = gbind (gtry CheckNewVersion) (\<lambda>res. case res of
     Inl err \<Rightarrow> gbind (err_text err) (\<lambda>t. ret (''update check failed: '' @ t))
   | Inr v \<Rightarrow> ret (if v \<noteq> [] then ''new version available: '' @ v else ''up to date''))"

definition CheckAll :: "store \<Rightarrow> unit go" where
  "CheckAll s =
     gbind (IsDone s ''stage2'') (\<lambda>done.
     if \<not> done then println ''monitor: stage2 not done yet, skipping check-all''
     else
       gbind (Load s) (\<lambda>cfg.
       gbind ServiceStatus (\<lambda>statuses.
       gbind failedPorts (\<lambda>ports.
       gbind dnsbl_issues (\<lambda>dns.
       gbind (gtry SyncCloudflareIPSets) (\<lambda>sync.
       gbind (case sync of Inl err \<Rightarrow> print_item (OErr ''warning: monitor: cf-ips sync failed during check-all:'' err) | Inr _ \<Rightarrow> ret ()) (\<lambda>_.
       gbind update_status (\<lambda>updateStatus.
       let issues = service_issues statuses @ port_issues ports @ dns in
       if issues = [] then println ''monitor: all clear''
       else sendAlert cfg ''action needed''
         (join [CHR 0x0A] issues @ [CHR 0x0A, CHR 0x0A] @ ''OS update status: '' @ updateStatus)))))))))"

section \<open>What the probes answer\<close>

lemma service_status_Ok: "\<exists>s w'. service_status n env w = Some (Ok s, w')"
proof -
  obtain r w' where "gtry (Run [''systemctl'', ''--user'', ''is-active'', n @ ''.service'']
      (no_options\<lparr>AsUser := ServiceUser, Capture := True, NoCheck := True\<rparr>)) env w = Some (Ok r, w')" using Run_try by blast
  then show ?thesis by (simp add: service_status_def gbind_def ret_def)
qed

lemma ServiceStatus_Ok: "\<exists>st w'. ServiceStatus env w = Some (Ok st, w')"
  unfolding ServiceStatus_def
proof (rule gfold_total)
  fix n out w show "\<exists>s' w'. gbind (service_status n) (\<lambda>status. ret (AList.update n status out)) env w = Some (Ok s', w')"
    using service_status_Ok[of n env w] by (auto simp: gbind_def ret_def)
qed

lemma failedPorts_Ok: "\<exists>ps w'. failedPorts env w = Some (Ok ps, w')"
  unfolding failedPorts_def by (rule gfold_total) (auto simp: gbind_def dial_tcp_def ret_def)

lemma dnsblListings_Ok: "\<exists>ls w'. dnsblListings ip env w = Some (Ok ls, w')"
proof (cases "reverseIPv4 ip")
  case (Some r)
  have "\<exists>ls w'. gfold dnsblZones (\<lambda>zone listed.
       gbind (lookupHost (r @ ''.'' @ zone)) (\<lambda>found. ret (if found then listed @ [zone] else listed))) [] env w = Some (Ok ls, w')"
    by (rule gfold_total) (auto simp: gbind_def lookupHost_def ret_def)
  then show ?thesis by (simp add: dnsblListings_def Some)
qed (simp add: dnsblListings_def ret_def)

lemma scan_ip_no_panic: "scan_ip ok ls \<noteq> Panic"
  by (induction ok ls rule: scan_ip.induct) (auto split: prod.splits bool.splits)

lemma PublicIP_cases: "\<exists>r w'. PublicIP env w = Some (r, w') \<and> r \<noteq> Panic"
proof (cases "e_http env (w_trace w) \<lparr>h_method = ''GET'', h_url = traceURL, h_token = [], h_body = None\<rparr>")
  case (Some resp)
  then show ?thesis using scan_ip_no_panic by (simp add: PublicIP_def gbind_def gwrap_def http_do_def of_outcome_def Let_def)
qed (simp add: PublicIP_def gbind_def gwrap_def http_do_def Let_def)

lemma dnsbl_issues_Ok: "\<exists>is w'. dnsbl_issues env w = Some (Ok is, w')"
proof -
  obtain r w1 where r: "PublicIP env w = Some (r, w1)" "r \<noteq> Panic" using PublicIP_cases by blast
  show ?thesis
  proof (cases r)
    case (Ok ip)
    then show ?thesis using r dnsblListings_Ok[of ip env w1] by (auto simp: dnsbl_issues_def gbind_def gtry_def ret_def)
  qed (use r in \<open>auto simp: dnsbl_issues_def gbind_def gtry_def ret_def err_text_def\<close>)
qed

text \<open>The outcome of the port check, whatever the history.\<close>

lemma failedPorts_result:
  assumes "failedPorts env w = Some (Ok ps, w')"
  shows "(\<forall>tr p. p \<in> set portChecks \<longrightarrow> e_tcp env tr ''127.0.0.1'' p) \<Longrightarrow> ps = []"
    and "p \<in> set portChecks \<Longrightarrow> (\<forall>tr. \<not> e_tcp env tr ''127.0.0.1'' p) \<Longrightarrow> p \<in> set ps"
proof -
  let ?f = "\<lambda>port failed. gbind (dial_tcp ''127.0.0.1'' port) (\<lambda>up. ret (if up then failed else failed @ [port]))"
  have step: "?f q acc env v = Some (Ok (if e_tcp env (w_trace v) ''127.0.0.1'' q then acc else acc @ [q]), v\<lparr>w_trace := w_trace v @ [ETcp ''127.0.0.1'' q]\<rparr>)" for q acc v
    by (simp add: gbind_def dial_tcp_def ret_def)
  have "gfold qs ?f acc env v = Some (Ok out, v') \<Longrightarrow> (\<forall>tr q. q \<in> set qs \<longrightarrow> e_tcp env tr ''127.0.0.1'' q) \<Longrightarrow> out = acc" for qs acc v out v'
  proof (induction qs arbitrary: acc v)
    case (Cons q qs)
    then show ?case using Cons.IH unfolding gfold_Cons_run[of ?f, OF step] by auto
  qed (simp add: ret_def)
  from this[of portChecks "[]"] assms show "(\<forall>tr p. p \<in> set portChecks \<longrightarrow> e_tcp env tr ''127.0.0.1'' p) \<Longrightarrow> ps = []"
    unfolding failedPorts_def by blast
  have "gfold qs ?f acc env v = Some (Ok out, v') \<Longrightarrow> set acc \<subseteq> set out \<and> (p \<in> set qs \<and> (\<forall>tr. \<not> e_tcp env tr ''127.0.0.1'' p) \<longrightarrow> p \<in> set out)" for qs acc v out v'
  proof (induction qs arbitrary: acc v)
    case (Cons q qs)
    from Cons.IH[OF Cons.prems[unfolded gfold_Cons_run[of ?f, OF step]]] show ?case by (auto split: if_splits)
  qed (simp add: ret_def)
  from this[of portChecks "[]"] assms show "p \<in> set portChecks \<Longrightarrow> (\<forall>tr. \<not> e_tcp env tr ''127.0.0.1'' p) \<Longrightarrow> p \<in> set ps"
    unfolding failedPorts_def by blast
qed


section \<open>Mail\<close>

fun is_mail :: "event \<Rightarrow> bool" where
  "is_mail (EMail _ _ _) = True"
| "is_mail _ = False"

definition no_mail :: "world \<Rightarrow> world \<Rightarrow> bool" where
  "no_mail w w' \<longleftrightarrow> filter is_mail (w_trace w') = filter is_mail (w_trace w)"

interpretation nm: world_order no_mail
  by unfold_locales (simp_all add: no_mail_def)

lemma no_mail_basic [intro!]:
  "keeps no_mail (io_call op g)" "keeps no_mail (Run argv opts)" "keeps no_mail (http_do req)" "keeps no_mail (dial_tcp h port)"
  "keeps no_mail (lookupHost n)" "keeps no_mail bus_open" "keeps no_mail (bus_call c d p i m isig args osig dest)"
  "keeps no_mail (print_item it)" "keeps no_mail (err_text e)"
  by (auto simp: keeps_def no_mail_def io_call_def Run_def http_do_def dial_tcp_def lookupHost_def bus_open_def bus_call_def
      print_item_def err_text_def fail_def Let_def split: option.splits outcome.splits prod.splits if_splits)

lemma no_mail_split [intro!]:
  "(\<And>a b. keeps no_mail (f a b)) \<Longrightarrow> keeps no_mail (case p of (a, b) \<Rightarrow> f a b)"
  "(\<And>a. keeps no_mail (g a)) \<Longrightarrow> (\<And>b. keeps no_mail (h b)) \<Longrightarrow> keeps no_mail (case q of Inl a \<Rightarrow> g a | Inr b \<Rightarrow> h b)"
  "keeps no_mail m \<Longrightarrow> keeps no_mail m' \<Longrightarrow> keeps no_mail (if c then m else m')"
  by (simp_all split: prod.split sum.split)

lemma no_mail_parts:
  "keeps no_mail (Load s)" "keeps no_mail ServiceStatus" "keeps no_mail failedPorts" "keeps no_mail (dnsblListings ip)"
  "keeps no_mail (IsDone s n)" "keeps no_mail PublicIP" "keeps no_mail (readCIDRList p)" "keeps no_mail (ensureIPSet c n fam)"
  "keeps no_mail (listTargets c)" "keeps no_mail (checkNew c t)"
  subgoal unfolding Load_def os_ReadFile_def by (auto split: option.split sum.split)
  subgoal unfolding ServiceStatus_def service_status_def by auto
  subgoal unfolding failedPorts_def by auto
  subgoal unfolding dnsblListings_def by (auto split: option.split)
  subgoal unfolding IsDone_def os_Stat_def by auto
  subgoal unfolding PublicIP_def by auto
  subgoal unfolding readCIDRList_def os_ReadFile_def by auto
  subgoal unfolding ensureIPSet_def by (auto split: gerr.split call_err.split)
  subgoal unfolding listTargets_def by auto
  subgoal unfolding checkNew_def by auto
  done

lemma no_mail_wholes:
  "keeps no_mail dnsbl_issues" "keeps no_mail SyncCloudflareIPSets" "keeps no_mail CheckNewVersion" "keeps no_mail update_status"
proof -
  note p = no_mail_parts
  show "keeps no_mail dnsbl_issues" unfolding dnsbl_issues_def by (auto intro: p)
  show "keeps no_mail SyncCloudflareIPSets" unfolding SyncCloudflareIPSets_def sync_set_def by (auto split: prod.split intro: p)
  have "keeps no_mail (currentTargets c)" for c unfolding currentTargets_def by (auto intro: p)
  then show c: "keeps no_mail CheckNewVersion" unfolding CheckNewVersion_def by (auto simp: Let_def split: list.split intro: p)
  show "keeps no_mail update_status" unfolding update_status_def by (auto intro: c)
qed


lemma sendAlert_mail:
  assumes "cfg_str cfg ''alert_email'' \<noteq> []" "sendAlert cfg subject body env w = Some (Ok (), w')"
  shows "w_trace w' = w_trace w @ [EMail (''slfhst@'' @ cfg_str cfg ''domain'') (cfg_str cfg ''alert_email'')
    (alert_msg (''slfhst@'' @ cfg_str cfg ''domain'') (cfg_str cfg ''alert_email'') subject body)]"
  using assms by (auto simp: sendAlert_def Let_def print_item_def split: option.splits prod.splits)

text \<open>An environment in which nothing is wrong: commands report \<open>active\<close>, ports answer, the address is
  known and listed nowhere.\<close>

definition healthy :: "env \<Rightarrow> bool" where
  "healthy env \<longleftrightarrow>
     (\<forall>tr f argv ev i. started (fst (e_exec env tr f argv ev i)) \<and> trim_space (c_stdout (fst (e_exec env tr f argv ev i))) = ''active'') \<and>
     (\<forall>tr h p. e_tcp env tr h p) \<and> (\<forall>tr n. \<not> e_lookup env tr n) \<and>
     (\<forall>tr req. \<exists>resp ip. e_http env tr req = Some resp \<and> scan_ip (h_read_ok resp) (raw_lines (h_data resp)) = Ok ip)"

lemma healthy_status:
  assumes "healthy env" "ServiceStatus env w = Some (Ok st, w')"
  shows "service_issues st = []"
proof -
  let ?f = "\<lambda>name out. gbind (service_status name) (\<lambda>status. ret (AList.update name status out))"
  have step: "\<exists>v'. ?f n out env v = Some (Ok (AList.update n ''active'' out), v')" for n out v
  proof -
    let ?o = "no_options\<lparr>AsUser := ServiceUser, Capture := True, NoCheck := True\<rparr>"
    obtain c f' where e: "e_exec env (w_trace v) (w_fs v) (buildArgv [''systemctl'', ''--user'', ''is-active'', n @ ''.service''] ?o) (Env ?o) (Input ?o) = (c, f')"
      by (metis prod.exhaust)
    have "started c \<and> trim_space (c_stdout c) = ''active''" using assms(1) e unfolding healthy_def by (metis fst_conv)
    then show ?thesis using e by (simp add: service_status_def gbind_def gtry_def Run_def ret_def)
  qed
  have all: "gfold ns ?f out env v = Some (Ok st, v') \<Longrightarrow> \<forall>n. map_of out n \<in> {None, Some ''active''} \<Longrightarrow>
      (\<forall>n. map_of st n \<in> {None, Some ''active''}) \<and> (\<forall>n. n \<in> set ns \<or> map_of out n \<noteq> None \<longrightarrow> map_of st n \<noteq> None)" for ns out v v'
  proof (induction ns arbitrary: out v)
    case (Cons n ns)
    obtain v1 where "?f n out env v = Some (Ok (AList.update n ''active'' out), v1)" using step by blast
    from Cons.IH[OF Cons.prems(1)[unfolded gfold_Cons_run[of ?f, OF this]]] Cons.prems(2) show ?case by auto
  qed (auto simp: ret_def)
  have "(\<forall>n. map_of st n \<in> {None, Some ''active''}) \<and> (\<forall>n. n \<in> set appServices \<or> map_of ([] :: (string \<times> string) list) n \<noteq> None \<longrightarrow> map_of st n \<noteq> None)"
    using assms(2) unfolding ServiceStatus_def by (rule all) simp
  then have "\<forall>n\<in>set appServices. map_of st n = Some ''active''" by (metis empty_iff insert_iff)
  then have "\<forall>n\<in>set appServices. status_of st n = ''active''" by (simp add: status_of_def)
  then show ?thesis unfolding service_issues_def List.map_filter_def by (simp add: filter_empty_conv)
qed

lemma healthy_dns:
  assumes "healthy env" "dnsbl_issues env w = Some (Ok is, w')"
  shows "is = []"
proof -
  obtain ip w1 where ip: "PublicIP env w = Some (Ok ip, w1)"
  proof -
    obtain resp ip where "e_http env (w_trace w) \<lparr>h_method = ''GET'', h_url = traceURL, h_token = [], h_body = None\<rparr> = Some resp"
      "scan_ip (h_read_ok resp) (raw_lines (h_data resp)) = Ok ip" using assms(1) unfolding healthy_def by blast
    then show thesis using that by (simp add: PublicIP_def gbind_def gwrap_def http_do_def of_outcome_def Let_def)
  qed
  have "dnsblListings ip env w1 = Some (Ok ls, w2) \<Longrightarrow> ls = []" for ls w2
  proof (cases "reverseIPv4 ip")
    case (Some r)
    let ?f = "\<lambda>zone listed. gbind (lookupHost (r @ ''.'' @ zone)) (\<lambda>found. ret (if found then listed @ [zone] else listed))"
    have step: "?f z acc env v = Some (Ok acc, v\<lparr>w_trace := w_trace v @ [ELookup (r @ ''.'' @ z)]\<rparr>)" for z acc v
      using assms(1) by (simp add: gbind_def lookupHost_def ret_def healthy_def)
    have "gfold zs ?f acc env v = Some (Ok ls, v') \<Longrightarrow> ls = acc" for zs acc v v' ls
    proof (induction zs arbitrary: acc v)
      case (Cons z zs)
      then show ?case using Cons.IH unfolding gfold_Cons_run[of ?f, OF step] by blast
    qed (simp add: ret_def)
    then show "dnsblListings ip env w1 = Some (Ok ls, w2) \<Longrightarrow> ls = []" using Some by (simp add: dnsblListings_def)
  qed (simp add: dnsblListings_def ret_def)
  then show ?thesis using assms(2) ip dnsblListings_Ok[of ip env w1]
    by (auto simp: dnsbl_issues_def gbind_def gtry_def ret_def)
qed


lemma CheckAll_steps:
  assumes "CheckAll s env w = Some (Ok (), w')" "IsDone s ''stage2'' env w = Some (Ok True, w1)" "Load s env w1 = Some (Ok cfg, w2)"
  obtains st ports dns upd w3 w4 w5 w6 where "ServiceStatus env w2 = Some (Ok st, w3)" "failedPorts env w3 = Some (Ok ports, w4)"
    "dnsbl_issues env w4 = Some (Ok dns, w5)" "no_mail w w6"
    "(let issues = service_issues st @ port_issues ports @ dns in
       if issues = [] then println ''monitor: all clear''
       else sendAlert cfg ''action needed''
         (join [CHR 0x0A] issues @ [CHR 0x0A, CHR 0x0A] @ ''OS update status: '' @ upd)) env w6 = Some (Ok (), w')"
proof -
  note sym = no_mail_parts no_mail_wholes
  have c: "CheckAll s env w = gbind ServiceStatus (\<lambda>statuses.
       gbind failedPorts (\<lambda>ports.
       gbind dnsbl_issues (\<lambda>dns.
       gbind (gtry SyncCloudflareIPSets) (\<lambda>sync.
       gbind (case sync of Inl err \<Rightarrow> print_item (OErr ''warning: monitor: cf-ips sync failed during check-all:'' err) | Inr _ \<Rightarrow> ret ()) (\<lambda>_.
       gbind update_status (\<lambda>updateStatus.
       let issues = service_issues statuses @ port_issues ports @ dns in
       if issues = [] then println ''monitor: all clear''
       else sendAlert cfg ''action needed''
         (join [CHR 0x0A] issues @ [CHR 0x0A, CHR 0x0A] @ ''OS update status: '' @ updateStatus))))))) env w2"
    using assms(2,3) by (simp add: CheckAll_def go_simps)
  from assms(1)[unfolded c gbind_eq_Ok] obtain st w3 ports w4 dns w5 sync wa u wb upd w6 where
    r: "ServiceStatus env w2 = Some (Ok st, w3)" "failedPorts env w3 = Some (Ok ports, w4)" "dnsbl_issues env w4 = Some (Ok dns, w5)"
      "gtry SyncCloudflareIPSets env w5 = Some (Ok sync, wa)"
      "(case sync of Inl err \<Rightarrow> print_item (OErr ''warning: monitor: cf-ips sync failed during check-all:'' err) | Inr _ \<Rightarrow> ret ()) env wa = Some (Ok u, wb)"
      "update_status env wb = Some (Ok upd, w6)"
    and k: "(let issues = service_issues st @ port_issues ports @ dns in
       if issues = [] then println ''monitor: all clear''
       else sendAlert cfg ''action needed''
         (join [CHR 0x0A] issues @ [CHR 0x0A, CHR 0x0A] @ ''OS update status: '' @ upd)) env w6 = Some (Ok (), w')"
    by blast
  have "no_mail wa wb" using r(5) by (cases sync) (auto simp: print_item_def ret_def no_mail_def)
  moreover have "no_mail w5 wa" using keepsD[OF nm.keeps_try[OF no_mail_wholes(2)] r(4)] .
  ultimately have "no_mail w w6"
    using keepsD[OF no_mail_parts(5) assms(2)] keepsD[OF no_mail_parts(1) assms(3)] keepsD[OF no_mail_parts(2) r(1)]
      keepsD[OF no_mail_parts(3) r(2)] keepsD[OF no_mail_wholes(1) r(3)] keepsD[OF no_mail_wholes(4) r(6)]
    by (simp add: no_mail_def)
  then show thesis using that r(1-3) k by blast
qed

lemma split_on_join4:
  assumes "CHR ''.'' \<notin> set a" "CHR ''.'' \<notin> set b" "CHR ''.'' \<notin> set c" "CHR ''.'' \<notin> set d"
  shows "split_on (CHR ''.'') (a @ ''.'' @ b @ ''.'' @ c @ ''.'' @ d) = [a, b, c, d]"
  using assms by (simp add: split_on_append split_on_plain)

definition mon_cfg :: cfg where
  "mon_cfg = GoMap [(''alert_email'', JStr ''me@b.org''), (''domain'', JStr ''a.org'')]"

definition mon_world :: world where
  "mon_world = empty_world\<lparr>w_fs := [(markerPath \<lparr>Root = []\<rparr> ''stage2'', NFile 0x1A4 (0, 0) []),
     (ConfigFile, NFile 0x180 (0, 0) (cfg_text mon_cfg))]\<rparr>"

section \<open>Properties\<close>




text \<open>Reversing the octets of an address twice gives the address back, so two addresses are never
  looked up under the same name.\<close>

theorem reverseIPv4_involutive:
  assumes "reverseIPv4 ip = Some r"
  shows "reverseIPv4 r = Some ip"
proof -
  from assms obtain a b c d where s: "split_on (CHR ''.'') ip = [a, b, c, d]" and r: "r = d @ ''.'' @ c @ ''.'' @ b @ ''.'' @ a"
    by (auto simp: reverseIPv4_def split: list.splits)
  have "ip = a @ ''.'' @ b @ ''.'' @ c @ ''.'' @ d" using join_split_on[of "CHR ''.''" ip] by (simp add: s)
  moreover have "CHR ''.'' \<notin> set x" if "x \<in> {a, b, c, d}" for x using split_on_no_sep[of x "CHR ''.''" ip] that s by auto
  ultimately show ?thesis using split_on_join4[of d c b a] by (simp add: reverseIPv4_def r)
qed

theorem reverseIPv4_involutive_witness: "reverseIPv4 ''4.3.2.1'' = Some ''1.2.3.4''"
  by (rule reverseIPv4_involutive) (simp add: reverseIPv4_def)

end
