(* ===== verification/Deploy.thy ===== *)
theory Deploy
  imports Commands Files Monitor
begin

text \<open>
  \<^verbatim>\<open>internal/deploy/deploy.go\<close>: pulling the images the rendered units name and starting the stack; and
  \<^verbatim>\<open>internal/healthcheck/healthcheck.go\<close>: the last look at the services and the login banner.
\<close>

section \<open>Images\<close>

definition deployDir :: string where
  "deployDir = Join [ServiceHomeDir, ''.config/containers/systemd'']"

definition image_space :: "char \<Rightarrow> bool" where
  "image_space c = (c \<in> set [CHR 0x09, CHR 0x0A, CHR 0x0C, CHR 0x0D, CHR 0x20])"

text \<open>\<^verbatim>\<open>(?m)^Image=(\S+)\<close>: the captures of all matches, line by line.\<close>

definition image_of_line :: "string \<Rightarrow> string option" where
  "image_of_line l = (let img = takeWhile (\<lambda>c. \<not> image_space c) (drop 6 l) in
     if has_prefix l ''Image='' \<and> img \<noteq> [] then Some img else None)"

definition imageLineRE :: "string \<Rightarrow> string list" where
  "imageLineRE data = List.map_filter image_of_line (split_on (CHR 0x0A) data)"

definition add_image :: "string list \<Rightarrow> string \<Rightarrow> string list" where
  "add_image images img = (if img \<in> set images then images else images @ [img])"

definition collect_images :: "string \<Rightarrow> string list \<Rightarrow> string list go" where
  "collect_images path images =
     gbind (gwrap ''deploy: read'' (os_ReadFile path)) (\<lambda>data. ret (foldl add_image images (imageLineRE data)))"

definition pullImages :: "unit go" where
  "pullImages =
     gbind (gwrap ''deploy: glob'' (filepath_Glob deployDir ''.container'')) (\<lambda>matches.
     gbind (gfold matches collect_images []) (\<lambda>images.
     gforeach images (\<lambda>img. run_step ''deploy: pull'' [''podman'', ''pull'', img] (no_options\<lparr>AsUser := ServiceUser\<rparr>))))"

definition startStack :: "unit go" where
  "startStack = run_step ''deploy: start slfhst.target''
     [''machinectl'', ''shell'', ServiceUser @ ''@'', ''/usr/bin/systemctl'', ''--user'', ''start'', ''slfhst.target''] no_options"

definition deploy_Run :: "store \<Rightarrow> unit go" where
  "deploy_Run s =
     gbind (RequireDone s ''stage1'') (\<lambda>_.
     gbind pullImages (\<lambda>_. startStack))"

section \<open>The last check\<close>

definition motdFile :: string where "motdFile = ''/etc/motd.d/slfhst.motd''"

definition motd_text :: "string \<Rightarrow> string" where
  "motd_text domain = unlines
     [''slfhst -- self-hosted mail + photos/auth/locker + vault'', [],
      ''  Mail:   https://mail.'' @ domain, ''  Vault:  https://vault.'' @ domain, ''  Photos: https://photos.'' @ domain,
      ''  Auth:   https://auth.'' @ domain, ''  Locker: https://locker.'' @ domain]"

definition writeMOTD :: "cfg \<Rightarrow> unit go" where
  "writeMOTD cfg =
     gbind (gwrap ''healthcheck: mkdir'' (os_MkdirAll (Dir motdFile) 0x1ED)) (\<lambda>_.
     gwrap ''healthcheck: write'' (os_WriteFile motdFile (motd_text (cfg_str cfg ''domain'')) 0x1A4))"

text \<open>The services that are not active, in the order the iteration over the map takes.\<close>

definition not_active :: "(string \<times> string) list \<Rightarrow> string list go" where
  "not_active statuses = (\<lambda>env w. Some (Ok (List.map_filter (\<lambda>name. case map_of statuses name of
       Some st \<Rightarrow> if st \<noteq> ''active'' then Some (name @ ''='' @ st) else None
     | None \<Rightarrow> None) (e_order env (w_trace w) (map fst statuses))), w))"

definition health_Run :: "store \<Rightarrow> unit go" where
  "health_Run s =
     gbind (RequireDone s ''stage1'') (\<lambda>_.
     gbind (Load s) (\<lambda>cfg.
     gbind ServiceStatus (\<lambda>statuses.
     gbind (not_active statuses) (\<lambda>notActive.
     gbind (println (if notActive \<noteq> []
        then ''warning: healthcheck: not all app services are active yet: ['' @ join '' '' notActive @ '']''
        else ''healthcheck: all app services active'')) (\<lambda>_.
     writeMOTD cfg)))))"

section \<open>Lemmas\<close>

lemma add_image_set: "set (foldl add_image acc xs) = set acc \<union> set xs"
  by (induction xs arbitrary: acc) (auto simp: add_image_def)

lemma add_image_distinct: "distinct acc \<Longrightarrow> distinct (foldl add_image acc xs)"
  by (induction xs arbitrary: acc) (auto simp: add_image_def)

lemma collect_images_Ok:
  "collect_images p acc env w = Some (Ok res, w') \<Longrightarrow>
   \<exists>data. os_ReadFile p env w = Some (Ok data, w') \<and> res = foldl add_image acc (imageLineRE data)"
  by (auto simp: collect_images_def gbind_eq_Ok gwrap_eq_Ok ret_def)

lemma collect_all:
  "gfold ps collect_images acc env w = Some (Ok images, w') \<Longrightarrow> distinct acc \<Longrightarrow>
   distinct images \<and> set images = set acc \<union> (\<Union>p\<in>set ps. \<Union> (set ` imageLineRE ` set_option (file_at (w_fs w) p))) \<and>
   w_fs w' = w_fs w \<and> commands w' = commands w"
proof (induction ps arbitrary: acc w)
  case (Cons p ps)
  then obtain res w1 where r: "collect_images p acc env w = Some (Ok res, w1)" "gfold ps collect_images res env w1 = Some (Ok images, w')"
    by (auto simp: gbind_eq_Ok)
  then obtain data where s: "os_ReadFile p env w = Some (Ok data, w1)"
    "gfold ps collect_images (foldl add_image acc (imageLineRE data)) env w1 = Some (Ok images, w')"
    using collect_images_Ok[OF r(1)] by auto
  have f: "file_at (w_fs w) p = Some data" "w_fs w1 = w_fs w" using s(1) by (simp_all add: os_ReadFile_Ok_iff)
  have c: "commands w1 = commands w" by (rule no_cmdD[OF no_cmd_files(1) s(1)])
  show ?case using Cons.IH[OF s(2) add_image_distinct[OF Cons.prems(2)]] f c by (auto simp: add_image_set)
qed (simp add: ret_def)

lemma pull_commands:
  "gforeach images (\<lambda>img. run_step ''deploy: pull'' [''podman'', ''pull'', img] (no_options\<lparr>AsUser := ServiceUser\<rparr>)) env w = Some (Ok (), w')
   \<Longrightarrow> commands w' = commands w @ map (\<lambda>i. [''runuser'', ''-u'', ''svc'', ''--'', ''podman'', ''pull'', i]) images"
proof (induction images arbitrary: w)
  case (Cons i images)
  let ?r = "\<lambda>i. run_step ''deploy: pull'' [''podman'', ''pull'', i] (no_options\<lparr>AsUser := ServiceUser\<rparr>)"
  obtain w1 where s: "?r i env w = Some (Ok (), w1)" "gforeach images ?r env w1 = Some (Ok (), w')"
    using Cons.prems by (auto simp: gbind_eq_Ok)
  have "commands w1 = commands w @ [[''runuser'', ''-u'', ''svc'', ''--'', ''podman'', ''pull'', i]]"
    using run_step_commands[OF s(1)] by (simp add: buildArgv_def no_options_def ServiceUser_def)
  then show ?case using Cons.IH[OF s(2)] by simp
qed (simp add: ret_def)

section \<open>Properties\<close>

text \<open>C37: A successful deployment pulls, as the service user, every image some container unit names, each
  once, and only then starts the stack.\<close>

theorem deploy_pulls_then_starts:
  assumes "deploy_Run s env w = Some (Ok (), w')"
  shows "\<exists>images. commands w' = commands w
      @ map (\<lambda>i. [''runuser'', ''-u'', ''svc'', ''--'', ''podman'', ''pull'', i]) images
      @ [[''machinectl'', ''shell'', ''svc@'', ''/usr/bin/systemctl'', ''--user'', ''start'', ''slfhst.target'']] \<and>
    distinct images \<and>
    set images = (\<Union>p\<in>set (fs_glob deployDir ''.container'' (w_fs w)). \<Union> (set ` imageLineRE ` set_option (file_at (w_fs w) p)))"
proof -
  let ?r = "\<lambda>i. run_step ''deploy: pull'' [''podman'', ''pull'', i] (no_options\<lparr>AsUser := ServiceUser\<rparr>)"
  obtain ms images w1 w2 w3 w4 where q: "RequireDone s ''stage1'' env w = Some (Ok (), w1)"
    and g: "filepath_Glob deployDir ''.container'' env w1 = Some (Ok ms, w2)" and c: "gfold ms collect_images [] env w2 = Some (Ok images, w3)"
    and p: "gforeach images ?r env w3 = Some (Ok (), w4)" and t: "startStack env w4 = Some (Ok (), w')"
    using assms unfolding deploy_Run_def pullImages_def gbind_eq_Ok gwrap_eq_Ok by auto
  have f1: "w_fs w1 = w_fs w" "commands w1 = commands w"
    using q no_cmdD[OF no_cmd_config(5) q]
    by (auto simp: RequireDone_def IsDone_def gbind_eq_Ok ret_def fail_def dest!: Stat_try_fs split: if_splits)
  have f2: "ms = fs_glob deployDir ''.container'' (w_fs w1)" "w_fs w2 = w_fs w1"
    using g by (auto simp: filepath_Glob_def io_call_Ok_iff)
  have c2: "commands w2 = commands w1" by (rule no_cmdD[OF no_cmd_files(13) g])
  have st: "commands w' = commands w4 @ [[''machinectl'', ''shell'', ''svc@'', ''/usr/bin/systemctl'', ''--user'', ''start'', ''slfhst.target'']]"
    using run_step_commands[OF t[unfolded startStack_def]] by (simp add: buildArgv_def no_options_def ServiceUser_def)
  note ca = collect_all[OF c]
  show ?thesis
    by (rule exI[of _ images]) (use ca st pull_commands[OF p] f1 f2 c2 in auto)
qed

definition deploy_world :: world where
  "deploy_world = empty_world\<lparr>w_fs := [(''/var/lib/slfhst/stage1.done'', NFile 0x1A4 (0, 0) []),
     (''/home/svc/.config/containers/systemd/a.container'', NFile 0x1A4 (0, 0) (unlines [''[Container]'', ''Image=x/a:1'']))]\<rparr>"

theorem deploy_pulls_then_starts_witness:
  "\<exists>w'. deploy_Run \<lparr>Root = []\<rparr> quiet_env deploy_world = Some (Ok (), w') \<and>
     commands w' = [[''runuser'', ''-u'', ''svc'', ''--'', ''podman'', ''pull'', ''x/a:1''],
       [''machinectl'', ''shell'', ''svc@'', ''/usr/bin/systemctl'', ''--user'', ''start'', ''slfhst.target'']]"
proof -
  let ?p = "''/home/svc/.config/containers/systemd/a.container''"
  have d: "deployDir = ''/home/svc/.config/containers/systemd''"
    by (simp add: deployDir_def ServiceHomeDir_def Join_def Clean_def is_abs_def comps_def clean_comps_def abs_path_def)
  have g: "fs_glob deployDir ''.container'' (w_fs deploy_world) = [?p]"
    by (simp add: fs_glob_def deploy_world_def empty_world_def d Dir_def Base_def Clean_def is_abs_def comps_def clean_comps_def abs_path_def has_suffix_def)
  have i: "imageLineRE (unlines [''[Container]'', ''Image=x/a:1'']) = [''x/a:1'']"
    by (simp add: imageLineRE_def unlines_def map_filter_def image_of_line_def image_space_def)
  have f: "file_at (w_fs deploy_world) ?p = Some (unlines [''[Container]'', ''Image=x/a:1''])" by (simp add: file_at_def deploy_world_def)
  have m: "markerPath \<lparr>Root = []\<rparr> ''stage1'' = ''/var/lib/slfhst/stage1.done''"
    by (simp add: markerPath_def store_path_def StateDir_def Join_def Clean_def is_abs_def comps_def clean_comps_def abs_path_def)
  obtain w1 where q: "RequireDone \<lparr>Root = []\<rparr> ''stage1'' quiet_env deploy_world = Some (Ok (), w1)" "w_fs w1 = w_fs deploy_world"
    by (simp add: RequireDone_def IsDone_def gbind_def gtry_def os_Stat_def quiet_io m fs_exists_def ret_def) (simp add: deploy_world_def ret_def)
  have r: "os_ReadFile ?p quiet_env w = Some (Ok (unlines [''[Container]'', ''Image=x/a:1'']), w\<lparr>w_trace := w_trace w @ [EIo (OpReadFile ?p)]\<rparr>)"
    if "w_fs w = w_fs deploy_world" for w
    using that f by (simp add: os_ReadFile_Ok_iff quiet_env_def)
  have "\<exists>w'. deploy_Run \<lparr>Root = []\<rparr> quiet_env deploy_world = Some (Ok (), w')"
    by (simp add: deploy_Run_def gbind_def q pullImages_def gwrap_def filepath_Glob_def quiet_io g collect_images_def r i add_image_def
      startStack_def quiet_run_step ret_def)
  then obtain w' where run: "deploy_Run \<lparr>Root = []\<rparr> quiet_env deploy_world = Some (Ok (), w')" by blast
  obtain images where im: "commands w' = commands deploy_world
      @ map (\<lambda>i. [''runuser'', ''-u'', ''svc'', ''--'', ''podman'', ''pull'', i]) images
      @ [[''machinectl'', ''shell'', ''svc@'', ''/usr/bin/systemctl'', ''--user'', ''start'', ''slfhst.target'']]"
      "distinct images" "set images = {''x/a:1''}"
    using deploy_pulls_then_starts[OF run] unfolding g by (auto simp: f i)
  then have "images = [''x/a:1'']"
    by (cases images; cases "tl images") auto
  then show ?thesis using im(1) run by (simp add: commands_def deploy_world_def empty_world_def map_filter_def)
qed

end
