(* ===== verification/Backing.thy ===== *)
theory Backing
  imports Commands "HOL-Library.Word"
begin

text \<open>
  \<^verbatim>\<open>internal/backing/backing.go\<close>: waiting for the containers, the layout, bucket and key of the object
  store, and the hardening of the mail server. Times are in nanoseconds.
\<close>

section \<open>Constants and commands\<close>

definition garageBucket :: string where "garageBucket = ''ente''"
definition garageKeyName :: string where "garageKeyName = ''museum''"
definition stalwartCLIImage :: string where "stalwartCLIImage = ''docker.io/stalwartlabs/cli:1.0.12''"
definition stalwartPlanDir :: string where "stalwartPlanDir = Join [DataDir, ''stalwart'', ''slfhst-plan'']"

definition second :: int where "second = 1000000000"

definition podmanExecGarage :: "string \<Rightarrow> string list \<Rightarrow> string go" where
  "podmanExecGarage container args =
     RunChecked ([''podman'', ''exec'', container, ''garage''] @ args) (no_options\<lparr>AsUser := ServiceUser\<rparr>)"

definition garage_step :: "string \<Rightarrow> string list \<Rightarrow> string go" where
  "garage_step msg args = gwrap (''backing: garage '' @ msg) (podmanExecGarage ''garage'' args)"

definition time_Sleep :: "int \<Rightarrow> unit go" where
  "time_Sleep d = emit (ESleep d)"

section \<open>Polling\<close>

text \<open>Both loops of the file have one shape: try; when that did not do it and the deadline has passed,
  give up; otherwise sleep and try again. An attempt is \<open>None\<close> when it did it, else what is known
  of the failure. The fuel bounds the number of attempts.\<close>

primrec poll_loop :: "nat \<Rightarrow> int \<Rightarrow> int \<Rightarrow> string option go \<Rightarrow> (string \<Rightarrow> unit go) \<Rightarrow> unit go" where
  "poll_loop 0 pause deadline attempt giveup = (\<lambda>env w. None)"
| "poll_loop (Suc n) pause deadline attempt giveup =
     gbind attempt (\<lambda>res. case res of
       None \<Rightarrow> ret ()
     | Some info \<Rightarrow>
       gbind time_Now (\<lambda>now.
       if deadline < now then giveup info
       else gbind (time_Sleep pause) (\<lambda>_. poll_loop n pause deadline attempt giveup)))"

definition ready_attempt :: "string \<Rightarrow> string option go" where
  "ready_attempt container =
     gbind (gtry (Run [''podman'', ''exec'', container, ''true'']
       (no_options\<lparr>AsUser := ServiceUser, Capture := True, NoCheck := True\<rparr>))) (\<lambda>res.
     ret (if isl res then Some [] else None))"

definition waitFor :: "string \<Rightarrow> int \<Rightarrow> unit go" where
  "waitFor container timeout =
     gbind time_Now (\<lambda>now.
     gbind get_env (\<lambda>env.
     poll_loop (e_fuel env) (2 * second) (now + timeout) (ready_attempt container)
       (\<lambda>_. fail (Msg (''backing: '' @ container @ '' did not become ready'')))))"

definition WaitForPostgres :: "unit go" where
  "WaitForPostgres = waitFor ''postgres'' (120 * second)"

section \<open>The object store\<close>

definition os_Statfs :: "string \<Rightarrow> (64 word \<times> 64 word) go" where
  "os_Statfs dir = (\<lambda>env w.
     let w1 = w\<lparr>w_trace := w_trace w @ [EIo (OpStatfs dir)]\<rparr> in
     case e_statfs env (w_trace w) dir of
       None \<Rightarrow> Some (Err (IoErr (OpStatfs dir) EOther), w1)
     | Some st \<Rightarrow> Some (Ok st, w1))"

text \<open>The product of two \<open>uint64\<close> wraps; the quotient by a gibibyte fits an \<open>int64\<close>.\<close>

definition capacity_of :: "64 word \<Rightarrow> 64 word \<Rightarrow> int" where
  "capacity_of bavail bsize =
     (let freeBytes = bavail * bsize; freeGB = uint (freeBytes div 1073741824) - 5 in
      if freeGB < 5 then 5 else freeGB)"

definition garageCapacityAt :: "string \<Rightarrow> string go" where
  "garageCapacityAt dir =
     gbind (gwrap ''backing: statfs'' (os_Statfs dir)) (\<lambda>(bavail, bsize).
     ret (show_int (capacity_of bavail bsize) @ ''G''))"

definition garageCapacity :: "string go" where
  "garageCapacity = garageCapacityAt (Join [DataDir, ''garage''])"

definition alreadyAssigned :: "string \<Rightarrow> bool" where
  "alreadyAssigned layout = (\<not> contains layout ''NO ROLE ASSIGNED'' \<and> contains layout ''==== HEALTHY NODES ===='' \<and>
     contains (to_lower layout) ''capacity'')"

definition BootstrapGarage :: "unit go" where
  "BootstrapGarage =
     gbind (waitFor ''garage'' (120 * second)) (\<lambda>_.
     gbind (garage_step ''layout show'' [''layout'', ''show'']) (\<lambda>layout.
     gbind (if alreadyAssigned layout then ret ()
            else
              gbind (garage_step ''node id'' [''node'', ''id'', ''-q'']) (\<lambda>out.
              gbind garageCapacity (\<lambda>capacity.
              gbind (garage_step ''layout assign'' [''layout'', ''assign'', ''-z'', ''dc1'', ''-c'', capacity, trim_space out]) (\<lambda>_.
              gbind (garage_step ''layout apply'' [''layout'', ''apply'', ''--version'', ''1'']) (\<lambda>_. ret ()))))) (\<lambda>_.
     gbind (garage_step ''bucket list'' [''bucket'', ''list'']) (\<lambda>buckets.
     gbind (if contains buckets garageBucket then ret ()
            else gbind (garage_step ''bucket create'' [''bucket'', ''create'', garageBucket]) (\<lambda>_. ret ())) (\<lambda>_.
     gbind (garage_step ''key list'' [''key'', ''list'']) (\<lambda>keys.
     if contains keys garageKeyName then ret ()
     else
       gbind (garage_step ''key create'' [''key'', ''create'', garageKeyName]) (\<lambda>_.
       gbind (garage_step ''bucket allow''
         [''bucket'', ''allow'', ''--read'', ''--write'', ''--owner'', garageBucket, ''--key'', garageKeyName]) (\<lambda>_.
       ret ()))))))))"

section \<open>The mail server\<close>

definition rate :: "string \<Rightarrow> string \<Rightarrow> json" where
  "rate count period = JObj [(''count'', JNum count), (''period'', JNum period)]"

definition throttle :: "string \<Rightarrow> json \<Rightarrow> json" where
  "throttle description r = JObj
     [(''enable'', JBool True), (''description'', JStr description), (''key'', JArr [JStr ''remoteIp'']),
      (''match'', JObj [(''match'', JArr []), (''else'', JStr ''true'')]), (''rate'', r)]"

definition stalwartHardeningPlan :: "string \<Rightarrow> json list" where
  "stalwartHardeningPlan mailHost =
     [JObj [(''@type'', JStr ''update''), (''object'', JStr ''SystemSettings''), (''id'', JStr ''singleton''),
        (''value'', JObj [(''defaultHostname'', JStr mailHost)])],
      JObj [(''@type'', JStr ''update''), (''object'', JStr ''Security''), (''id'', JStr ''singleton''),
        (''value'', JObj [(''authBanRate'', rate ''5'' ''120000''), (''authBanPeriod'', JNum ''3600000''),
           (''abuseBanRate'', rate ''3'' ''60000''), (''abuseBanPeriod'', JNum ''3600000'')])],
      JObj [(''@type'', JStr ''upsert''), (''object'', JStr ''MtaInboundThrottle''), (''matchOn'', JArr [JStr ''description'']),
        (''value'', JObj [(''slfhst_ip_burst'', throttle ''slfhst: remote IP burst'' (rate ''20'' ''60000'')),
           (''slfhst_ip_sustained'', throttle ''slfhst: remote IP sustained'' (rate ''300'' ''3600000''))])]]"

definition plan_text :: "string \<Rightarrow> string" where
  "plan_text mailHost = unlines (map Marshal_map (stalwartHardeningPlan mailHost))"

definition cli_argv :: "string \<Rightarrow> string list" where
  "cli_argv password =
     [''podman'', ''run'', ''--rm'', ''--network'', ''slfhst'', ''-v'', stalwartPlanDir @ '':/work:Z'', ''-w'', ''/work'',
      ''-e'', ''STALWART_URL=http://stalwart:8080'', ''-e'', ''STALWART_USER=admin'', ''-e'', ''STALWART_PASSWORD='' @ password,
      stalwartCLIImage, ''apply'', ''--file'', ''plan.ndjson'']"

text \<open>One run of the command line client: done when it exits with 0, otherwise what it wrote to its
  standard error.\<close>

definition err_stderr :: "gerr \<Rightarrow> string" where
  "err_stderr e = (case e of CmdErr _ c \<Rightarrow> c_stderr c | _ \<Rightarrow> [])"

definition apply_attempt :: "string \<Rightarrow> string option go" where
  "apply_attempt password =
     gbind (gtry (Run (cli_argv password) (no_options\<lparr>AsUser := ServiceUser, Capture := True, NoCheck := True\<rparr>))) (\<lambda>res.
     ret (case res of Inl e \<Rightarrow> Some (err_stderr e) | Inr r \<Rightarrow> if ExitCode r = 0 then None else Some (Stderr r)))"

definition HardenStalwart :: "cfg \<Rightarrow> unit go" where
  "HardenStalwart cfg =
     gbind (waitFor ''stalwart'' (120 * second)) (\<lambda>_.
     let password = cfg_str cfg ''stalwart_admin_password''; mailHost = ''mail.'' @ cfg_str cfg ''domain'' in
     if password = [] then println ''warning: backing: no stalwart_admin_password in config, skipping hardening''
     else
       gbind (gwrap ''backing: mkdir'' (os_MkdirAll stalwartPlanDir 0x1ED)) (\<lambda>_.
       gbind (gwrap ''backing: write'' (os_WriteFile (Join [stalwartPlanDir, ''plan.ndjson'']) (plan_text mailHost) 0x1A4)) (\<lambda>_.
       gbind time_Now (\<lambda>now.
       gbind get_env (\<lambda>env.
       poll_loop (e_fuel env) (5 * second) (now + 120 * second) (apply_attempt password)
         (\<lambda>stderr. println (''warning: backing: stalwart-cli apply did not succeed within 2m, giving up (last stderr: '' @ stderr @ '')'')))))))"

definition backing_Run :: "store \<Rightarrow> unit go" where
  "backing_Run s =
     gbind (RequireDone s ''stage1'') (\<lambda>_.
     gbind (Load s) (\<lambda>cfg.
     gbind WaitForPostgres (\<lambda>_.
     gbind BootstrapGarage (\<lambda>_.
     HardenStalwart cfg))))"

section \<open>Polling comes to an end\<close>

text \<open>A clock that does not run backwards and moves on by at least the time slept.\<close>

definition clock_runs :: "env \<Rightarrow> bool" where
  "clock_runs env = (\<forall>tr ev. e_clock env tr + (case ev of ESleep d \<Rightarrow> max 0 d | _ \<Rightarrow> 0) \<le> e_clock env (tr @ [ev]))"

lemma clock_mono: "clock_runs env \<Longrightarrow> e_clock env tr \<le> e_clock env (tr @ t)"
proof (induction t rule: rev_induct)
  case (snoc ev t)
  have "e_clock env (tr @ t) + (case ev of ESleep d \<Rightarrow> max 0 d | _ \<Rightarrow> 0) \<le> e_clock env ((tr @ t) @ [ev])"
    using snoc.prems unfolding clock_runs_def by blast
  then have "e_clock env (tr @ t) \<le> e_clock env ((tr @ t) @ [ev])" by (cases ev) auto
  then show ?case using snoc by simp
qed simp

lemma clock_sleep: "clock_runs env \<Longrightarrow> 0 \<le> d \<Longrightarrow> e_clock env tr + d \<le> e_clock env (tr @ [ESleep d])"
  unfolding clock_runs_def by (elim allE[of _ tr] allE[of _ "ESleep d"]) simp

abbreviation clock_at :: "env \<Rightarrow> world \<Rightarrow> int" where
  "clock_at env w \<equiv> e_clock env (w_trace w)"

lemma clock_keeps: "clock_runs env \<Longrightarrow> keeps longer m \<Longrightarrow> m env w = Some (r, w') \<Longrightarrow> clock_at env w \<le> clock_at env w'"
  using clock_mono unfolding keeps_def longer_def by metis

lemma poll_returns:
  assumes "clock_runs env" "settles env attempt" "keeps longer attempt" "\<And>info. settles env (giveup info)" "0 \<le> pause"
    and "0 < n" "deadline < clock_at env w + pause * (int n - 1)"
  shows "\<exists>r w'. poll_loop n pause deadline attempt giveup env w = Some (r, w') \<and> r \<noteq> Panic"
  using assms(6,7)
proof (induction n arbitrary: w)
  case (Suc n)
  obtain r w1 where a: "attempt env w = Some (r, w1)" "r \<noteq> Panic" using assms(2) unfolding settles_def by blast
  have c1: "clock_at env w \<le> clock_at env w1" by (rule clock_keeps[OF assms(1,3) a(1)])
  show ?case
  proof (cases r)
    case (Ok res)
    show ?thesis
    proof (cases res)
      case None
      then show ?thesis using a Ok by (simp add: gbind_def ret_def)
    next
      case (Some info)
      define w2 where "w2 = w1\<lparr>w_trace := w_trace w1 @ [EClock]\<rparr>"
      have t: "time_Now env w1 = Some (outcome.Ok (clock_at env w1), w2)" by (simp add: time_Now_def w2_def)
      show ?thesis
      proof (cases "deadline < clock_at env w1")
        case True
        then show ?thesis using a Ok Some t assms(4)[of info] unfolding settles_def by (simp add: gbind_def)
      next
        case False
        define w3 where "w3 = w2\<lparr>w_trace := w_trace w2 @ [ESleep pause]\<rparr>"
        have s: "time_Sleep pause env w2 = Some (outcome.Ok (), w3)" by (simp add: time_Sleep_def emit_def w3_def)
        have "clock_at env w1 \<le> clock_at env w2" using clock_mono[OF assms(1)] by (simp add: w2_def)
        moreover have "clock_at env w2 + pause \<le> clock_at env w3" using clock_sleep[OF assms(1,5)] by (simp add: w3_def)
        ultimately have c3: "clock_at env w + pause \<le> clock_at env w3" using c1 by simp
        have "0 < n" using False Suc.prems(2) c1 by (cases n) auto
        moreover have "deadline < clock_at env w3 + pause * (int n - 1)"
          using Suc.prems(2) c3 by (simp add: algebra_simps)
        ultimately have "\<exists>r w'. poll_loop n pause deadline attempt giveup env w3 = Some (r, w') \<and> r \<noteq> Panic" by (rule Suc.IH)
        then show ?thesis using a Ok Some t s False by (simp add: gbind_def)
      qed
    qed
  next
    case (Err e)
    then show ?thesis using a by (simp add: gbind_def)
  qed (use a in simp)
qed simp


lemma settles_ready: "settles env (ready_attempt c)"
  unfolding ready_attempt_def by (intro settles_intros) simp

lemma settles_apply: "settles env (apply_attempt pw)"
  unfolding apply_attempt_def by (intro settles_intros) simp

lemma attempts_grow: "keeps longer (ready_attempt c)" "keeps longer (apply_attempt pw)"
  unfolding ready_attempt_def apply_attempt_def by (intro lg.keeps_bind lg.keeps_try Run_grows lg.keeps_ret)+

lemma time_Now_run: "time_Now env w = Some (Ok (clock_at env w), w\<lparr>w_trace := w_trace w @ [EClock]\<rparr>)"
  by (simp add: time_Now_def)

text \<open>A wait of 120 seconds makes at most 62 attempts, one every two seconds.\<close>

lemma settles_wait:
  assumes "clock_runs env" "62 \<le> e_fuel env"
  shows "settles env (waitFor c (120 * second))"
  unfolding settles_def
proof
  fix w :: world
  let ?w1 = "w\<lparr>w_trace := w_trace w @ [EClock]\<rparr>"
  have "clock_at env w + 120 * second < clock_at env ?w1 + 2 * second * (int (e_fuel env) - 1)"
    using clock_mono[OF assms(1), of "w_trace w" "[EClock]"] assms(2) by (simp add: second_def)
  then show "\<exists>r w'. waitFor c (120 * second) env w = Some (r, w') \<and> r \<noteq> Panic"
    using poll_returns[OF assms(1) settles_ready attempts_grow(1), of _ "2 * second" "e_fuel env" _ ?w1 c] assms(2)
    by (simp add: waitFor_def gbind_def time_Now_run get_env_def second_def)
qed

lemma settles_garage_step: "settles env (garage_step msg args)"
  unfolding garage_step_def podmanExecGarage_def by (intro settles_intros)

lemma settles_capacity: "settles env garageCapacity"
  unfolding garageCapacity_def garageCapacityAt_def
proof (intro settles_intros)
  show "settles env (os_Statfs d)" for d
    by (simp add: settles_def os_Statfs_def Let_def split: option.split)
qed (auto split: prod.split)

lemma settles_garage: "clock_runs env \<Longrightarrow> 62 \<le> e_fuel env \<Longrightarrow> settles env BootstrapGarage"
  unfolding BootstrapGarage_def
  by (auto intro!: settles_bind settles_wait settles_garage_step settles_capacity)

lemma settles_harden:
  assumes "clock_runs env" "62 \<le> e_fuel env"
  shows "settles env (HardenStalwart cfg)"
proof -
  have poll: "settles env (gbind time_Now (\<lambda>now. gbind get_env (\<lambda>env.
       poll_loop (e_fuel env) (5 * second) (now + 120 * second) (apply_attempt pw) (\<lambda>s. println (f s)))))" for pw f
    unfolding settles_def
  proof
    fix w :: world
    let ?w1 = "w\<lparr>w_trace := w_trace w @ [EClock]\<rparr>"
    have "clock_at env w + 120 * second < clock_at env ?w1 + 5 * second * (int (e_fuel env) - 1)"
      using clock_mono[OF assms(1), of "w_trace w" "[EClock]"] assms(2) by (simp add: second_def)
    then show "\<exists>r w'. gbind time_Now (\<lambda>now. gbind get_env (\<lambda>env.
       poll_loop (e_fuel env) (5 * second) (now + 120 * second) (apply_attempt pw) (\<lambda>s. println (f s)))) env w = Some (r, w') \<and> r \<noteq> Panic"
      using poll_returns[OF assms(1) settles_apply attempts_grow(2), of "\<lambda>s. println (f s)" "5 * second" "e_fuel env" _ ?w1 pw] assms(2)
      by (simp add: gbind_def time_Now_run get_env_def second_def)
  qed
  show ?thesis unfolding HardenStalwart_def Let_def
    by (auto intro!: settles_bind settles_wait settles_wrap settles_mkdir settles_write poll assms)
qed

section \<open>Properties\<close>

text \<open>C20: With a clock that runs, the bootstrap of the backing services always comes back, without a panic:
  every wait gives up after its two minutes. 62 attempts are enough for each of them.\<close>

theorem backing_returns:
  assumes "clock_runs env" and "62 \<le> e_fuel env"
  shows "\<exists>r w'. backing_Run s env w = Some (r, w') \<and> r \<noteq> Panic"
proof -
  have "settles env (backing_Run s)"
    unfolding backing_Run_def WaitForPostgres_def
    by (intro settles_bind settles_RequireDone settles_Load settles_wait settles_garage settles_harden assms)
  then show ?thesis unfolding settles_def by blast
qed

definition slept :: "event list \<Rightarrow> int" where
  "slept tr = sum_list (map (\<lambda>ev. case ev of ESleep d \<Rightarrow> max 0 d | _ \<Rightarrow> 0) tr)"

definition dead_env :: env where
  "dead_env = quiet_env\<lparr>e_exec := (\<lambda>_ f _ _ _. (\<lparr>started = False, exit_code = 0, c_stdout = [], c_stderr = []\<rparr>, f)), e_clock := slept\<rparr>"

theorem backing_returns_witness:
  "\<exists>r w'. backing_Run \<lparr>Root = []\<rparr> dead_env (empty_world\<lparr>w_fs := [(''/var/lib/slfhst/stage1.done'', NFile 0x1A4 (0, 0) [])]\<rparr>) = Some (r, w') \<and> r \<noteq> Panic"
proof -
  have "clock_runs dead_env" by (simp add: clock_runs_def dead_env_def slept_def)
  moreover have "62 \<le> e_fuel dead_env" by (simp add: dead_env_def quiet_env_def)
  ultimately show ?thesis by (rule backing_returns)
qed

text \<open>C35: The capacity given to the storage node is a whole number of gibibytes, at least 5; when the size of
  the free space fits 64 bits it is that space less 5 GiB, or 5.\<close>

theorem garage_capacity_bounds:
  assumes "garageCapacityAt dir env w = Some (Ok t, w')" and "e_statfs env (w_trace w) dir = Some (bavail, bsize)"
  shows "\<exists>n. t = show_int n @ ''G'' \<and> 5 \<le> n \<and> n < 2 ^ 34 \<and>
    (uint bavail * uint bsize < 2 ^ 64 \<longrightarrow> n = max 5 (uint bavail * uint bsize div 2 ^ 30 - 5))"
proof -
  let ?free = "bavail * bsize"
  have t: "t = show_int (capacity_of bavail bsize) @ ''G''"
    using assms by (simp add: garageCapacityAt_def gbind_def gwrap_def os_Statfs_def ret_def Let_def)
  have d: "uint (?free div 1073741824) = uint ?free div 2 ^ 30" by (simp add: uint_div)
  have "uint ?free < 2 ^ 64" using uint_bounded[of ?free] by simp
  then have q: "uint ?free div 2 ^ 30 < 2 ^ 34" by (simp add: div_less_iff_less_mult)
  have m: "uint bavail * uint bsize < 2 ^ 64 \<longrightarrow> uint ?free = uint bavail * uint bsize"
    by (simp add: uint_word_arith_bintrs take_bit_eq_mod)
  show ?thesis using t d q m by (auto simp: capacity_of_def Let_def max_def)
qed

theorem garage_capacity_bounds_witness:
  "\<exists>w'. garageCapacityAt ''/srv/data/garage'' (quiet_env\<lparr>e_statfs := (\<lambda>_ _. Some (26214400, 4096))\<rparr>) empty_world = Some (Ok ''95G'', w')"
proof -
  let ?e = "quiet_env\<lparr>e_statfs := (\<lambda>_ _. Some (26214400, 4096))\<rparr>"
  obtain t w' where r: "garageCapacityAt ''/srv/data/garage'' ?e empty_world = Some (Ok t, w')"
    by (simp add: garageCapacityAt_def gbind_def gwrap_def os_Statfs_def ret_def Let_def)
  have "t = show_int 95 @ ''G''" using garage_capacity_bounds[OF r, of 26214400 4096] by simp
  also have "\<dots> = ''95G''" by code_simp
  finally show ?thesis using r by blast
qed

text \<open>A container counts as ready as soon as the command that asks it could be started at all: the exit code
  is not looked at, and nothing is waited for.\<close>

theorem waitFor_ignores_exit_code:
  assumes "e_exec env (w_trace w @ [EClock]) (w_fs w) [''runuser'', ''-u'', ''svc'', ''--'', ''podman'', ''exec'', c, ''true''] [] None
      = (\<lparr>started = True, exit_code = 125, c_stdout = [], c_stderr = ''no such container''\<rparr>, f')" and "0 < e_fuel env"
  shows "\<exists>w'. waitFor c timeout env w = Some (Ok (), w')"
proof -
  obtain n where n: "e_fuel env = Suc n" using assms(2) by (cases "e_fuel env") auto
  show ?thesis using assms(1)
    by (simp add: waitFor_def gbind_def time_Now_run get_env_def n ready_attempt_def gtry_def Run_def buildArgv_def no_options_def ServiceUser_def ret_def Let_def)
qed

section \<open>The commands of the bootstrap\<close>

lemma Run_try_commands: "gtry (Run argv opts) env w = Some (r, w') \<Longrightarrow> argv \<noteq> [] \<Longrightarrow> commands w' = commands w @ [buildArgv argv opts]"
  by (auto simp: gtry_def dest!: Run_commands split: option.splits prod.splits outcome.splits)

lemma no_cmd_time [intro!, no_cmds]: "keeps no_cmd time_Now" "keeps no_cmd (time_Sleep d)"
  by (auto simp: keeps_def time_Now_def time_Sleep_def emit_def no_cmd_def commands_def map_filter_def)

definition ask_argv :: "string \<Rightarrow> string list" where
  "ask_argv c = [''runuser'', ''-u'', ''svc'', ''--'', ''podman'', ''exec'', c, ''true'']"

lemma ready_commands:
  assumes "ready_attempt c env w = Some (Ok x, w')"
  shows "commands w' = commands w @ [ask_argv c]"
  using assms by (auto simp: ready_attempt_def gbind_eq_Ok ret_def ask_argv_def dest!: Run_try_commands)
    (simp_all add: buildArgv_def no_options_def ServiceUser_def)

lemma poll_commands:
  "poll_loop n pause deadline (ready_attempt c) (\<lambda>_. fail e) env w = Some (Ok (), w') \<Longrightarrow>
   \<exists>k. commands w' = commands w @ replicate k (ask_argv c)"
proof (induction n arbitrary: w)
  case (Suc n)
  then obtain res w1 where a: "ready_attempt c env w = Some (Ok res, w1)" by (auto simp: gbind_eq_Ok)
  note c = ready_commands[OF a]
  show ?case
  proof (cases res)
    case None
    then have "w' = w1" using Suc.prems a by (simp add: gbind_def ret_def)
    then show ?thesis using c by (intro exI[of _ 1]) simp
  next
    case (Some info)
    let ?w2 = "w1\<lparr>w_trace := w_trace w1 @ [EClock]\<rparr>" and ?w3 = "w1\<lparr>w_trace := (w_trace w1 @ [EClock]) @ [ESleep pause]\<rparr>"
    have "poll_loop n pause deadline (ready_attempt c) (\<lambda>_. fail e) env ?w3 = Some (Ok (), w')"
      using Suc.prems a Some by (auto simp: gbind_def time_Now_run fail_def time_Sleep_def emit_def split: if_splits)
    then obtain k where "commands w' = commands ?w3 @ replicate k (ask_argv c)" using Suc.IH by blast
    moreover have "commands ?w3 = commands w1" by (simp add: commands_def map_filter_def)
    ultimately show ?thesis using c by (intro exI[of _ "Suc k"]) simp
  qed
qed simp

lemma waitFor_commands:
  assumes "waitFor c t env w = Some (Ok (), w')"
  shows "\<exists>k. commands w' = commands w @ replicate k (ask_argv c)"
proof -
  let ?w1 = "w\<lparr>w_trace := w_trace w @ [EClock]\<rparr>"
  have "\<exists>k. commands w' = commands ?w1 @ replicate k (ask_argv c)"
    using assms by (intro poll_commands) (simp add: waitFor_def gbind_def time_Now_run get_env_def)
  moreover have "commands ?w1 = commands w" by (simp add: commands_def map_filter_def)
  ultimately show ?thesis by simp
qed

definition garage_argv :: "string list \<Rightarrow> string list" where
  "garage_argv args = [''runuser'', ''-u'', ''svc'', ''--'', ''podman'', ''exec'', ''garage'', ''garage''] @ args"

lemma garage_step_commands:
  assumes "garage_step msg args env w = Some (Ok out, w')"
  shows "commands w' = commands w @ [garage_argv args]"
  using assms by (auto simp: garage_step_def podmanExecGarage_def RunChecked_def gwrap_eq_Ok gbind_eq_Ok ret_def dest!: Run_commands)
    (simp add: buildArgv_def no_options_def ServiceUser_def garage_argv_def)

lemma capacity_commands: "garageCapacity env w = Some (Ok c, w') \<Longrightarrow> commands w' = commands w"
  by (auto simp: garageCapacity_def garageCapacityAt_def gbind_eq_Ok gwrap_eq_Ok os_Statfs_def ret_def Let_def commands_def map_filter_def
    split: option.splits prod.splits)

lemma layout_block:
  assumes "(if alreadyAssigned layout then ret ()
            else
              gbind (garage_step ''node id'' [''node'', ''id'', ''-q'']) (\<lambda>out.
              gbind garageCapacity (\<lambda>capacity.
              gbind (garage_step ''layout assign'' [''layout'', ''assign'', ''-z'', ''dc1'', ''-c'', capacity, trim_space out]) (\<lambda>_.
              gbind (garage_step ''layout apply'' [''layout'', ''apply'', ''--version'', ''1'']) (\<lambda>_. ret ()))))) env w = Some (Ok (), w')"
  shows "\<exists>node cap. commands w' = commands w @ map garage_argv (if alreadyAssigned layout then [] else
      [[''node'', ''id'', ''-q''], [''layout'', ''assign'', ''-z'', ''dc1'', ''-c'', cap, trim_space node], [''layout'', ''apply'', ''--version'', ''1'']])"
proof (cases "alreadyAssigned layout")
  case True
  then show ?thesis using assms by (simp add: ret_def)
next
  case False
  then obtain node cap x y w1 w2 w3 where s: "garage_step ''node id'' [''node'', ''id'', ''-q''] env w = Some (Ok node, w1)"
    "garageCapacity env w1 = Some (Ok cap, w2)"
    "garage_step ''layout assign'' [''layout'', ''assign'', ''-z'', ''dc1'', ''-c'', cap, trim_space node] env w2 = Some (Ok x, w3)"
    "garage_step ''layout apply'' [''layout'', ''apply'', ''--version'', ''1''] env w3 = Some (Ok y, w')"
    using assms by (auto simp: gbind_eq_Ok ret_def)
  show ?thesis using False garage_step_commands[OF s(1)] capacity_commands[OF s(2)] garage_step_commands[OF s(3)] garage_step_commands[OF s(4)]
    by (intro exI[of _ node] exI[of _ cap]) simp
qed


definition garage_out :: string where
  "garage_out = ''==== HEALTHY NODES ==== Capacity ente museum''"

definition garage_env :: env where
  "garage_env = quiet_env\<lparr>e_exec := (\<lambda>_ f _ _ _. (\<lparr>started = True, exit_code = 0, c_stdout = garage_out, c_stderr = []\<rparr>, f))\<rparr>"

lemma garage_run: "\<exists>w'. BootstrapGarage garage_env empty_world = Some (Ok (), w') \<and>
    commands w' = [ask_argv ''garage'', garage_argv [''layout'', ''show''], garage_argv [''bucket'', ''list''], garage_argv [''key'', ''list'']]"
proof -
  have run: "garage_step m a garage_env w = Some (Ok garage_out, w\<lparr>w_trace := w_trace w @ [ECmd (garage_argv a)]\<rparr>)" for m a w
    by (simp add: garage_step_def podmanExecGarage_def RunChecked_def Run_def gwrap_def gbind_def garage_env_def quiet_env_def ret_def
      buildArgv_def no_options_def ServiceUser_def garage_argv_def Let_def)
  have wt: "waitFor ''garage'' t garage_env w = Some (Ok (), w\<lparr>w_trace := w_trace w @ [EClock, ECmd (ask_argv ''garage'')]\<rparr>)" for t w
    by (simp add: waitFor_def gbind_def time_Now_run get_env_def garage_env_def quiet_env_def numeral_eq_Suc ready_attempt_def gtry_def Run_def
      buildArgv_def no_options_def ServiceUser_def ask_argv_def ret_def Let_def)
  have c: "alreadyAssigned garage_out" "contains garage_out garageBucket" "contains garage_out garageKeyName" by code_simp+
  show ?thesis by (simp add: BootstrapGarage_def gbind_def wt run c ret_def commands_def map_filter_def empty_world_def)
qed


text \<open>A key that was created by a run that stopped before it granted the key access to the bucket stays without
  access: the next run finds the key listed, skips the grant and reports success.\<close>

theorem garage_grant_not_repeated:
  "\<exists>w'. BootstrapGarage garage_env empty_world = Some (Ok (), w') \<and>
     list_all (\<lambda>c. ''allow'' \<notin> set c) (commands w')"
  using garage_run by (auto simp: garage_argv_def ask_argv_def)

end
