(* ===== verification/Setup.thy ===== *)
theory Setup
  imports Wizard Firewall Sysupdate Quadlet Deploy Backing Dnscf
begin

text \<open>
  \<^verbatim>\<open>internal/setup/setup.go\<close>: the steps of \<open>slfhst setup\<close> on the booted appliance.
\<close>

text \<open>The steps between the check of the first stage and the marker of the second.\<close>

definition setup_steps :: "store \<Rightarrow> unit go" where
  "setup_steps s =
     gbind (RunPostBoot s) (\<lambda>cfg.
     gbind SyncCloudflareIPSets (\<lambda>_.
     gbind (gtry Check) (\<lambda>res.
     gbind (case res of Inl err \<Rightarrow> print_item (OErr ''update check failed:'' err) | Inr _ \<Rightarrow> ret ()) (\<lambda>_.
     gbind (EnsureSecrets cfg) (\<lambda>_.
     gbind (RenderAll cfg) (\<lambda>_.
     gbind (deploy_Run s) (\<lambda>_.
     gbind (backing_Run s) (\<lambda>_.
     gbind (Sync s) (\<lambda>_.
     health_Run s)))))))))"

definition setup_Run :: "store \<Rightarrow> unit go" where
  "setup_Run s =
     gbind (RequireDone s ''stage1'') (\<lambda>_.
     gbind (setup_steps s) (\<lambda>_.
     MarkDone s ''stage2''))"

section \<open>Touching files\<close>

text \<open>The only step that creates an empty marker file is the last one.\<close>

fun is_touch :: "event \<Rightarrow> bool" where
  "is_touch (EIo (OpCreate _)) = True"
| "is_touch _ = False"

definition touches :: "world \<Rightarrow> event list" where
  "touches w = filter is_touch (w_trace w)"

definition no_touch :: "world \<Rightarrow> world \<Rightarrow> bool" where
  "no_touch w w' \<longleftrightarrow> touches w' = touches w"

interpretation nt: world_order no_touch
  by unfold_locales (simp_all add: no_touch_def)

lemma no_touch_io [intro!]: "\<not> is_touch (EIo op) \<Longrightarrow> keeps no_touch (io_call op g)"
  by (auto simp: keeps_def no_touch_def touches_def io_call_def Let_def split: option.splits outcome.splits)

lemma no_touch_basic [intro!]:
  "keeps no_touch (Run argv opts)" "keeps no_touch (http_do req)" "keeps no_touch bus_open"
  "keeps no_touch (bus_call c d p i m isig args osig dest)" "keeps no_touch (print_item it)" "keeps no_touch (rand_Read n)"
  "keeps no_touch time_Now" "keeps no_touch (time_Sleep t)" "keeps no_touch (Ask lab ao)" "keeps no_touch (set_echo b)" "keeps no_touch get_echo"
  "keeps no_touch read_string" "keeps no_touch (os_Statfs p)" "keeps no_touch (not_active st)"
  by (auto simp: keeps_def no_touch_def touches_def Run_def http_do_def bus_open_def bus_call_def print_item_def rand_Read_def time_Now_def time_Sleep_def
      emit_def Ask_def set_echo_def get_echo_def read_string_def os_Statfs_def not_active_def fail_def Let_def
      split: option.splits outcome.splits prod.splits if_splits)

lemma no_touch_files [intro!]:
  "keeps no_touch (os_ReadFile p)" "keeps no_touch (os_WriteFile p c m)" "keeps no_touch (os_MkdirAll p m)" "keeps no_touch (os_Chmod p m)"
  "keeps no_touch (os_Stat p)" "keeps no_touch (filepath_Glob d s)"
  by (auto simp: os_ReadFile_def os_WriteFile_def os_MkdirAll_def os_Chmod_def os_Stat_def filepath_Glob_def)

lemma no_touch_steps [intro!]: "keeps no_touch (run_step msg argv opts)" "keeps no_touch (RunChecked argv opts)" "keeps no_touch (Banner t)"
  "keeps no_touch (AskSecret lab)"
  by (auto simp: run_step_def RunChecked_def Banner_def AskSecret_def Let_def split: sum.split)

lemma no_touch_config [intro!]: "keeps no_touch (Load s)" "keeps no_touch (Save s cfg)" "keeps no_touch (RequireDone s n)"
  "keeps no_touch (GenSecret k)" "keeps no_touch (cfg_set k1 v cfg)"
  by (auto simp: Load_def Save_def RequireDone_def IsDone_def GenSecret_def cfg_set_def Let_def split: sum.split option.split cfg.split)

lemma no_touch_merge [intro!]: "keeps no_touch (cfg_merge kvs cfg)"
  by (induction kvs cfg rule: cfg_merge.induct) auto

lemma no_touch_token [intro!]: "keeps no_touch ask_token"
proof -
  have "no_touch w w'" if "ask_token env w = Some (r, w')" for env w r w'
    using that
  proof (induction env w rule: ask_token.induct)
    case (1 env w)
    obtain q w1 where a: "AskSecret ''Cloudflare API token'' env w = Some (q, w1)"
      using 1(2) by (cases "AskSecret ''Cloudflare API token'' env w") (auto simp: ask_token.simps[of env w])
    have n: "no_touch w w1" by (rule keepsD[OF no_touch_steps(4) a])
    show ?case
    proof (cases q)
      case (Ok v)
      show ?thesis
      proof (cases "v = []")
        case True
        then have "ask_token env w1 = Some (r, w')" using 1(2) a Ok by (simp add: ask_token.simps[of env w])
        from 1(1)[OF a refl Ok True this] n show ?thesis by (rule nt.trans[rotated])
      next
        case False
        then show ?thesis using 1(2) a Ok n by (simp add: ask_token.simps[of env w])
      qed
    qed (use 1(2) a n in \<open>auto simp: ask_token.simps[of env w]\<close>)
  qed
  then show ?thesis by (auto simp: keeps_def)
qed

lemma no_touch_wizard [intro!]: "keeps no_touch (RunPostBoot s)"
  by (auto simp: RunPostBoot_def ask_secret_key_def file_secret_key_def)

lemma no_touch_bus [intro!]: "keeps no_touch SyncCloudflareIPSets" "keeps no_touch Check"
proof -
  have p: "keeps no_touch (readCIDRList p)" "keeps no_touch (ensureIPSet c n fam)" "keeps no_touch (listTargets c)" "keeps no_touch (checkNew c t)" for p c n fam t
    unfolding readCIDRList_def ensureIPSet_def listTargets_def checkNew_def by (auto split: gerr.split call_err.split sum.split prod.split)
  show "keeps no_touch SyncCloudflareIPSets"
    unfolding SyncCloudflareIPSets_def sync_set_def by (auto intro!: p split: prod.split sum.split)
  show "keeps no_touch Check"
    unfolding Check_def check_target_def currentTargets_def errors_Join_def by (auto intro!: p split: prod.split sum.split)
qed

lemma no_touch_quadlet [intro!]: "keeps no_touch (EnsureSecrets cfg)" "keeps no_touch (RenderAll cfg)"
  by (auto simp: EnsureSecrets_def ensure_secret_def RenderAll_def render_one_def Let_def split: prod.split option.split)

lemma no_touch_deploy [intro!]: "keeps no_touch (deploy_Run s)" "keeps no_touch (health_Run s)"
  by (auto simp: deploy_Run_def pullImages_def collect_images_def startStack_def health_Run_def ServiceStatus_def service_status_def writeMOTD_def)

lemma no_touch_poll [intro!]:
  assumes "keeps no_touch attempt" "\<And>i. keeps no_touch (giveup i)"
  shows "keeps no_touch (poll_loop n pause deadline attempt giveup)"
  using assms by (induction n) (auto simp: keeps_def[of no_touch "\<lambda>env w. None"] split: option.split)

lemma no_touch_wait [intro!]: "keeps no_touch (waitFor c t)"
  by (auto simp: waitFor_def ready_attempt_def)

lemma no_touch_backing [intro!]: "keeps no_touch (backing_Run s)"
proof -
  have g: "keeps no_touch (garage_step m a)" "keeps no_touch garageCapacity" for m a
    unfolding garage_step_def podmanExecGarage_def garageCapacity_def garageCapacityAt_def by (auto split: prod.split)
  show ?thesis
    unfolding backing_Run_def WaitForPostgres_def BootstrapGarage_def HardenStalwart_def apply_attempt_def Let_def
    by (auto intro!: g)
qed

lemma no_touch_dns [intro!]: "keeps no_touch (Sync s)"
proof -
  have q: "keeps no_touch (request m p t b out)" for m p t b and out :: "json \<Rightarrow> 'x option"
    unfolding request_def by (auto split: option.split)
  have z: "keeps no_touch PublicIP" "keeps no_touch (zoneID d t)" "keeps no_touch (existingRecords z t)" "keeps no_touch (upsert z t ex r)"
    for d t z ex r
    unfolding PublicIP_def zoneID_def existingRecords_def upsert_def by (auto intro!: q split: list.split option.split)
  show ?thesis unfolding Sync_def Let_def by (auto intro!: z split: option.split)
qed

lemma no_touch_setup: "keeps no_touch (setup_steps s)"
  unfolding setup_steps_def by (auto split: sum.split)

lemma touches_MarkDone:
  assumes "MarkDone s n env w = Some (r, w')"
  shows "touches w' = touches w \<and> \<not> is_ok r \<or> touches w' = touches w @ [EIo (OpCreate (markerPath s n))]"
  using assms by (auto simp: MarkDone_def gbind_def gwrap_def os_MkdirAll_def os_Touch_def io_call_def touches_def Let_def
    split: option.splits outcome.splits if_splits)


lemma stage1_path: "markerPath \<lparr>Root = []\<rparr> ''stage1'' = ''/var/lib/slfhst/stage1.done''"
  by code_simp

lemma RequireDone_missing:
  assumes "\<not> fs_exists (markerPath s n) (w_fs w)"
  shows "RequireDone s n env w = Some (Err (ErrNotDone n), w\<lparr>w_trace := w_trace w @ [EIo (OpStat (markerPath s n))]\<rparr>)"
  using assms by (auto simp: RequireDone_def IsDone_def gbind_def gtry_def os_Stat_def io_call_def ret_def fail_def Let_def
    split: option.split)


end
