(* ===== verification/Cli.thy ===== *)
theory Cli
  imports Installer Setup Monitor
begin

text \<open>
  \<^verbatim>\<open>cmd/slfhst/main.go\<close>: the command line, its dispatch and the exit status.
\<close>

definition usage_lines :: "string list" where
  "usage_lines =
     [''usage: slfhst <command>'', [],
      ''  install            run the interactive live-installer flow'',
      ''  setup              post-boot setup: domain, firewall, update check,'',
      ''                      render quadlets, start containers, backing'',
      ''                      services, sync DNS (admin-run over SSH)'',
      ''  status              service status summary'',
      ''  check-all           periodic health/DNSBL/anomaly-email check'',
      ''  dns sync            sync Cloudflare DNS records'',
      ''  cf-ips sync          refresh the firewalld Cloudflare ipsets'',
      ''  update check|apply   check for / apply an OS update via systemd-sysupdate'']"

text \<open>The verb \<^verbatim>\<open>%q\<close>: double quotes with Go's escapes. Bytes from 0x80 on, which Go decodes as UTF-8, are kept.\<close>

definition quote_go_char :: "char \<Rightarrow> string" where
  "quote_go_char c =
     (if c = CHR 0x22 \<or> c = CHR 0x5C then [CHR 0x5C, c]
      else if c = CHR 0x07 then [CHR 0x5C, CHR ''a'']
      else if c = CHR 0x08 then [CHR 0x5C, CHR ''b'']
      else if c = CHR 0x0C then [CHR 0x5C, CHR ''f'']
      else if c = CHR 0x0A then [CHR 0x5C, CHR ''n'']
      else if c = CHR 0x0D then [CHR 0x5C, CHR ''r'']
      else if c = CHR 0x09 then [CHR 0x5C, CHR ''t'']
      else if c = CHR 0x0B then [CHR 0x5C, CHR ''v'']
      else if c < CHR 0x20 \<or> c = CHR 0x7F then
        [CHR 0x5C, CHR ''x'', digit_char (of_char c div 16), digit_char (of_char c mod 16)]
      else [c])"

definition go_quote :: "string \<Rightarrow> string" where
  "go_quote s = [CHR 0x22] @ concat (map quote_go_char s) @ [CHR 0x22]"

definition usageError :: "string \<Rightarrow> 'a go" where
  "usageError sub = gbind (gforeach usage_lines println) (\<lambda>_.
     fail (Msg (if sub = [] then ''no command given'' else ''unknown command '' @ go_quote sub)))"

definition dispatchDNS :: "store \<Rightarrow> string list \<Rightarrow> unit go" where
  "dispatchDNS s argv = (if argv \<noteq> [''sync''] then usageError ''dns'' else Sync s)"

definition dispatchCFIPs :: "store \<Rightarrow> string list \<Rightarrow> unit go" where
  "dispatchCFIPs s argv = (if argv \<noteq> [''sync''] then usageError ''cf-ips'' else SyncCloudflareIPSets)"

definition dispatchUpdate :: "string list \<Rightarrow> unit go" where
  "dispatchUpdate argv =
     (if argv = [''check''] then Check
      else if argv = [''apply''] then Apply
      else usageError ''update'')"

definition live_store :: store where
  "live_store = \<lparr>Root = []\<rparr>"

definition cli_run :: "sorter \<Rightarrow> string list \<Rightarrow> unit go" where
  "cli_run srt argv = (case argv of
     [] \<Rightarrow> usageError []
   | cmd # rest \<Rightarrow>
     if cmd = ''install'' then installer_Run srt
     else if cmd = ''setup'' then setup_Run live_store
     else if cmd = ''status'' then Status live_store
     else if cmd = ''check-all'' then CheckAll live_store
     else if cmd = ''dns'' then dispatchDNS live_store rest
     else if cmd = ''cf-ips'' then dispatchCFIPs live_store rest
     else if cmd = ''update'' then dispatchUpdate rest
     else usageError cmd)"

text \<open>The exit status: 0 on success and when an earlier stage is missing, 1 on any other error, 2 on a panic.\<close>

definition cli_main :: "sorter \<Rightarrow> string list \<Rightarrow> env \<Rightarrow> world \<Rightarrow> (nat \<times> world) option" where
  "cli_main srt argv env w = (case cli_run srt argv env w of
     None \<Rightarrow> None
   | Some (Ok _, w') \<Rightarrow> Some (0, w')
   | Some (Panic, w') \<Rightarrow> Some (2, w')
   | Some (Err e, w') \<Rightarrow>
       if is_not_done e then Some (0, w')
       else Some (1, w'\<lparr>w_console := w_console w' @ [OErr ''slfhst:'' e]\<rparr>))"

text \<open>What the command line understands.\<close>

definition recognised :: "string list \<Rightarrow> bool" where
  "recognised argv \<longleftrightarrow> argv \<noteq> [] \<and>
     (hd argv \<in> {''install'', ''setup'', ''status'', ''check-all''} \<or>
      argv \<in> {[''dns'', ''sync''], [''cf-ips'', ''sync''], [''update'', ''check''], [''update'', ''apply'']})"

lemma gforeach_println: "gforeach ls println env w = Some (Ok (), w\<lparr>w_console := w_console w @ map OText ls\<rparr>)"
  by (induction ls arbitrary: w) (simp_all add: gbind_def ret_def print_item_def)

lemma usageError_run:
  "usageError sub env w = Some (Err (Msg (if sub = [] then ''no command given'' else ''unknown command '' @ go_quote sub)),
     w\<lparr>w_console := w_console w @ map OText usage_lines\<rparr>)"
  by (simp add: usageError_def gbind_def gforeach_println fail_def)

lemma unrecognised_usage:
  assumes "\<not> recognised argv"
  shows "cli_run srt argv = usageError (if argv = [] then [] else hd argv)"
  using assms by (cases argv) (auto simp: recognised_def cli_run_def dispatchDNS_def dispatchCFIPs_def dispatchUpdate_def)



lemma gated_missing:
  assumes "\<not> fs_exists (markerPath s n) (w_fs w)"
  shows "gbind (RequireDone s n) f env w = Some (Err (ErrNotDone n), w\<lparr>w_trace := w_trace w @ [EIo (OpStat (markerPath s n))]\<rparr>)"
  by (simp add: gbind_def RequireDone_missing[OF assms])

text \<open>C38: Before the installer has finished, \<open>slfhst setup\<close> and \<open>slfhst dns sync\<close> are clean no-ops: whatever the
  environment answers, the only thing that happens is one look for the marker of the first stage; nothing is printed,
  read, written, run or sent, and the exit status is 0.\<close>

theorem setup_before_install:
  assumes "\<not> fs_exists (markerPath live_store ''stage1'') (w_fs w)"
    and "argv = ''setup'' # rest \<or> argv = [''dns'', ''sync'']"
  shows "cli_main srt argv env w = Some (0, w\<lparr>w_trace := w_trace w @ [EIo (OpStat ''/var/lib/slfhst/stage1.done'')]\<rparr>)"
  using assms(2)
  by (auto simp: cli_main_def cli_run_def dispatchDNS_def setup_Run_def Sync_def stage1_path live_store_def
    gated_missing[OF assms(1)[unfolded live_store_def]])

theorem setup_before_install_witness:
  "cli_main (\<lambda>k xs. xs) [''setup''] quiet_env empty_world = Some (0, empty_world\<lparr>w_trace := w_trace empty_world @ [EIo (OpStat ''/var/lib/slfhst/stage1.done'')]\<rparr>)"
  by (rule setup_before_install[where rest = "[]"]) (simp_all add: fs_exists_def live_store_def stage1_path empty_world_def)

end
