(* ===== verification/Spec2Isabelle.thy ===== *)
theory Spec2Isabelle
  imports DBus_Spec Varlink Cli
begin

text \<open>
  \<^bold>\<open>slfhst\<close> is one Go program with two faces. Booted from a medium, \<^verbatim>\<open>slfhst install\<close> picks two disks, partitions
  them, copies the system, and configures network, firewall, accounts and SSH on the mounted target. On the installed
  appliance, \<^verbatim>\<open>slfhst setup\<close> interviews the administrator, renders the container units, starts them, prepares the
  backing services and synchronises DNS; \<^verbatim>\<open>status\<close>, \<^verbatim>\<open>check-all\<close>, \<^verbatim>\<open>dns sync\<close>, \<^verbatim>\<open>cf-ips sync\<close> and
  \<^verbatim>\<open>update check|apply\<close> are run later, by hand or by timers. The program talks to systemd-sysupdated and firewalld
  over a D-Bus client of its own. This development models all of its Go packages.

  \<^bold>\<open>The model.\<close> A Go function with effects is a value of type \<open>'a go\<close> (theory \<open>World\<close>): it takes an environment and a
  world and gives an outcome (\<open>Ok\<close>, \<open>Err\<close> or \<open>Panic\<close>) and the new world. The world is the file tree, the unread console
  input, the console output, the terminal's echo flag and the history of everything done outside the program. All that is
  not the program is the record \<open>env\<close>: exit status, output and effect of commands, failing system calls, random bytes,
  the clock, HTTP, name lookup, TCP, mail relay, the D-Bus peer, free disk space, the iteration order of Go maps. Its fields
  are functions of the history, so that nothing is assumed about them beyond what a theorem names; a refused write may
  leave any tree behind. Pure Go code is a plain function; Go byte slices and strings are lists of bytes or of characters;
  machine integers are words where they can wrap (D-Bus lengths and serials, file system sizes).

  \<^bold>\<open>Theories and sources\<close> (paths below \<^verbatim>\<open>src/internal\<close> unless given in full):
  \<^item> \<open>Prelude\<close>: outcomes, little-endian integers, alignment, shared list facts and the collection \<open>outcome_simps\<close>.
    \<open>GoStrings\<close>, \<open>GoPath\<close>, \<open>Json\<close>: the used parts of \<^verbatim>\<open>strings\<close>, \<^verbatim>\<open>strconv\<close>, \<^verbatim>\<open>path/filepath\<close>, \<^verbatim>\<open>encoding/json\<close>.
    \<open>World\<close>: effects, system calls on the tree, and the locale \<open>world_order\<close>, in which preservation of a relation between
    worlds is carried through sequencing, error capture, \<^verbatim>\<open>defer\<close> and loops once; it is interpreted for every such relation
    (\<open>nc\<close>, \<open>ci\<close>, \<open>nm\<close>, \<open>nt\<close>, \<open>lg\<close>). \<open>Commands\<close> and \<open>Files\<close>: which commands a run starts, what it leaves of the files.
  \<^item> \<open>DBus_Wire\<close> (\<^verbatim>\<open>dbus/marshal.go\<close>), \<open>DBus_Message\<close> (\<^verbatim>\<open>dbus/message.go\<close>, \<^verbatim>\<open>dbus/dbus.go\<close>): encoder, decoder, messages,
    connections. \<open>DBus_Types\<close> is their abstract specification: the type grammar and the typing \<open>wt\<close> of values.
    \<open>DBus_Roundtrip\<close> (locale \<open>wire_codec\<close>, interpreted for each primitive), \<open>DBus_Decode\<close>, \<open>DBus_Calls\<close> (inductive relation
    \<open>skips\<close>) hold the lemmas, \<open>DBus_Spec\<close> the properties and the step relation \<open>session\<close> of
    a connection's life. \<open>Bus\<close> lifts the client into the world. \<open>Varlink\<close>
    (\<^verbatim>\<open>varlink/varlink.go\<close>) is the second protocol client.
  \<^item> \<open>Config\<close> (\<^verbatim>\<open>config\<close>; locale \<open>stage_gate\<close>, interpreted by \<open>RequireDone\<close>), \<open>Runx\<close> (\<^verbatim>\<open>runx\<close>), \<open>Prompt\<close> (\<^verbatim>\<open>prompt\<close>).
  \<^item> For the installer: \<open>Disks\<close> (\<^verbatim>\<open>disks\<close>; locale \<open>sort_slice\<close> for what \<^verbatim>\<open>sort.Slice\<close> promises), \<open>Netconf\<close>, \<open>Users\<close>, \<open>Sshauth\<close>,
    \<open>Wizard\<close>, \<open>Firewall\<close> (\<^verbatim>\<open>firewall/preboot.go\<close>, \<^verbatim>\<open>firewall/firewall.go\<close>), \<open>Installer\<close>.
  \<^item> For the appliance: \<open>Quadlet\<close>, \<open>Deploy\<close> (\<^verbatim>\<open>deploy\<close>, \<^verbatim>\<open>healthcheck\<close>), \<open>Backing\<close>, \<open>Dnscf\<close>, \<open>Sysupdate\<close>, \<open>Monitor\<close>, \<open>Setup\<close>.
  \<^item> \<open>Cli\<close> (\<^verbatim>\<open>src/cmd/slfhst/main.go\<close>): dispatch and exit status over all of them.

  \<^bold>\<open>What is shown.\<close>
  \<^item> D-Bus: the decoder inverts the encoder on every well-typed value and message; a call returns the reply with its serial
    whatever is interleaved; the serials of a connection's first \<open>2\<^sup>3\<^sup>2 - 1\<close> calls are fresh; on arbitrary bytes the decoder stays in its buffer and, without variants, ends without a
    panic. Two inputs are given on which it loops or panics, and the serial overflow. Varlink: a call against any
    conforming service returns that service's answer.
  \<^item> Installation: the choice of disks meets its specification for every order \<^verbatim>\<open>sort.Slice\<close> may give; the partitioning
    tools see no other disk; passwords reach neither the command line nor a remaining file; ownership, key
    file, network files, firewall policy and mounts end as stated.
  \<^item> Setup: template expansion equals substitution on the tokenised template; every template is rendered to its destination;
    images are pulled before the stack starts; waiting always ends; the writes of the DNS synchronisation refine the desired
    zone and a second run has nothing to do; the marker of the stage is the last thing created; nothing happens before
    installation is complete, and the marker the installer leaves opens the gate of \<^verbatim>\<open>setup\<close> after the reboot (below).
  \<^item> Configuration, secrets, console, command runner, alerts, updates, command line: round trips, modes, behaviour on every
    error path.

  \<^bold>\<open>Fuel and bounds.\<close> Recursions that follow the data are \<open>fun\<close> or \<open>function\<close> with a termination proof (the console loops
  end because each attempt consumes input). The JSON parser runs with fuel twice the length of its text, shown
  to be enough (\<open>parse_value_fuel\<close>). The D-Bus decoder may really diverge, so it takes fuel and returns \<open>None\<close> without;
  results do not depend on the fuel, and enough fuel is given explicitly where termination is claimed. Polling loops take the
  environment's fuel; 62 attempts cover the two minutes at two seconds each.

  \<^bold>\<open>Not modelled.\<close> Text beyond ASCII is carried as bytes: validity of UTF-8 is not checked, and case folding is ASCII only.
  The file tree has no traversal of symbolic links and no permission checks; either shows as a failing call of the environment.
  Socket deadlines and the packets below a read or write are the peer's. The exact wording of errors of the Go library is
  abstract (\<open>gerr\<close>, printed by \<open>e_err\<close>). The \<^verbatim>\<open>_test.go\<close> files, the image build under \<^verbatim>\<open>src/mkosi\<close>, the units under
  \<^verbatim>\<open>src/systemd\<close> and the templates under \<^verbatim>\<open>src/usr\<close> are not Go code of the program; templates appear as the files the
  renderer reads.
\<close>

section \<open>From the installer to the appliance\<close>

text \<open>The reboot: what lies below the mount point is the file tree of the installed system.\<close>

definition reroot :: "string \<Rightarrow> fs \<Rightarrow> fs" where
  "reroot m f = map (\<lambda>(p, n). (drop (length m) p, n)) (filter (\<lambda>(p, n). has_prefix p (m @ ''/'')) f)"

lemma map_of_reroot: "map_of (reroot m f) (CHR ''/'' # q) = map_of f (m @ CHR ''/'' # q)"
  by (induction f) (auto simp: reroot_def has_prefix_iff, metis)

text \<open>A successful installation ends with the marker: nothing touches the file tree after it.\<close>

lemma installer_marks:
  assumes "installer_Run srt env w = Some (Ok (), w')"
  obtains wa wb where "MarkDone target_store ''stage1'' env wa = Some (Ok (), wb)" "w_fs w' = w_fs wb"
  using assms unfolding installer_Run_def install_done_def
  by (auto simp: gbind_eq_Ok print_item_def split: prod.splits)

text \<open>C6: The hand-over between the two stages works: the marker the installer leaves below the mount point is the one
  \<open>setup\<close> looks for once that tree has become the root, so on the installed system \<open>setup\<close> passes the
  gate and goes on to its steps.\<close>

theorem install_hands_over:
  assumes "MarkDone target_store ''stage1'' env w = Some (Ok (), w1)"
    and "w_fs w2 = reroot mountpoint (w_fs w1)"
    and "e_io env2 (w_trace w2) (w_fs w2) (OpStat ''/var/lib/slfhst/stage1.done'') = None"
  shows "setup_Run live_store env2 w2 = gbind (setup_steps live_store) (\<lambda>_. MarkDone live_store ''stage2'') env2
    (w2\<lparr>w_trace := w_trace w2 @ [EIo (OpStat ''/var/lib/slfhst/stage1.done'')]\<rparr>)"
proof -
  have t: "markerPath target_store ''stage1'' = mountpoint @ ''/var/lib/slfhst/stage1.done''" by code_simp
  obtain m own c where "map_of (w_fs w1) (markerPath target_store ''stage1'') = Some (NFile m own c)"
    using assms(1) by (rule MarkDone_Ok) blast
  then have "map_of (w_fs w2) ''/var/lib/slfhst/stage1.done'' \<noteq> None"
    unfolding assms(2) t using map_of_reroot[of mountpoint "w_fs w1" "''var/lib/slfhst/stage1.done''"] by simp
  then show ?thesis
    using assms(3) by (simp add: setup_Run_def gbind_def RequireDone_def IsDone_run live_store_def stage1_path fs_exists_def ret_def)
qed

theorem install_hands_over_witness:
  "\<exists>w1. MarkDone target_store ''stage1'' quiet_env empty_world = Some (Ok (), w1) \<and>
     (let w2 = empty_world\<lparr>w_fs := reroot mountpoint (w_fs w1)\<rparr> in
      setup_Run live_store quiet_env w2 = gbind (setup_steps live_store) (\<lambda>_. MarkDone live_store ''stage2'') quiet_env
        (w2\<lparr>w_trace := [EIo (OpStat ''/var/lib/slfhst/stage1.done'')]\<rparr>))"
proof -
  let ?t = "MarkDone target_store ''stage1'' quiet_env empty_world"
  have "case ?t of Some (Ok _, _) \<Rightarrow> True | _ \<Rightarrow> False" by code_simp
  then obtain w1 where m: "?t = Some (Ok (), w1)" by (auto split: option.splits prod.splits outcome.splits)
  have "setup_Run live_store quiet_env (empty_world\<lparr>w_fs := reroot mountpoint (w_fs w1)\<rparr>) =
      gbind (setup_steps live_store) (\<lambda>_. MarkDone live_store ''stage2'') quiet_env
        (empty_world\<lparr>w_fs := reroot mountpoint (w_fs w1), w_trace := [EIo (OpStat ''/var/lib/slfhst/stage1.done'')]\<rparr>)"
    using install_hands_over[OF m, of "empty_world\<lparr>w_fs := reroot mountpoint (w_fs w1)\<rparr>" quiet_env]
    by (simp add: quiet_env_def empty_world_def)
  then show ?thesis using m by (simp add: Let_def)
qed

end
